(* ===== verification/SPX_Prelude.thy ===== *)
theory SPX_Prelude
  imports Main "HOL-Library.Word" "HOL-Library.Char_ord"
begin

text \<open>
  Shared vocabulary of the development: the machine integers of the Rust sources as words, Rust's
  \<^verbatim>\<open>Result\<close> as a sum type, big-endian integer fields (\<^verbatim>\<open>to_be_bytes\<close> and \<^verbatim>\<open>from_be_bytes\<close>), and
  Rust strings as the list of their UTF-8 bytes together with the validity check of
  \<^verbatim>\<open>String::from_utf8\<close>.
\<close>

named_theorems exec_simps \<open>evaluation of the model on concrete inputs\<close>
named_theorems result_simps \<open>sequencing of fallible steps\<close>

type_synonym byte = "8 word"
type_synonym u8 = "8 word"
type_synonym u16 = "16 word"
type_synonym u32 = "32 word"
type_synonym u64 = "64 word"

section \<open>Fallible computations\<close>

text \<open>A Rust \<^verbatim>\<open>Result\<close>: \<^const>\<open>Inl\<close> carries the error, \<^const>\<open>Inr\<close> the value; \<^verbatim>\<open>?\<close> is \<open>and_then\<close>.\<close>

type_synonym ('e, 'a) result = "'e + 'a"

primrec and_then :: "('e, 'a) result \<Rightarrow> ('a \<Rightarrow> ('e, 'b) result) \<Rightarrow> ('e, 'b) result" where
  "and_then (Inl e) f = Inl e"
| "and_then (Inr x) f = f x"

primrec ok_or :: "'e \<Rightarrow> 'a option \<Rightarrow> ('e, 'a) result" where
  "ok_or e None = Inl e"
| "ok_or e (Some x) = Inr x"

definition is_ok :: "('e, 'a) result \<Rightarrow> bool" where
  "is_ok r = (case r of Inl _ \<Rightarrow> False | Inr _ \<Rightarrow> True)"

lemma is_ok_simps [simp]: "is_ok (Inr x)" "\<not> is_ok (Inl e)"
  by (simp_all add: is_ok_def)

lemma and_then_Inr_iff [result_simps]:
  "and_then r f = Inr y \<longleftrightarrow> (\<exists>x. r = Inr x \<and> f x = Inr y)"
  by (cases r) auto

lemma and_then_Inl_iff [result_simps]:
  "and_then r f = Inl e \<longleftrightarrow> r = Inl e \<or> (\<exists>x. r = Inr x \<and> f x = Inl e)"
  by (cases r) auto

lemma ok_or_Inr_iff [result_simps]: "ok_or e o1 = Inr x \<longleftrightarrow> o1 = Some x"
  by (cases o1) auto

lemma and_then_assoc: "and_then (and_then r f) g = and_then r (\<lambda>x. and_then (f x) g)"
  by (cases r) auto

section \<open>Big-endian fields\<close>

primrec be_bytes :: "nat \<Rightarrow> nat \<Rightarrow> byte list" where
  "be_bytes 0 v = []"
| "be_bytes (Suc n) v = word_of_nat (v div 256 ^ n) # be_bytes n v"

definition of_be :: "byte list \<Rightarrow> nat" where
  "of_be bs = foldl (\<lambda>a b. a * 256 + unat b) 0 bs"

lemma length_be_bytes [simp]: "length (be_bytes n v) = n"
  by (induction n) auto

lemma unat_less: "unat (w :: 'a::len word) < 2 ^ LENGTH('a)"
  by (rule unsigned_less)

lemma unat_byte_of_nat [simp]: "unat (word_of_nat v :: byte) = v mod 256"
  by (simp add: unat_of_nat)

lemma foldl_be_bytes:
  "foldl (\<lambda>a b. a * 256 + unat (b :: byte)) a (be_bytes n v) = a * 256 ^ n + v mod 256 ^ n"
proof (induction n arbitrary: a)
  case (Suc n)
  have "v mod 256 ^ Suc n = 256 ^ n * (v div 256 ^ n mod 256) + v mod 256 ^ n"
    by (metis mod_mult2_eq mult.commute power_Suc)
  then show ?case
    by (simp add: Suc.IH distrib_right)
qed simp

lemma of_be_be_bytes [simp]: "of_be (be_bytes n v) = v mod 256 ^ n"
  by (simp add: of_be_def foldl_be_bytes)

lemma foldl_be_shift:
  "foldl (\<lambda>a b. a * 256 + unat (b :: byte)) a bs =
    a * 256 ^ length bs + foldl (\<lambda>a b. a * 256 + unat b) 0 bs"
proof (induction bs arbitrary: a)
  case (Cons b bs)
  show ?case
    using Cons [of "a * 256 + unat b"] Cons [of "unat b"] by (simp add: algebra_simps)
qed simp

lemma of_be_Nil [simp]: "of_be [] = 0"
  by (simp add: of_be_def)

lemma of_be_Cons: "of_be (b # bs) = unat b * 256 ^ length bs + of_be bs"
  using foldl_be_shift [of "unat b" bs] by (simp add: of_be_def)

lemma of_be_bound: "of_be bs < 256 ^ length bs"
proof (induction bs)
  case (Cons b bs)
  have "unat b < 256"
    using unat_less [of b] by simp
  then have "unat b * 256 ^ length bs + of_be bs < (unat b + 1) * 256 ^ length bs"
    using Cons by simp
  also have "\<dots> \<le> 256 * 256 ^ length bs"
    using \<open>unat b < 256\<close> by (intro mult_le_mono1) simp
  finally show ?case
    by (simp add: of_be_Cons)
qed simp

lemma be_bytes_mod: "be_bytes n (v mod 256 ^ m) = be_bytes n v" if "n \<le> m"
  using that
proof (induction n)
  case (Suc n)
  have split: "(256 :: nat) ^ m = 256 ^ n * 256 * 256 ^ (m - Suc n)"
    using Suc.prems by (metis le_add_diff_inverse power_Suc2 power_add)
  have "v mod 256 ^ m div 256 ^ n mod 256 = v div 256 ^ n mod 256"
    by (simp add: split mult.assoc mod_mult2_eq)
  then show ?case
    using Suc by (simp add: word_unat_eq_iff)
qed simp

lemma be_bytes_of_be [simp]: "be_bytes (length bs) (of_be bs) = bs"
proof (induction bs)
  case (Cons b bs)
  have "be_bytes (length bs) (of_be (b # bs)) = be_bytes (length bs) (of_be bs)"
    using be_bytes_mod [of "length bs" "length bs" "of_be (b # bs)"] of_be_bound [of bs]
    by (simp add: of_be_Cons)
  moreover have "of_be (b # bs) div 256 ^ length bs = unat b"
    using of_be_bound [of bs] by (simp add: of_be_Cons)
  ultimately show ?case
    using Cons by simp
qed simp

text \<open>The integer fields of the wire formats, by width in bytes.\<close>

definition u16_to_be :: "u16 \<Rightarrow> byte list" where
  "u16_to_be w = be_bytes 2 (unat w)"

definition u16_from_be :: "byte list \<Rightarrow> u16" where
  "u16_from_be bs = word_of_nat (of_be bs)"

definition u32_to_be :: "u32 \<Rightarrow> byte list" where
  "u32_to_be w = be_bytes 4 (unat w)"

definition u32_from_be :: "byte list \<Rightarrow> u32" where
  "u32_from_be bs = word_of_nat (of_be bs)"

definition u64_to_be :: "u64 \<Rightarrow> byte list" where
  "u64_to_be w = be_bytes 8 (unat w)"

definition u64_from_be :: "byte list \<Rightarrow> u64" where
  "u64_from_be bs = word_of_nat (of_be bs)"

text \<open>What the readers rely on about a fixed-width field.\<close>

locale fixed_field =
  fixes put :: "'a \<Rightarrow> byte list"
    and get :: "byte list \<Rightarrow> 'a"
    and width :: nat
  assumes put_length: "length (put x) = width"
    and get_put: "get (put x) = x"
    and put_get: "length bs = width \<Longrightarrow> put (get bs) = bs"
begin

lemma put_inject: "put x = put y \<longleftrightarrow> x = y"
  by (metis get_put)

lemma get_take: "get (take width (put x @ rest)) = x"
  by (simp add: put_length get_put)

lemma drop_put: "drop width (put x @ rest) = rest"
  by (simp add: put_length)

lemma put_append_inject: "put x @ xs = put y @ ys \<longleftrightarrow> x = y \<and> xs = ys"
  by (metis append_eq_append_conv put_length put_inject)

lemma split_field: "width \<le> length bs \<Longrightarrow> bs = put (get (take width bs)) @ drop width bs"
  by (simp add: put_get min_def)

end

interpretation u16_field: fixed_field u16_to_be u16_from_be 2
proof
  fix w :: u16 and bs :: "byte list"
  show "length (u16_to_be w) = 2"
    by (simp add: u16_to_be_def)
  show "u16_from_be (u16_to_be w) = w"
    using unat_less [of w] by (simp add: u16_to_be_def u16_from_be_def)
  show "length bs = 2 \<Longrightarrow> u16_to_be (u16_from_be bs) = bs"
    using of_be_bound [of bs] be_bytes_of_be [of bs]
    by (simp add: u16_to_be_def u16_from_be_def unat_of_nat)
qed

interpretation u32_field: fixed_field u32_to_be u32_from_be 4
proof
  fix w :: u32 and bs :: "byte list"
  show "length (u32_to_be w) = 4"
    by (simp add: u32_to_be_def)
  show "u32_from_be (u32_to_be w) = w"
    using unat_less [of w] by (simp add: u32_to_be_def u32_from_be_def)
  show "length bs = 4 \<Longrightarrow> u32_to_be (u32_from_be bs) = bs"
    using of_be_bound [of bs] be_bytes_of_be [of bs]
    by (simp add: u32_to_be_def u32_from_be_def unat_of_nat)
qed

interpretation u64_field: fixed_field u64_to_be u64_from_be 8
proof
  fix w :: u64 and bs :: "byte list"
  show "length (u64_to_be w) = 8"
    by (simp add: u64_to_be_def)
  show "u64_from_be (u64_to_be w) = w"
    using unat_less [of w] by (simp add: u64_to_be_def u64_from_be_def)
  show "length bs = 8 \<Longrightarrow> u64_to_be (u64_from_be bs) = bs"
    using of_be_bound [of bs] be_bytes_of_be [of bs]
    by (simp add: u64_to_be_def u64_from_be_def unat_of_nat)
qed

lemmas field_lengths [simp] = u16_field.put_length u32_field.put_length u64_field.put_length
lemmas field_get_put [simp] = u16_field.get_put u32_field.get_put u64_field.get_put

lemma unat_u16_small [simp]: "n \<le> 65535 \<Longrightarrow> unat (word_of_nat n :: u16) = n"
  by (simp add: unat_of_nat)

lemma unat_u32_small: "n < 4294967296 \<Longrightarrow> unat (word_of_nat n :: u32) = n"
  by (simp add: unat_of_nat)

lemma be_bytes_numeral [exec_simps]:
  "be_bytes (numeral k) v = word_of_nat (v div 256 ^ pred_numeral k) # be_bytes (pred_numeral k) v"
  "be_bytes 1 v = [word_of_nat v]"
  by (simp_all only: numeral_eq_Suc be_bytes.simps One_nat_def power_0 div_by_Suc_0)

lemma of_be_numeral [exec_simps]:
  "of_be [a, b] = unat a * 256 + unat b"
  "of_be [a, b, c, d] = ((unat a * 256 + unat b) * 256 + unat c) * 256 + unat d"
  by (simp_all add: of_be_def)

declare u16_to_be_def [exec_simps] u32_to_be_def [exec_simps] u64_to_be_def [exec_simps]
declare u16_from_be_def [exec_simps] u32_from_be_def [exec_simps] u64_from_be_def [exec_simps]

section \<open>Rust strings\<close>

definition byte_of_char :: "char \<Rightarrow> byte" where
  "byte_of_char c = word_of_nat (of_char c)"

definition char_of_byte :: "byte \<Rightarrow> char" where
  "char_of_byte b = char_of (unat b)"

definition as_bytes :: "string \<Rightarrow> byte list" where
  "as_bytes s = map byte_of_char s"

definition string_of_bytes :: "byte list \<Rightarrow> string" where
  "string_of_bytes bs = map char_of_byte bs"

lemma char_of_byte_of_char [simp]: "char_of_byte (byte_of_char c) = c"
  using of_char_of [of "of_char c :: nat"]
  by (simp add: byte_of_char_def char_of_byte_def)

lemma byte_of_char_of_byte [simp]: "byte_of_char (char_of_byte b) = b"
  using unat_less [of b] by (simp add: byte_of_char_def char_of_byte_def)

lemma string_of_as_bytes [simp]: "string_of_bytes (as_bytes s) = s"
  by (simp add: as_bytes_def string_of_bytes_def o_def)

lemma as_bytes_string_of [simp]: "as_bytes (string_of_bytes bs) = bs"
  by (simp add: as_bytes_def string_of_bytes_def o_def)

lemma length_as_bytes [simp]: "length (as_bytes s) = length s"
  by (simp add: as_bytes_def)

lemma length_string_of_bytes [simp]: "length (string_of_bytes bs) = length bs"
  by (simp add: string_of_bytes_def)

text \<open>Well-formed UTF-8 byte sequences (no overlong forms, no surrogates, at most U+10FFFF).\<close>

definition utf8_cont :: "byte \<Rightarrow> bool" where
  "utf8_cont b = (0x80 \<le> b \<and> b \<le> 0xBF)"

fun utf8_ok :: "byte list \<Rightarrow> bool" where
  "utf8_ok [] = True"
| "utf8_ok (a # bs) =
    (if a < 0x80 then utf8_ok bs
     else if 0xC2 \<le> a \<and> a \<le> 0xDF then
       (case bs of b # r \<Rightarrow> utf8_cont b \<and> utf8_ok r | _ \<Rightarrow> False)
     else if 0xE0 \<le> a \<and> a \<le> 0xEF then
       (case bs of b # c # r \<Rightarrow>
          utf8_cont b \<and> (a = 0xE0 \<longrightarrow> 0xA0 \<le> b) \<and> (a = 0xED \<longrightarrow> b \<le> 0x9F)
          \<and> utf8_cont c \<and> utf8_ok r
        | _ \<Rightarrow> False)
     else if 0xF0 \<le> a \<and> a \<le> 0xF4 then
       (case bs of b # c # d # r \<Rightarrow>
          utf8_cont b \<and> (a = 0xF0 \<longrightarrow> 0x90 \<le> b) \<and> (a = 0xF4 \<longrightarrow> b \<le> 0x8F)
          \<and> utf8_cont c \<and> utf8_cont d \<and> utf8_ok r
        | _ \<Rightarrow> False)
     else False)"

text \<open>The type invariant of a Rust string value.\<close>

definition str_ok :: "string \<Rightarrow> bool" where
  "str_ok s = utf8_ok (as_bytes s)"

definition from_utf8 :: "byte list \<Rightarrow> string option" where
  "from_utf8 bs = (if utf8_ok bs then Some (string_of_bytes bs) else None)"

lemma from_utf8_as_bytes [simp]: "str_ok s \<Longrightarrow> from_utf8 (as_bytes s) = Some s"
  by (simp add: from_utf8_def str_ok_def)

lemma from_utf8_Some_iff: "from_utf8 bs = Some s \<longleftrightarrow> bs = as_bytes s \<and> str_ok s"
  by (auto simp: from_utf8_def str_ok_def split: if_splits)

lemma utf8_ok_ascii: "\<forall>b\<in>set bs. b < 0x80 \<Longrightarrow> utf8_ok bs"
  by (induction bs) auto

lemma str_ok_Nil [simp]: "str_ok []"
  by (simp add: str_ok_def as_bytes_def)

declare as_bytes_def [exec_simps] byte_of_char_def [exec_simps] str_ok_def [exec_simps]

end
