(* ===== verification/Byte_IO.thy ===== *)
theory Byte_IO
  imports SPX_Prelude
begin

text \<open>
  The byte streams the transports run over.  A reader delivers its bytes in chunks of any size, which
  is how a socket delivers them, and ends with an end-of-file or an I/O fault; a writer accepts any
  part of what it is offered, or nothing, or fails, as its script says, and accepts everything once the
  script is used up.  The theory models the operations of the asynchronous reader and writer traits
  that the sources call, and shows that \<open>read_exact\<close> only depends on the bytes and not on the way they
  were cut.
\<close>

datatype io_error = UnexpectedEof | IoFault | WriteZero

record reader =
  chunks :: "byte list list"
  fault :: bool

definition flat :: "reader \<Rightarrow> byte list" where
  "flat rd = concat (chunks rd)"

text \<open>One read into a buffer with room for \<open>n\<close> bytes; an empty result is the end of the stream.\<close>

definition read_some :: "nat \<Rightarrow> reader \<Rightarrow> (io_error, byte list \<times> reader) result" where
  "read_some n rd =
    (case dropWhile (\<lambda>c. c = []) (chunks rd) of
       [] \<Rightarrow> if fault rd then Inl IoFault else Inr ([], rd\<lparr>chunks := []\<rparr>)
     | c # cs \<Rightarrow> Inr (take n c, rd\<lparr>chunks := drop n c # cs\<rparr>))"

function read_exact :: "nat \<Rightarrow> reader \<Rightarrow> (io_error, byte list \<times> reader) result" where
  "read_exact n rd =
    (if n = 0 then Inr ([], rd)
     else case read_some n rd of
       Inl e \<Rightarrow> Inl e
     | Inr (got, rd') \<Rightarrow>
         if got = [] then Inl UnexpectedEof
         else and_then (read_exact (n - length got) rd') (\<lambda>(more, rd''). Inr (got @ more, rd'')))"
  by pat_completeness auto
termination by (relation "measure fst") (auto simp: length_greater_0_conv)

declare read_exact.simps [simp del]

record writer =
  written :: "byte list"
  accepts :: "nat option list"
  flush_fault :: bool

text \<open>
  One vectored write of some slices: the script's next entry says how many bytes are taken
  (at most what is offered); \<^const>\<open>None\<close> is an I/O fault.
\<close>

definition write_vectored :: "byte list list \<Rightarrow> writer \<Rightarrow> (io_error, nat) result \<times> writer" where
  "write_vectored slices w =
    (let offered = concat slices in
     case accepts w of
       [] \<Rightarrow> (Inr (length offered), w\<lparr>written := written w @ offered\<rparr>)
     | None # s \<Rightarrow> (Inl IoFault, w\<lparr>accepts := s\<rparr>)
     | Some n # s \<Rightarrow>
         (Inr (min n (length offered)), w\<lparr>written := written w @ take n offered, accepts := s\<rparr>))"

definition flush :: "writer \<Rightarrow> (io_error, unit) result" where
  "flush w = (if flush_fault w then Inl IoFault else Inr ())"

function write_all :: "byte list \<Rightarrow> writer \<Rightarrow> (io_error, unit) result \<times> writer" where
  "write_all bs w =
    (if bs = [] then (Inr (), w)
     else case write_vectored [bs] w of
       (Inl e, w') \<Rightarrow> (Inl e, w')
     | (Inr n, w') \<Rightarrow> if n = 0 then (Inl WriteZero, w') else write_all (drop n bs) w')"
  by pat_completeness auto
termination by (relation "measure (length o fst)") auto

declare write_all.simps [simp del]

text \<open>Consecutive \<^verbatim>\<open>write_all\<close> calls, stopping at the first error.\<close>

fun write_seq :: "byte list list \<Rightarrow> writer \<Rightarrow> (io_error, unit) result \<times> writer" where
  "write_seq [] w = (Inr (), w)"
| "write_seq (bs # bss) w =
    (case write_all bs w of
       (Inl e, w') \<Rightarrow> (Inl e, w')
     | (Inr _, w') \<Rightarrow> write_seq bss w')"

section \<open>Reading does not depend on chunk boundaries\<close>

lemma concat_dropWhile_Nil: "concat (dropWhile (\<lambda>c. c = []) cs) = concat cs"
  by (induction cs) auto

lemma read_some_cases:
  obtains (fault) "flat rd = []" "fault rd" "read_some n rd = Inl IoFault"
  | (eof) rd' where "flat rd = []" "\<not> fault rd" "read_some n rd = Inr ([], rd')"
  | (got) c rd' where "c \<noteq> []" "read_some n rd = Inr (take n c, rd')"
      "flat rd = take n c @ flat rd'" "fault rd' = fault rd"
proof (cases "dropWhile (\<lambda>c. c = []) (chunks rd)")
  case Nil
  then have "flat rd = []"
    using concat_dropWhile_Nil [of "chunks rd"] by (auto simp: flat_def)
  moreover have "read_some n rd = (if fault rd then Inl IoFault else Inr ([], rd\<lparr>chunks := []\<rparr>))"
    unfolding read_some_def Nil by simp
  ultimately show thesis
    using fault eof by (cases "fault rd") auto
next
  case (Cons c cs)
  have ne: "c \<noteq> []"
    using hd_dropWhile [of "\<lambda>c. c = []" "chunks rd"] by (simp add: Cons)
  have "flat rd = c @ concat cs"
    using concat_dropWhile_Nil [of "chunks rd"] by (simp add: Cons flat_def)
  moreover have "read_some n rd = Inr (take n c, rd\<lparr>chunks := drop n c # cs\<rparr>)"
    unfolding read_some_def Cons by simp
  ultimately show thesis
    by (intro got [OF ne, of "rd\<lparr>chunks := drop n c # cs\<rparr>"]) (simp_all add: flat_def)
qed

lemma read_exact_0 [simp]: "read_exact 0 rd = Inr ([], rd)"
  by (subst read_exact.simps) simp

lemma read_exact_fault: "n \<noteq> 0 \<Longrightarrow> read_some n rd = Inl e \<Longrightarrow> read_exact n rd = Inl e"
  by (subst read_exact.simps) simp

lemma read_exact_eof: "n \<noteq> 0 \<Longrightarrow> read_some n rd = Inr ([], rd') \<Longrightarrow> read_exact n rd = Inl UnexpectedEof"
  by (subst read_exact.simps) simp

lemma read_exact_step:
  "n \<noteq> 0 \<Longrightarrow> read_some n rd = Inr (got, rd') \<Longrightarrow> got \<noteq> [] \<Longrightarrow>
    read_exact n rd = and_then (read_exact (n - length got) rd') (\<lambda>(more, rd''). Inr (got @ more, rd''))"
  by (subst read_exact.simps) simp

lemma read_exact_enough:
  "n \<le> length (flat rd) \<Longrightarrow>
    \<exists>rd'. read_exact n rd = Inr (take n (flat rd), rd') \<and> flat rd' = drop n (flat rd) \<and> fault rd' = fault rd"
proof (induction n rd rule: read_exact.induct)
  case (1 n rd)
  show ?case
  proof (cases "n = 0")
    case False
    then show ?thesis
    proof (cases rule: read_some_cases [of rd n])
      case (got c rd')
      have len: "n - length (take n c) \<le> length (flat rd')"
        using "1.prems" got by simp
      obtain rd'' where rd'': "read_exact (n - length (take n c)) rd' =
          Inr (take (n - length (take n c)) (flat rd'), rd'')"
          "flat rd'' = drop (n - length (take n c)) (flat rd')" "fault rd'' = fault rd'"
        using "1.IH" [OF False got(2)] got(1) False len by auto
      then show ?thesis
        using read_exact_step [OF False got(2)] got False by (auto simp: min_def split: if_splits)
    qed (use "1.prems" in auto)
  qed (simp add: read_exact_0)
qed

lemma read_exact_short:
  "length (flat rd) < n \<Longrightarrow> read_exact n rd = Inl (if fault rd then IoFault else UnexpectedEof)"
proof (induction n rd rule: read_exact.induct)
  case (1 n rd)
  show ?case
  proof (cases rule: read_some_cases [of rd n])
    case (got c rd')
    have "length (flat rd') < n - length (take n c)"
      using "1.prems" got by simp
    then show ?thesis
      using "1.IH" [OF _ got(2)] read_exact_step [OF _ got(2)] "1.prems" got by simp
  qed (use "1.prems" in \<open>auto simp: read_exact_fault read_exact_eof\<close>)
qed

lemma read_exact_Inr_iff:
  "(\<exists>rd'. read_exact n rd = Inr (bs, rd') \<and> flat rd' = rest) \<longleftrightarrow> flat rd = bs @ rest \<and> length bs = n"
proof (cases "n \<le> length (flat rd)")
  case True
  then show ?thesis using read_exact_enough [OF True] by (auto simp: append_eq_conv_conj)
next
  case False
  then show ?thesis using read_exact_short [of rd n] by auto
qed

section \<open>Writing all of a buffer\<close>

lemma write_vectored_cases:
  obtains (fault) w' where "write_vectored slices w = (Inl IoFault, w')" "written w' = written w"
      "flush_fault w' = flush_fault w"
  | (took) n w' where "write_vectored slices w = (Inr n, w')" "n \<le> length (concat slices)"
      "written w' = written w @ take n (concat slices)" "flush_fault w' = flush_fault w"
proof (cases "accepts w")
  case Nil
  then show thesis
    by (intro took [of "length (concat slices)" "w\<lparr>written := written w @ concat slices\<rparr>"]) (auto simp: write_vectored_def Let_def)
next
  case (Cons a s)
  show thesis
  proof (cases a)
    case None
    with Cons show thesis
      by (intro fault [of "w\<lparr>accepts := s\<rparr>"]) (auto simp: write_vectored_def)
  next
    case (Some n)
    with Cons show thesis
      by (intro took [of "min n (length (concat slices))"
          "w\<lparr>written := written w @ take n (concat slices), accepts := s\<rparr>"])
        (auto simp: write_vectored_def Let_def min_def)
  qed
qed

lemma write_all_Nil [simp]: "write_all [] w = (Inr (), w)"
  by (subst write_all.simps) simp

lemma write_all_fault: "bs \<noteq> [] \<Longrightarrow> write_vectored [bs] w = (Inl e, w') \<Longrightarrow> write_all bs w = (Inl e, w')"
  by (subst write_all.simps) simp

lemma write_all_step:
  "bs \<noteq> [] \<Longrightarrow> write_vectored [bs] w = (Inr n, w') \<Longrightarrow>
    write_all bs w = (if n = 0 then (Inl WriteZero, w') else write_all (drop n bs) w')"
  by (subst write_all.simps) simp

lemma write_all_ok: "write_all bs w = (Inr (), w') \<Longrightarrow> written w' = written w @ bs"
proof (induction bs w rule: write_all.induct)
  case (1 bs w)
  show ?case
  proof (cases rule: write_vectored_cases [of "[bs]" w])
    case (fault w1)
    then show ?thesis
      using "1.prems" write_all_fault [OF _ fault(1)] by (cases "bs = []") auto
  next
    case (took n w1)
    show ?thesis
    proof (cases "bs = []")
      case False
      then have "n \<noteq> 0" and "write_all (drop n bs) w1 = (Inr (), w')"
        using "1.prems" write_all_step [OF False took(1)] by (auto split: if_splits)
      then show ?thesis
        using "1.IH" [OF False took(1) [symmetric]] took by simp
    qed (use "1.prems" in simp)
  qed
qed

lemma write_all_ideal: "accepts w = [] \<Longrightarrow> write_all bs w = (Inr (), w\<lparr>written := written w @ bs\<rparr>)"
  by (subst write_all.simps) (simp add: write_vectored_def Let_def write_all_Nil)

lemma write_seq_ok: "write_seq bss w = (Inr (), w') \<Longrightarrow> written w' = written w @ concat bss"
proof (induction bss arbitrary: w)
  case (Cons bs bss)
  then obtain w1 where w1: "write_all bs w = (Inr (), w1)" "write_seq bss w1 = (Inr (), w')"
    by (auto split: prod.splits sum.splits)
  then show ?case
    using Cons.IH [OF w1(2)] write_all_ok [OF w1(1)] by simp
qed simp

lemma write_seq_ideal: "accepts w = [] \<Longrightarrow> write_seq bss w = (Inr (), w\<lparr>written := written w @ concat bss\<rparr>)"
  by (induction bss arbitrary: w) (simp_all add: write_all_ideal)

end
