(* ===== verification/Wire_Cursor.thy ===== *)
theory Wire_Cursor
  imports SPX_Prelude
begin

text \<open>
  The contract of a payload cursor.  The SPX frame decoder and the QUIC-native stream header decoder
  each have a cursor type of their own over a byte slice; both promise the laws of the locale below,
  and the reading lemmas proved from the laws serve both decoders.
\<close>

text \<open>\<^verbatim>\<open>usize::MAX\<close> on the 64-bit targets the program is built for.\<close>

definition usize_max :: nat where
  "usize_max = 18446744073709551615"

definition checked_add :: "nat \<Rightarrow> nat \<Rightarrow> nat option" where
  "checked_add a b = (if a + b \<le> usize_max then Some (a + b) else None)"

text \<open>\<^verbatim>\<open>slice.get(a..b)\<close>.\<close>

definition slice_get :: "'a list \<Rightarrow> nat \<Rightarrow> nat \<Rightarrow> 'a list option" where
  "slice_get xs a b = (if a \<le> b \<and> b \<le> length xs then Some (take (b - a) (drop a xs)) else None)"

locale wire_cursor =
  fixes rest :: "'c \<Rightarrow> byte list"
    and adv :: "nat \<Rightarrow> 'c \<Rightarrow> 'c"
    and wf :: "'c \<Rightarrow> bool"
    and rd_u8 :: "'c \<Rightarrow> ('e, u8 \<times> 'c) result"
    and rd_u16 :: "'c \<Rightarrow> ('e, u16 \<times> 'c) result"
    and rd_u32 :: "'c \<Rightarrow> ('e, u32 \<times> 'c) result"
    and rd_string :: "'c \<Rightarrow> ('e, string \<times> 'c) result"
    and rd_bytes :: "nat \<Rightarrow> 'c \<Rightarrow> ('e, byte list \<times> 'c) result"
    and at_end :: "'c \<Rightarrow> ('e, unit) result"
    and truncated :: 'e
    and bad_utf8 :: 'e
  assumes adv_wf: "wf c \<Longrightarrow> n \<le> length (rest c) \<Longrightarrow> wf (adv n c)"
    and rest_adv: "rest (adv n c) = drop n (rest c)"
    and rd_u8: "wf c \<Longrightarrow>
      rd_u8 c = (case rest c of [] \<Rightarrow> Inl truncated | b # _ \<Rightarrow> Inr (b, adv 1 c))"
    and rd_bytes: "wf c \<Longrightarrow> n < 2 ^ 32 \<Longrightarrow>
      rd_bytes n c = (if n \<le> length (rest c) then Inr (take n (rest c), adv n c) else Inl truncated)"
    and rd_u16: "rd_u16 c = and_then (rd_bytes 2 c) (\<lambda>(bs, c'). Inr (u16_from_be bs, c'))"
    and rd_u32: "rd_u32 c = and_then (rd_bytes 4 c) (\<lambda>(bs, c'). Inr (u32_from_be bs, c'))"
    and rd_string: "rd_string c =
      and_then (rd_u16 c) (\<lambda>(n, c'). and_then (rd_bytes (unat n) c') (\<lambda>(bs, c'').
        and_then (ok_or bad_utf8 (from_utf8 bs)) (\<lambda>s. Inr (s, c''))))"
    and at_end: "wf c \<Longrightarrow> is_ok (at_end c) \<longleftrightarrow> rest c = []"
begin

lemma rd_u16_eq: "wf c \<Longrightarrow> rd_u16 c =
    (if 2 \<le> length (rest c) then Inr (u16_from_be (take 2 (rest c)), adv 2 c) else Inl truncated)"
  by (simp add: rd_u16 rd_bytes)

lemma rd_u32_eq: "wf c \<Longrightarrow> rd_u32 c =
    (if 4 \<le> length (rest c) then Inr (u32_from_be (take 4 (rest c)), adv 4 c) else Inl truncated)"
  by (simp add: rd_u32 rd_bytes)

lemma u16_lt_2p32: "unat (w :: u16) < 2 ^ 32"
  using unat_less [of w] by simp

text \<open>Reading a string: the length field, the bytes, the UTF-8 check.\<close>

lemma rd_string_eq:
  assumes "wf c"
  shows "rd_string c =
    (if length (rest c) < 2 then Inl truncated
     else let n = unat (u16_from_be (take 2 (rest c))) in
       if length (rest c) < 2 + n then Inl truncated
       else case from_utf8 (take n (drop 2 (rest c))) of
         None \<Rightarrow> Inl bad_utf8
       | Some s \<Rightarrow> Inr (s, adv n (adv 2 c)))"
proof (cases "length (rest c) < 2")
  case False
  have "wf (adv 2 c)"
    using assms False by (simp add: adv_wf)
  then show ?thesis
    using assms False u16_lt_2p32 [of "u16_from_be (take 2 (rest c))"]
    by (auto simp: rd_string rd_u16_eq rd_bytes rest_adv Let_def split: option.splits)
qed (simp add: rd_string rd_u16_eq assms)

lemma at_end_eq: "wf c \<Longrightarrow> at_end c = Inr () \<longleftrightarrow> rest c = []"
  using at_end [of c] by (cases "at_end c") auto

lemma rd_string_put:
  assumes "wf c" "rest c = u16_to_be (word_of_nat (length s)) @ as_bytes s @ r"
    and "str_ok s" "length s < 65536"
  shows "rd_string c = Inr (s, adv (length s) (adv 2 c))"
  using assms by (simp add: rd_string_eq unat_of_nat)

text \<open>A string that was read is valid UTF-8 and fits a length field.\<close>

lemma rd_string_Inr:
  assumes "wf c" "rd_string c = Inr (s, c')"
  shows "str_ok s" "length s < 65536" "wf c'"
    "rest c = u16_to_be (word_of_nat (length s)) @ as_bytes s @ rest c'"
proof -
  let ?w = "u16_from_be (take 2 (rest c))"
  have len: "2 \<le> length (rest c)" "unat ?w \<le> length (rest c) - 2"
    and s: "from_utf8 (take (unat ?w) (drop 2 (rest c))) = Some s"
    and c': "c' = adv (unat ?w) (adv 2 c)"
    using assms by (auto simp: rd_string_eq Let_def split: if_splits option.splits)
  have bytes: "take (unat ?w) (drop 2 (rest c)) = as_bytes s" and "str_ok s"
    using s by (auto simp: from_utf8_Some_iff)
  then show "str_ok s" by simp
  have slen: "length s = unat ?w"
    using arg_cong [OF bytes, of length] len by simp
  then show "length s < 65536"
    using unat_less [of ?w] by simp
  have wf2: "wf (adv 2 c)"
    using assms(1) len by (simp add: adv_wf)
  then show "wf c'"
    using len assms(1) by (simp add: c' adv_wf rest_adv)
  have "rest c = u16_to_be ?w @ drop 2 (rest c)"
    using len by (intro u16_field.split_field)
  also have "drop 2 (rest c) = as_bytes s @ rest c'"
    using wf2 assms(1) append_take_drop_id [of "unat ?w" "drop 2 (rest c)"]
    by (simp add: c' rest_adv bytes)
  finally show "rest c = u16_to_be (word_of_nat (length s)) @ as_bytes s @ rest c'"
    by (simp add: slen)
qed

lemma rd_u8_Inr: "wf c \<Longrightarrow> rd_u8 c = Inr (b, c') \<Longrightarrow> wf c' \<and> rest c = b # rest c'"
  by (auto simp: rd_u8 rest_adv intro!: adv_wf split: list.splits)

lemma rd_u16_Inr: "wf c \<Longrightarrow> rd_u16 c = Inr (w, c') \<Longrightarrow> wf c' \<and> rest c = u16_to_be w @ rest c'"
  using u16_field.split_field [of "rest c"] by (auto simp: rd_u16_eq adv_wf rest_adv split: if_splits)

lemma rd_u32_Inr: "wf c \<Longrightarrow> rd_u32 c = Inr (w, c') \<Longrightarrow> wf c' \<and> rest c = u32_to_be w @ rest c'"
  using u32_field.split_field [of "rest c"] by (auto simp: rd_u32_eq adv_wf rest_adv split: if_splits)

lemma rd_bytes_Inr:
  "wf c \<Longrightarrow> n < 2 ^ 32 \<Longrightarrow> rd_bytes n c = Inr (bs, c') \<Longrightarrow>
    wf c' \<and> rest c = bs @ rest c' \<and> length bs = n"
  by (auto simp: rd_bytes adv_wf rest_adv split: if_splits)

end

end
