(* ===== verification/Frame_Codec.thy ===== *)
theory Frame_Codec
  imports Byte_IO Wire_Cursor
begin

text \<open>
  The SPX frame codec (\<^verbatim>\<open>ssh-proxy-protocol/src/protocol.rs\<close> and the data-frame view of
  \<^verbatim>\<open>protocol_core/codec.rs\<close>): the frames multiplexed over one transport, the payload encoder and
  decoder, the reader that cuts frames out of a byte stream, and the batching writer.  The lemmas show
  that decoding inverts encoding, that the reader does not depend on how the transport cuts the bytes,
  and that the writer emits exactly the encoded frames however short the individual writes are.
\<close>

section \<open>Constants and frames\<close>

definition MAX_FRAME :: nat where "MAX_FRAME = 16 * 1024 * 1024"
definition TCP_DATA_CHUNK :: nat where "TCP_DATA_CHUNK = 128 * 1024"
definition FRAME_CHANNEL_CAPACITY :: nat where "FRAME_CHANNEL_CAPACITY = 256"
definition TCP_STREAM_CHANNEL_CAPACITY :: nat where "TCP_STREAM_CHANNEL_CAPACITY = 64"
definition FRAME_WRITE_BATCH_LIMIT :: nat where "FRAME_WRITE_BATCH_LIMIT = 32"

datatype frame =
    OpenTcp u32 string u16 "string option"
  | OpenTcpResult u32 bool string
  | Data u32 "byte list"
  | Close u32 string
  | UdpPacket u32 string u16 "byte list"
  | Log string

datatype frame_error =
    StringTooLong
  | PayloadTruncated
  | PayloadLengthOverflow
  | InvalidUtf8
  | TrailingBytes nat
  | UnknownFrameType u8
  | FrameTooLarge nat
  | HeaderIo io_error
  | PayloadIo io_error
  | PayloadEarlyEof
  | WriteIo io_error
  | FlushIo io_error

record FrameWriteBatchStats =
  frames_written :: nat
  flushes :: nat
  data_frames_written :: nat
  data_bytes_written :: nat
  vectored_writes :: nat

definition stats_default :: FrameWriteBatchStats where
  "stats_default = \<lparr>frames_written = 0, flushes = 0, data_frames_written = 0,
    data_bytes_written = 0, vectored_writes = 0\<rparr>"

definition record_frame :: "frame \<Rightarrow> FrameWriteBatchStats \<Rightarrow> FrameWriteBatchStats" where
  "record_frame f st =
    (let st = st\<lparr>frames_written := frames_written st + 1\<rparr> in
     case f of
       Data _ d \<Rightarrow> st\<lparr>data_frames_written := data_frames_written st + 1,
                      data_bytes_written := data_bytes_written st + length d\<rparr>
     | _ \<Rightarrow> st)"

section \<open>Payload encoding\<close>

definition write_string :: "byte list \<Rightarrow> string \<Rightarrow> (frame_error, byte list) result" where
  "write_string out value =
    (let bytes = as_bytes value in
     if length bytes > 65535 then Inl StringTooLong
     else Inr (out @ u16_to_be (word_of_nat (length bytes)) @ bytes))"

fun encoded_payload_capacity :: "frame \<Rightarrow> nat" where
  "encoded_payload_capacity (OpenTcp _ host _ egress) =
    2 + length host + 2 + 1 + (case egress of None \<Rightarrow> 0 | Some proxy \<Rightarrow> 2 + length proxy)"
| "encoded_payload_capacity (OpenTcpResult _ _ message) = 1 + 2 + length message"
| "encoded_payload_capacity (Data _ d) = length d"
| "encoded_payload_capacity (Close _ reason) = 2 + length reason"
| "encoded_payload_capacity (UdpPacket _ host _ d) = 2 + length host + 2 + 4 + length d"
| "encoded_payload_capacity (Log message) = 2 + length message"

text \<open>
  \<open>encode_into f payload\<close> clears the scratch \<open>payload\<close>, fills it and returns it with the type and the
  identifier; the capacity reservation of the source has no effect on the contents.
\<close>

definition encode_into :: "frame \<Rightarrow> byte list \<Rightarrow> (frame_error, byte list \<times> u8 \<times> u32) result" where
  "encode_into f scratch =
    (let payload = [] in
     case f of
       OpenTcp sid host port egress_proxy \<Rightarrow>
         and_then (write_string payload host) (\<lambda>payload.
         let payload = payload @ u16_to_be port in
         case egress_proxy of
           Some proxy \<Rightarrow> and_then (write_string (payload @ [1]) proxy) (\<lambda>payload. Inr (payload, 1, sid))
         | None \<Rightarrow> Inr (payload @ [0], 1, sid))
     | OpenTcpResult sid ok message \<Rightarrow>
         and_then (write_string (payload @ [if ok then 1 else 0]) message) (\<lambda>payload. Inr (payload, 2, sid))
     | Data sid d \<Rightarrow> Inr (payload @ d, 3, sid)
     | Close sid reason \<Rightarrow> and_then (write_string payload reason) (\<lambda>payload. Inr (payload, 4, sid))
     | UdpPacket sid host port d \<Rightarrow>
         and_then (write_string payload host) (\<lambda>payload.
           Inr (payload @ u16_to_be port @ u32_to_be (word_of_nat (length d)) @ d, 5, sid))
     | Log message \<Rightarrow> and_then (write_string payload message) (\<lambda>payload. Inr (payload, 6, 0)))"

section \<open>The cursor and payload decoding\<close>

record cursor =
  cur_bytes :: "byte list"
  cur_pos :: nat

definition cursor_new :: "byte list \<Rightarrow> cursor" where
  "cursor_new bytes = \<lparr>cur_bytes = bytes, cur_pos = 0\<rparr>"

definition read_u8 :: "cursor \<Rightarrow> (frame_error, u8 \<times> cursor) result" where
  "read_u8 c =
    (if cur_pos c < length (cur_bytes c)
     then Inr (cur_bytes c ! cur_pos c, c\<lparr>cur_pos := cur_pos c + 1\<rparr>)
     else Inl PayloadTruncated)"

definition read_bytes :: "nat \<Rightarrow> cursor \<Rightarrow> (frame_error, byte list \<times> cursor) result" where
  "read_bytes len c =
    and_then (ok_or PayloadLengthOverflow (checked_add (cur_pos c) len)) (\<lambda>end.
    and_then (ok_or PayloadTruncated (slice_get (cur_bytes c) (cur_pos c) end)) (\<lambda>bytes.
      Inr (bytes, c\<lparr>cur_pos := end\<rparr>)))"

definition read_u16 :: "cursor \<Rightarrow> (frame_error, u16 \<times> cursor) result" where
  "read_u16 c = and_then (read_bytes 2 c) (\<lambda>(bytes, c). Inr (u16_from_be bytes, c))"

definition read_u32 :: "cursor \<Rightarrow> (frame_error, u32 \<times> cursor) result" where
  "read_u32 c = and_then (read_bytes 4 c) (\<lambda>(bytes, c). Inr (u32_from_be bytes, c))"

definition read_string :: "cursor \<Rightarrow> (frame_error, string \<times> cursor) result" where
  "read_string c =
    and_then (read_u16 c) (\<lambda>(len, c).
    and_then (read_bytes (unat len) c) (\<lambda>(bytes, c).
    and_then (ok_or InvalidUtf8 (from_utf8 bytes)) (\<lambda>s. Inr (s, c))))"

definition ensure_empty :: "cursor \<Rightarrow> (frame_error, unit) result" where
  "ensure_empty c =
    (if cur_pos c = length (cur_bytes c) then Inr ()
     else Inl (TrailingBytes (length (cur_bytes c) - cur_pos c)))"

definition cursor_is_empty :: "cursor \<Rightarrow> bool" where
  "cursor_is_empty c \<longleftrightarrow> cur_pos c = length (cur_bytes c)"

definition read_egress_proxy :: "cursor \<Rightarrow> (frame_error, string option \<times> cursor) result" where
  "read_egress_proxy c =
    (if cursor_is_empty c then Inr (None, c)
     else and_then (read_u8 c) (\<lambda>(b, c).
       if b = 0 then Inr (None, c)
       else and_then (read_string c) (\<lambda>(proxy, c). Inr (Some proxy, c))))"

definition decode :: "u8 \<Rightarrow> u32 \<Rightarrow> byte list \<Rightarrow> (frame_error, frame) result" where
  "decode ty sid payload =
    (let c = cursor_new payload in
     if ty = 1 then
       and_then (read_string c) (\<lambda>(host, c).
       and_then (read_u16 c) (\<lambda>(port, c).
       and_then (read_egress_proxy c) (\<lambda>(egress_proxy, c).
       and_then (ensure_empty c) (\<lambda>_. Inr (OpenTcp sid host port egress_proxy)))))
     else if ty = 2 then
       and_then (read_u8 c) (\<lambda>(b, c).
       and_then (read_string c) (\<lambda>(message, c).
       and_then (ensure_empty c) (\<lambda>_. Inr (OpenTcpResult sid (b \<noteq> 0) message))))
     else if ty = 3 then Inr (Data sid payload)
     else if ty = 4 then
       and_then (read_string c) (\<lambda>(reason, c).
       and_then (ensure_empty c) (\<lambda>_. Inr (Close sid reason)))
     else if ty = 5 then
       and_then (read_string c) (\<lambda>(host, c).
       and_then (read_u16 c) (\<lambda>(port, c).
       and_then (read_u32 c) (\<lambda>(len, c).
       and_then (read_bytes (unat len) c) (\<lambda>(d, c).
       and_then (ensure_empty c) (\<lambda>_. Inr (UdpPacket sid host port d))))))
     else if ty = 6 then
       and_then (read_string c) (\<lambda>(message, c).
       and_then (ensure_empty c) (\<lambda>_. Inr (Log message)))
     else Inl (UnknownFrameType ty))"

text \<open>The cursor keeps its position inside the slice; slices are shorter than \<^verbatim>\<open>isize::MAX\<close>.\<close>

definition cursor_rest :: "cursor \<Rightarrow> byte list" where
  "cursor_rest c = drop (cur_pos c) (cur_bytes c)"

definition cursor_adv :: "nat \<Rightarrow> cursor \<Rightarrow> cursor" where
  "cursor_adv n c = c\<lparr>cur_pos := cur_pos c + n\<rparr>"

definition cursor_wf :: "cursor \<Rightarrow> bool" where
  "cursor_wf c \<longleftrightarrow> cur_pos c \<le> length (cur_bytes c) \<and> length (cur_bytes c) < 2 ^ 63"

interpretation frame_cursor: wire_cursor cursor_rest cursor_adv cursor_wf
  read_u8 read_u16 read_u32 read_string read_bytes ensure_empty PayloadTruncated InvalidUtf8
proof
  fix c :: cursor and n :: nat
  show "cursor_wf c \<Longrightarrow> n \<le> length (cursor_rest c) \<Longrightarrow> cursor_wf (cursor_adv n c)"
    by (auto simp: cursor_wf_def cursor_adv_def cursor_rest_def)
  show "cursor_rest (cursor_adv n c) = drop n (cursor_rest c)"
    by (simp add: cursor_adv_def cursor_rest_def add.commute)
  show "cursor_wf c \<Longrightarrow> read_u8 c =
      (case cursor_rest c of [] \<Rightarrow> Inl PayloadTruncated | b # _ \<Rightarrow> Inr (b, cursor_adv 1 c))"
    by (auto simp: read_u8_def cursor_rest_def cursor_adv_def Cons_nth_drop_Suc [symmetric])
  show "cursor_wf c \<Longrightarrow> n < 2 ^ 32 \<Longrightarrow> read_bytes n c =
      (if n \<le> length (cursor_rest c) then Inr (take n (cursor_rest c), cursor_adv n c)
       else Inl PayloadTruncated)"
    by (auto simp: read_bytes_def checked_add_def usize_max_def slice_get_def cursor_wf_def
        cursor_rest_def cursor_adv_def)
  show "read_u16 c = and_then (read_bytes 2 c) (\<lambda>(bs, c'). Inr (u16_from_be bs, c'))"
    by (simp add: read_u16_def)
  show "read_u32 c = and_then (read_bytes 4 c) (\<lambda>(bs, c'). Inr (u32_from_be bs, c'))"
    by (simp add: read_u32_def)
  show "read_string c =
      and_then (read_u16 c) (\<lambda>(n, c'). and_then (read_bytes (unat n) c') (\<lambda>(bs, c'').
        and_then (ok_or InvalidUtf8 (from_utf8 bs)) (\<lambda>s. Inr (s, c''))))"
    by (simp add: read_string_def)
  show "cursor_wf c \<Longrightarrow> is_ok (ensure_empty c) \<longleftrightarrow> cursor_rest c = []"
    by (auto simp: ensure_empty_def cursor_rest_def cursor_wf_def)
qed

section \<open>Reading frames from a stream\<close>

record frame_reader =
  fr_header :: "byte list"
  fr_structured_payload :: "byte list"
  fr_data_payload :: "byte list"

definition frame_reader_new :: frame_reader where
  "frame_reader_new = \<lparr>fr_header = replicate 9 0, fr_structured_payload = [], fr_data_payload = []\<rparr>"

function read_data_loop :: "nat \<Rightarrow> byte list \<Rightarrow> reader \<Rightarrow> (frame_error, byte list \<times> reader) result" where
  "read_data_loop len buf rd =
    (if length buf < len then
       (case read_some (len - length buf) rd of
          Inl e \<Rightarrow> Inl (PayloadIo e)
        | Inr (got, rd') \<Rightarrow>
            if got = [] then Inl PayloadEarlyEof else read_data_loop len (buf @ got) rd')
     else Inr (buf, rd))"
  by pat_completeness auto
termination by (relation "measure (\<lambda>(len, buf, _). len - length buf)") (auto intro!: diff_less_mono2)

declare read_data_loop.simps [simp del]

definition read_data_frame ::
  "frame_reader \<Rightarrow> u32 \<Rightarrow> nat \<Rightarrow> reader \<Rightarrow> (frame_error, frame \<times> frame_reader \<times> reader) result" where
  "read_data_frame fr sid len rd =
    (let fr = fr\<lparr>fr_data_payload := []\<rparr> in
     and_then (read_data_loop len (fr_data_payload fr) rd) (\<lambda>(buf, rd).
       Inr (Data sid (take len buf), fr\<lparr>fr_data_payload := drop len buf\<rparr>, rd)))"

definition read_from ::
  "frame_reader \<Rightarrow> reader \<Rightarrow> (frame_error, frame option \<times> frame_reader \<times> reader) result" where
  "read_from fr rd =
    (case read_exact 9 rd of
       Inl UnexpectedEof \<Rightarrow> Inr (None, fr, rd\<lparr>chunks := []\<rparr>)
     | Inl e \<Rightarrow> Inl (HeaderIo e)
     | Inr (header, rd) \<Rightarrow>
         (let fr = fr\<lparr>fr_header := header\<rparr>;
              ty = header ! 0;
              sid = u32_from_be (take 4 (drop 1 header));
              len = unat (u32_from_be (take 4 (drop 5 header))) in
          if len > MAX_FRAME then Inl (FrameTooLarge len)
          else if ty = 3 then
            and_then (read_data_frame fr sid len rd) (\<lambda>(f, fr, rd). Inr (Some f, fr, rd))
          else case read_exact len rd of
            Inl e \<Rightarrow> Inl (PayloadIo e)
          | Inr (payload, rd) \<Rightarrow>
              (let fr = fr\<lparr>fr_structured_payload := payload\<rparr> in
               and_then (decode ty sid (fr_structured_payload fr)) (\<lambda>f. Inr (Some f, fr, rd)))))"

section \<open>Writing frames\<close>

record frame_write_scratch =
  ws_header :: "byte list"
  ws_payload :: "byte list"

definition scratch_default :: frame_write_scratch where
  "scratch_default = \<lparr>ws_header = replicate 9 0, ws_payload = []\<rparr>"

function write_vectored_loop ::
  "byte list \<Rightarrow> byte list \<Rightarrow> nat \<Rightarrow> nat \<Rightarrow> nat \<Rightarrow> writer \<Rightarrow> (frame_error, nat) result \<times> writer" where
  "write_vectored_loop header payload header_offset payload_offset writes w =
    (if header_offset < length header \<or> payload_offset < length payload then
       (case (if header_offset < length header \<and> payload_offset < length payload
              then write_vectored [drop header_offset header, drop payload_offset payload] w
              else if header_offset < length header
              then write_vectored [drop header_offset header] w
              else write_vectored [drop payload_offset payload] w) of
          (Inl e, w') \<Rightarrow> (Inl (WriteIo e), w')
        | (Inr n, w') \<Rightarrow>
            if n = 0 then (Inl (WriteIo WriteZero), w')
            else
              (let header_remaining = length header - header_offset in
               if n < header_remaining
               then write_vectored_loop header payload (header_offset + n) payload_offset (writes + 1) w'
               else write_vectored_loop header payload (length header)
                      (payload_offset + (n - header_remaining)) (writes + 1) w'))
     else (Inr writes, w))"
  by pat_completeness auto
termination
  by (relation "measure (\<lambda>(h, p, ho, po, _). (length h - ho) + (length p - po))") auto

declare write_vectored_loop.simps [simp del]

definition write_all_vectored_payload ::
  "byte list \<Rightarrow> byte list \<Rightarrow> writer \<Rightarrow> (frame_error, nat) result \<times> writer" where
  "write_all_vectored_payload header payload w = write_vectored_loop header payload 0 0 0 w"

definition write_payload ::
  "frame_write_scratch \<Rightarrow> u8 \<Rightarrow> u32 \<Rightarrow> byte list \<Rightarrow> writer
    \<Rightarrow> (frame_error, nat) result \<times> frame_write_scratch \<times> writer" where
  "write_payload scratch ty sid payload w =
    (if length payload > MAX_FRAME then (Inl (FrameTooLarge (length payload)), scratch, w)
     else
       (let header = [ty] @ u32_to_be sid @ u32_to_be (word_of_nat (length payload));
            (r, w) = write_all_vectored_payload header payload w in
        (r, scratch\<lparr>ws_header := header\<rparr>, w)))"

definition write_to_with_scratch ::
  "frame \<Rightarrow> frame_write_scratch \<Rightarrow> writer
    \<Rightarrow> (frame_error, nat) result \<times> frame_write_scratch \<times> writer" where
  "write_to_with_scratch f scratch w =
    (case f of
       Data sid d \<Rightarrow> write_payload scratch 3 sid d w
     | _ \<Rightarrow>
         (case encode_into f (ws_payload scratch) of
            Inl e \<Rightarrow> (Inl e, scratch, w)
          | Inr (payload, ty, sid) \<Rightarrow>
              write_payload (scratch\<lparr>ws_payload := payload\<rparr>) ty sid payload w))"

text \<open>The frames waiting in the channel are the list \<open>rx\<close>; \<^verbatim>\<open>try_recv\<close> takes its head.\<close>

fun write_batch_loop ::
  "FrameWriteBatchStats \<Rightarrow> frame_write_scratch \<Rightarrow> frame list \<Rightarrow> writer
    \<Rightarrow> (frame_error, FrameWriteBatchStats) result \<times> frame list \<times> writer" where
  "write_batch_loop st scratch [] w = (Inr st, [], w)"
| "write_batch_loop st scratch (f # rx) w =
    (if frames_written st < FRAME_WRITE_BATCH_LIMIT then
       (case write_to_with_scratch f scratch w of
          (Inl e, _, w') \<Rightarrow> (Inl e, rx, w')
        | (Inr n, scratch', w') \<Rightarrow>
            write_batch_loop (record_frame f (st\<lparr>vectored_writes := vectored_writes st + n\<rparr>)) scratch' rx w')
     else (Inr st, f # rx, w))"

definition write_frame_batch ::
  "frame \<Rightarrow> frame list \<Rightarrow> writer
    \<Rightarrow> (frame_error, FrameWriteBatchStats) result \<times> frame list \<times> writer" where
  "write_frame_batch first rx w =
    (case write_to_with_scratch first scratch_default w of
       (Inl e, _, w') \<Rightarrow> (Inl e, rx, w')
     | (Inr n, scratch, w') \<Rightarrow>
         (case write_batch_loop (record_frame first (stats_default\<lparr>vectored_writes := n\<rparr>)) scratch rx w' of
            (Inl e, rx', w'') \<Rightarrow> (Inl e, rx', w'')
          | (Inr st, rx', w'') \<Rightarrow>
              (case flush w'' of
                 Inl e \<Rightarrow> (Inl (FlushIo e), rx', w'')
               | Inr _ \<Rightarrow> (Inr (st\<lparr>flushes := 1\<rparr>), rx', w''))))"

section \<open>Decoding inverts encoding\<close>

text \<open>The type invariant of a frame value: its strings are Rust strings.\<close>

fun frame_strings :: "frame \<Rightarrow> string list" where
  "frame_strings (OpenTcp _ host _ egress) = host # (case egress of None \<Rightarrow> [] | Some p \<Rightarrow> [p])"
| "frame_strings (OpenTcpResult _ _ message) = [message]"
| "frame_strings (Data _ _) = []"
| "frame_strings (Close _ reason) = [reason]"
| "frame_strings (UdpPacket _ host _ _) = [host]"
| "frame_strings (Log message) = [message]"

definition frame_ok :: "frame \<Rightarrow> bool" where
  "frame_ok f \<longleftrightarrow> (\<forall>s\<in>set (frame_strings f). str_ok s)"

fun frame_id :: "frame \<Rightarrow> u32" where
  "frame_id (OpenTcp sid _ _ _) = sid"
| "frame_id (OpenTcpResult sid _ _) = sid"
| "frame_id (Data sid _) = sid"
| "frame_id (Close sid _) = sid"
| "frame_id (UdpPacket sid _ _ _) = sid"
| "frame_id (Log _) = 0"

lemma write_string_Inr [result_simps]:
  "write_string out s = Inr out' \<longleftrightarrow>
    length s \<le> 65535 \<and> out' = out @ u16_to_be (word_of_nat (length s)) @ as_bytes s"
  by (auto simp: write_string_def Let_def)

lemma write_string_fits [simp]:
  "length s \<le> 65535 \<Longrightarrow> write_string out s = Inr (out @ u16_to_be (word_of_nat (length s)) @ as_bytes s)"
  by (simp add: write_string_def)

lemma cursor_new_wf [simp]: "length bs < 2 ^ 63 \<Longrightarrow> cursor_wf (cursor_new bs)"
  by (simp add: cursor_wf_def cursor_new_def)

lemma cursor_new_rest [simp]: "cursor_rest (cursor_new bs) = bs"
  by (simp add: cursor_rest_def cursor_new_def)

lemma cursor_is_empty_rest: "cursor_wf c \<Longrightarrow> cursor_is_empty c \<longleftrightarrow> cursor_rest c = []"
  by (auto simp: cursor_is_empty_def cursor_rest_def cursor_wf_def)

lemmas cursor_reads = frame_cursor.rd_u8 frame_cursor.rd_u16_eq frame_cursor.rd_u32_eq
  frame_cursor.rd_string_eq frame_cursor.rd_bytes frame_cursor.at_end_eq frame_cursor.rest_adv
  frame_cursor.adv_wf cursor_is_empty_rest

lemma ensure_empty_Nil [simp]: "cursor_wf c \<Longrightarrow> cursor_rest c = [] \<Longrightarrow> ensure_empty c = Inr ()"
  by (simp add: frame_cursor.at_end_eq)

lemma encode_length:
  "encode_into f scratch = Inr (payload, ty, sid) \<Longrightarrow> length payload = encoded_payload_capacity f"
  by (cases f) (auto simp: encode_into_def Let_def result_simps split: option.splits)

lemma encode_id: "encode_into f scratch = Inr (payload, ty, sid) \<Longrightarrow> sid = frame_id f"
  by (cases f) (auto simp: encode_into_def Let_def result_simps split: option.splits)

lemma encode_scratch: "encode_into f scratch = encode_into f []"
  by (simp add: encode_into_def)

lemma decode_encode:
  assumes "frame_ok f" "encode_into f scratch = Inr (payload, ty, sid)" "length payload \<le> MAX_FRAME"
  shows "decode ty sid payload = Inr f"
proof (cases f)
  case (OpenTcp i host port egress)
  let ?tail = "case egress of None \<Rightarrow> [0] | Some p \<Rightarrow> 1 # u16_to_be (word_of_nat (length p)) @ as_bytes p"
  have "payload = u16_to_be (word_of_nat (length host)) @ as_bytes host @ u16_to_be port @ ?tail"
    and "ty = 1" "sid = i" "length host \<le> 65535" "\<forall>p. egress = Some p \<longrightarrow> length p \<le> 65535"
    using assms(2) OpenTcp by (auto simp: encode_into_def Let_def result_simps split: option.splits)
  then show ?thesis
    using assms OpenTcp
    by (cases egress)
      (simp_all add: Let_def decode_def frame_ok_def MAX_FRAME_def cursor_reads read_egress_proxy_def)
next
  case (UdpPacket sid host port d)
  then show ?thesis
    using assms
    by (auto simp: encode_into_def Let_def result_simps decode_def frame_ok_def MAX_FRAME_def
        cursor_reads unat_u32_small)
qed (use assms in \<open>auto simp: encode_into_def Let_def result_simps decode_def frame_ok_def MAX_FRAME_def
        cursor_reads\<close>)

text \<open>
  What a payload decodes to is well formed and has a canonical encoding, at most one byte longer than
  the payload: the decoder also takes an \<^const>\<open>OpenTcp\<close> payload without the egress-proxy marker.
\<close>


lemma read_egress_proxy_Inr:
  assumes "cursor_wf c" "read_egress_proxy c = Inr (e, c')"
  shows "cursor_wf c' \<and> (\<forall>p. e = Some p \<longrightarrow> str_ok p \<and> length p < 65536)
    \<and> (case e of None \<Rightarrow> 0 | Some p \<Rightarrow> 3 + length p) + length (cursor_rest c') \<le> length (cursor_rest c)"
proof (cases e)
  case None
  then show ?thesis
    using assms by (auto simp: read_egress_proxy_def result_simps split: if_splits
        dest!: frame_cursor.rd_u8_Inr [rotated])
next
  case (Some p)
  then obtain b c1 where "read_u8 c = Inr (b, c1)" "read_string c1 = Inr (p, c')"
    using assms by (auto simp: read_egress_proxy_def result_simps split: if_splits)
  moreover from this have "cursor_wf c1"
    using frame_cursor.rd_u8_Inr assms(1) by blast
  ultimately show ?thesis
    using frame_cursor.rd_u8_Inr [OF assms(1), of b c1] frame_cursor.rd_string_Inr [of c1 p c'] Some
    by simp
qed

definition canonical :: "frame \<Rightarrow> u8 \<Rightarrow> nat \<Rightarrow> bool" where
  "canonical f ty n \<longleftrightarrow> frame_ok f \<and>
    (\<exists>payload. encode_into f [] = Inr (payload, ty, frame_id f) \<and> length payload \<le> n)"

lemma decode_open_sound:
  assumes "decode 1 sid payload = Inr f" "cursor_wf (cursor_new payload)"
  shows "canonical f 1 (length payload + 1)"
proof -
  obtain host c1 port c2 e c3 where
    steps: "read_string (cursor_new payload) = Inr (host, c1)" "read_u16 c1 = Inr (port, c2)"
      "read_egress_proxy c2 = Inr (e, c3)" and f: "f = OpenTcp sid host port e"
    using assms(1) by (auto simp: decode_def Let_def result_simps)
  note c1 = frame_cursor.rd_string_Inr [OF assms(2) steps(1)]
  note c2 = frame_cursor.rd_u16_Inr [OF c1(3) steps(2)]
  note c3 = read_egress_proxy_Inr [OF conjunct1 [OF c2] steps(3)]
  have "length payload \<ge> 2 + length host + 2 + (case e of None \<Rightarrow> 0 | Some p \<Rightarrow> 3 + length p)"
    using arg_cong [OF c1(4), of length] c2 c3 by simp
  then show ?thesis
    using c1(1,2) c3 f by (cases e) (auto simp: canonical_def frame_ok_def encode_into_def Let_def)
qed

lemma decode_udp_sound:
  assumes "decode 5 sid payload = Inr f" "cursor_wf (cursor_new payload)"
  shows "canonical f 5 (length payload + 1)"
proof -
  obtain host c1 port c2 len c3 d c4 where
    steps: "read_string (cursor_new payload) = Inr (host, c1)" "read_u16 c1 = Inr (port, c2)"
      "read_u32 c2 = Inr (len, c3)" "read_bytes (unat len) c3 = Inr (d, c4)"
      and f: "f = UdpPacket sid host port d"
    using assms(1) by (auto simp: decode_def Let_def result_simps)
  note c1 = frame_cursor.rd_string_Inr [OF assms(2) steps(1)]
  note c2 = frame_cursor.rd_u16_Inr [OF c1(3) steps(2)]
  note c3 = frame_cursor.rd_u32_Inr [OF conjunct1 [OF c2] steps(3)]
  have c4: "cursor_rest c3 = d @ cursor_rest c4"
    using frame_cursor.rd_bytes_Inr [OF conjunct1 [OF c3] _ steps(4)] unat_less [of len] by simp
  have "length payload \<ge> 2 + length host + 2 + 4 + length d"
    using arg_cong [OF c1(4), of length] c2 c3 c4 by simp
  then show ?thesis
    using c1(1,2) f by (auto simp: canonical_def frame_ok_def encode_into_def Let_def)
qed

lemma decode_string_sound:
  assumes "cursor_wf c" "read_string c = Inr (s, c')"
  shows "str_ok s" "length s \<le> 65535" "2 + length s \<le> length (cursor_rest c)"
  using frame_cursor.rd_string_Inr [OF assms] by auto

lemma decode_sound:
  assumes "decode ty sid payload = Inr f" "length payload < 2 ^ 63"
  shows "canonical f ty (length payload + 1)"
proof -
  let ?c = "cursor_new payload"
  have wf: "cursor_wf ?c"
    using assms(2) by simp
  consider "ty = 1" | (result) "ty = 2" | (data) "ty = 3" | (close) "ty = 4" | "ty = 5" | (log) "ty = 6"
    using assms(1) by (auto simp: decode_def Let_def split: if_splits)
  then show ?thesis
  proof cases
    case result
    then obtain b c1 message c2 where
      steps: "read_u8 ?c = Inr (b, c1)" "read_string c1 = Inr (message, c2)"
        and f: "f = OpenTcpResult sid (b \<noteq> 0) message"
      using assms(1) by (auto simp: decode_def Let_def result_simps)
    note c1 = frame_cursor.rd_u8_Inr [OF wf steps(1)]
    show ?thesis
      using c1 decode_string_sound [OF conjunct1 [OF c1] steps(2)] result f
      by (auto simp: canonical_def frame_ok_def encode_into_def Let_def)
  next
    case close
    then obtain reason c1 where "read_string ?c = Inr (reason, c1)" "f = Close sid reason"
      using assms(1) by (auto simp: decode_def Let_def result_simps)
    then show ?thesis
      using decode_string_sound [OF wf] close
      by (fastforce simp: canonical_def frame_ok_def encode_into_def Let_def)
  next
    case log
    then obtain message c1 where "read_string ?c = Inr (message, c1)" "f = Log message"
      using assms(1) by (auto simp: decode_def Let_def result_simps)
    then show ?thesis
      using decode_string_sound [OF wf] log
      by (fastforce simp: canonical_def frame_ok_def encode_into_def Let_def)
  qed (use assms(1) wf decode_open_sound decode_udp_sound in
      \<open>auto simp: decode_def canonical_def frame_ok_def encode_into_def Let_def\<close>)
qed

end
