(* ===== verification/Frame_Stream.thy ===== *)
theory Frame_Stream
  imports Frame_Codec
begin

text \<open>
  Frames over byte streams: the incremental reader refines a parser of the whole stream, and the batch writer
  (\<^verbatim>\<open>ssh-proxy-protocol/src/protocol.rs\<close>, \<^verbatim>\<open>protocol_core/codec.rs\<close>) is its inverse over any transport.
\<close>

section \<open>The reader refines a parser of the whole byte stream\<close>

text \<open>The abstract reader: what the next frame of a byte sequence is, and what is left of it.\<close>

definition parse_stream :: "bool \<Rightarrow> byte list \<Rightarrow> (frame_error, frame option \<times> byte list) result" where
  "parse_stream flt bs =
    (if length bs < 9 then (if flt then Inl (HeaderIo IoFault) else Inr (None, []))
     else
       (let len = unat (u32_from_be (take 4 (drop 5 bs))) in
        if len > MAX_FRAME then Inl (FrameTooLarge len)
        else if length bs < 9 + len then
          Inl (if flt then PayloadIo IoFault
               else if hd bs = 3 then PayloadEarlyEof else PayloadIo UnexpectedEof)
        else and_then (decode (hd bs) (u32_from_be (take 4 (drop 1 bs))) (take len (drop 9 bs)))
          (\<lambda>f. Inr (Some f, drop (9 + len) bs))))"

lemma read_data_loop_step:
  "length buf < len \<Longrightarrow> read_some (len - length buf) rd = Inr (got, rd') \<Longrightarrow> got \<noteq> [] \<Longrightarrow>
    read_data_loop len buf rd = read_data_loop len (buf @ got) rd'"
  by (subst read_data_loop.simps) simp

lemma read_data_loop_fail:
  "length buf < len \<Longrightarrow> read_some (len - length buf) rd = Inl e \<Longrightarrow>
    read_data_loop len buf rd = Inl (PayloadIo e)"
  "length buf < len \<Longrightarrow> read_some (len - length buf) rd = Inr ([], rd') \<Longrightarrow>
    read_data_loop len buf rd = Inl PayloadEarlyEof"
  by (subst read_data_loop.simps; simp)+

lemma read_data_loop_done: "\<not> length buf < len \<Longrightarrow> read_data_loop len buf rd = Inr (buf, rd)"
  by (subst read_data_loop.simps) simp

lemma read_data_loop_enough:
  "length buf \<le> len \<Longrightarrow> len - length buf \<le> length (flat rd) \<Longrightarrow>
    \<exists>rd'. read_data_loop len buf rd = Inr (buf @ take (len - length buf) (flat rd), rd')
      \<and> flat rd' = drop (len - length buf) (flat rd) \<and> fault rd' = fault rd"
proof (induction len buf rd rule: read_data_loop.induct)
  case (1 len buf rd)
  show ?case
  proof (cases "length buf < len")
    case True
    show ?thesis
    proof (cases rule: read_some_cases [of rd "len - length buf"])
      case (got c rd')
      let ?got = "take (len - length buf) c"
      have ne: "?got \<noteq> []"
        using got(1) True by simp
      have "\<exists>rd''. read_data_loop len (buf @ ?got) rd' =
            Inr ((buf @ ?got) @ take (len - length (buf @ ?got)) (flat rd'), rd'')
          \<and> flat rd'' = drop (len - length (buf @ ?got)) (flat rd') \<and> fault rd'' = fault rd'"
        using "1.IH" [OF True got(2) refl ne] "1.prems" got(3) by auto
      then show ?thesis
        using read_data_loop_step [OF True got(2) ne] got(3,4) by (auto simp: min_def split: if_splits)
    qed (use "1.prems" True in auto)
  qed (use "1.prems" in \<open>simp add: read_data_loop_done\<close>)
qed

lemma read_data_loop_short:
  "length buf < len \<Longrightarrow> length (flat rd) < len - length buf \<Longrightarrow>
    read_data_loop len buf rd = Inl (if fault rd then PayloadIo IoFault else PayloadEarlyEof)"
proof (induction len buf rd rule: read_data_loop.induct)
  case (1 len buf rd)
  show ?case
  proof (cases rule: read_some_cases [of rd "len - length buf"])
    case (got c rd')
    let ?got = "take (len - length buf) c"
    have ne: "?got \<noteq> []"
      using got(1) "1.prems" by simp
    have "length (buf @ ?got) < len" "length (flat rd') < len - length (buf @ ?got)"
      using "1.prems" got(3) by (auto simp: min_def split: if_splits)
    then show ?thesis
      using "1.IH" [OF "1.prems"(1) got(2) refl ne] read_data_loop_step [OF "1.prems"(1) got(2) ne] got(4)
      by simp
  qed (use "1.prems" in \<open>auto simp: read_data_loop_fail\<close>)
qed

lemma read_data_frame_refines:
  "map_sum id (\<lambda>(f, _, rd'). (f, flat rd', fault rd')) (read_data_frame fr sid len rd) =
    (if length (flat rd) < len then Inl (if fault rd then PayloadIo IoFault else PayloadEarlyEof)
     else Inr (Data sid (take len (flat rd)), drop len (flat rd), fault rd))"
proof (cases "length (flat rd) < len")
  case True
  then show ?thesis
    using read_data_loop_short [of "[]" len rd] by (simp add: read_data_frame_def)
next
  case False
  then show ?thesis
    using read_data_loop_enough [of "[]" len rd] by (auto simp: read_data_frame_def)
qed

text \<open>Once the nine header bytes are there, what the reader does with the rest of the stream.\<close>

lemma header_fields:
  assumes "9 \<le> length bs"
  shows "take 9 bs ! 0 = hd bs" "take 4 (drop 1 (take 9 bs)) = take 4 (drop 1 bs)"
    "take 4 (drop 5 (take 9 bs)) = take 4 (drop 5 bs)"
  using assms by (cases bs; simp add: drop_take)+

lemma read_from_header:
  assumes "read_exact 9 rd = Inr (take 9 bs, rd1)" "9 \<le> length bs"
  shows "read_from fr rd =
    (let fr1 = fr\<lparr>fr_header := take 9 bs\<rparr>; sid = u32_from_be (take 4 (drop 1 bs));
         len = unat (u32_from_be (take 4 (drop 5 bs))) in
     if len > MAX_FRAME then Inl (FrameTooLarge len)
     else if hd bs = 3 then and_then (read_data_frame fr1 sid len rd1) (\<lambda>(f, fr, rd). Inr (Some f, fr, rd))
     else case read_exact len rd1 of
       Inl e \<Rightarrow> Inl (PayloadIo e)
     | Inr (payload, rd2) \<Rightarrow>
         and_then (decode (hd bs) sid payload) (\<lambda>f. Inr (Some f, fr1\<lparr>fr_structured_payload := payload\<rparr>, rd2)))"
  unfolding read_from_def assms(1) sum.case prod.case Let_def header_fields [OF assms(2)]
  by (auto split: sum.splits)

lemma map_sum_and_then: "map_sum id g (and_then r k) = and_then r (\<lambda>x. map_sum id g (k x))"
  by (cases r) auto

lemma read_from_refines_parse:
  "map_sum id (\<lambda>(f, _, rd'). (f, flat rd')) (read_from fr rd) = parse_stream (fault rd) (flat rd)"
proof (cases "length (flat rd) < 9")
  case True
  then show ?thesis
    by (auto simp: read_from_def read_exact_short parse_stream_def flat_def)
next
  case False
  then obtain rd1 where rd1: "read_exact 9 rd = Inr (take 9 (flat rd), rd1)"
      "flat rd1 = drop 9 (flat rd)" "fault rd1 = fault rd"
    using read_exact_enough [of 9 rd] by auto
  let ?len = "unat (u32_from_be (take 4 (drop 5 (flat rd))))"
  let ?sid = "u32_from_be (take 4 (drop 1 (flat rd)))"
  let ?fr = "fr\<lparr>fr_header := take 9 (flat rd)\<rparr>"
  show ?thesis
  proof (cases "hd (flat rd) = 3")
    case True
    have "map_sum id (\<lambda>(f, _, rd'). (f, flat rd')) (and_then (read_data_frame ?fr ?sid ?len rd1)
        (\<lambda>(f, fr, rd). Inr (Some f, fr, rd))) =
        (if length (flat rd) < 9 + ?len then Inl (if fault rd1 then PayloadIo IoFault else PayloadEarlyEof)
         else Inr (Some (Data ?sid (take ?len (flat rd1))), drop ?len (flat rd1)))"
      using read_data_frame_refines [of ?fr ?sid ?len rd1] rd1(2) False
      by (cases "read_data_frame ?fr ?sid ?len rd1") (auto split: if_splits)
    then show ?thesis
      using True False rd1(2,3)
      by (simp add: read_from_header [OF rd1(1)] parse_stream_def Let_def decode_def add.commute)
  next
    case notdata: False
    show ?thesis
    proof (cases "length (flat rd1) < ?len")
      case True
      then have "length (flat rd) < 9 + ?len"
        using rd1(2) False by simp
      then show ?thesis
        using False notdata rd1(2,3) read_exact_short [OF True]
        by (simp add: read_from_header [OF rd1(1)] parse_stream_def Let_def)
    next
      case enough: False
      then have "\<not> length (flat rd) < 9 + ?len"
        using rd1(2) False by simp
      moreover obtain rd2 where "read_exact ?len rd1 = Inr (take ?len (flat rd1), rd2)"
          "flat rd2 = drop ?len (flat rd1)"
        using read_exact_enough [of ?len rd1] enough by auto
      ultimately show ?thesis
        using False enough notdata rd1(2,3)
        by (simp add: read_from_header [OF rd1(1)] parse_stream_def Let_def map_sum_and_then add.commute)
    qed
  qed
qed

section \<open>The vectored write loop writes header and payload exactly once\<close>

text \<open>The loop on the bytes still to be written, without the two offsets.\<close>

function write_remaining :: "byte list \<Rightarrow> nat \<Rightarrow> writer \<Rightarrow> (frame_error, nat) result \<times> writer" where
  "write_remaining bs writes w =
    (if bs = [] then (Inr writes, w)
     else case write_vectored [bs] w of
       (Inl e, w') \<Rightarrow> (Inl (WriteIo e), w')
     | (Inr n, w') \<Rightarrow>
         if n = 0 then (Inl (WriteIo WriteZero), w') else write_remaining (drop n bs) (writes + 1) w')"
  by pat_completeness auto
termination by (relation "measure (length o fst)") auto

declare write_remaining.simps [simp del]

lemma write_vectored_slices: "concat ss = bs \<Longrightarrow> write_vectored ss w = write_vectored [bs] w"
  by (simp add: write_vectored_def)

lemma write_vectored_loop_refines:
  "ho \<le> length h \<Longrightarrow> po \<le> length p \<Longrightarrow>
    write_vectored_loop h p ho po k w = write_remaining (drop ho h @ drop po p) k w"
proof (induction h p ho po k w rule: write_vectored_loop.induct)
  case (1 h p ho po k w)
  let ?bs = "drop ho h @ drop po p"
  let ?io = "if ho < length h \<and> po < length p then write_vectored [drop ho h, drop po p] w
    else if ho < length h then write_vectored [drop ho h] w else write_vectored [drop po p] w"
  show ?case
  proof (cases "ho < length h \<or> po < length p")
    case False
    then show ?thesis
      by (subst write_vectored_loop.simps, subst write_remaining.simps) simp
  next
    case True
    have io: "?io = write_vectored [?bs] w"
      using write_vectored_slices [of "[drop ho h, drop po p]" ?bs w] True "1.prems" by auto
    show ?thesis
    proof (cases rule: write_vectored_cases [of "[?bs]" w])
      case (fault w')
      then show ?thesis
        using True io by (subst write_vectored_loop.simps, subst write_remaining.simps) auto
    next
      case (took n w')
      have ioeq: "?io = (Inr n, w')"
        using io took(1) by simp
      have le: "n \<le> length h - ho + (length p - po)"
        using took(2) by simp
      have "n \<noteq> 0 \<Longrightarrow> n < length h - ho \<Longrightarrow>
          write_vectored_loop h p (ho + n) po (k + 1) w' = write_remaining (drop n ?bs) (k + 1) w'"
        using "1.IH"(1) [OF True ioeq [symmetric] refl _ refl] "1.prems" by (simp add: add.commute)
      moreover have "n \<noteq> 0 \<Longrightarrow> \<not> n < length h - ho \<Longrightarrow>
          write_vectored_loop h p (length h) (po + (n - (length h - ho))) (k + 1) w' =
          write_remaining (drop n ?bs) (k + 1) w'"
        using "1.IH"(2) [OF True ioeq [symmetric] refl _ refl] "1.prems" le by (simp add: add.commute)
      ultimately show ?thesis
        using True io took(1)
        by (subst write_vectored_loop.simps, subst write_remaining.simps) (auto simp: Let_def)
    qed
  qed
qed

lemma write_remaining_Nil [simp]: "write_remaining [] k w = (Inr k, w)"
  by (subst write_remaining.simps) simp

lemma write_remaining_step:
  "bs \<noteq> [] \<Longrightarrow> write_vectored [bs] w = (Inr n, w') \<Longrightarrow> write_remaining bs k w =
    (if n = 0 then (Inl (WriteIo WriteZero), w') else write_remaining (drop n bs) (k + 1) w')"
  "bs \<noteq> [] \<Longrightarrow> write_vectored [bs] w = (Inl e, w') \<Longrightarrow> write_remaining bs k w = (Inl (WriteIo e), w')"
  by (subst write_remaining.simps; simp)+

text \<open>What was written is a prefix of the bytes, and all of them exactly when the loop succeeds.\<close>

definition wrote :: "byte list \<Rightarrow> nat \<Rightarrow> writer \<Rightarrow> (frame_error, nat) result \<Rightarrow> writer \<Rightarrow> bool" where
  "wrote bs k w r w' \<longleftrightarrow>
    (\<exists>done left. bs = done @ left \<and> written w' = written w @ done \<and> flush_fault w' = flush_fault w
      \<and> (case r of Inr n \<Rightarrow> left = [] \<and> k \<le> n \<and> n \<le> k + length bs | Inl _ \<Rightarrow> left \<noteq> []))"

lemma write_remaining_wrote: "write_remaining bs k w = (r, w') \<Longrightarrow> wrote bs k w r w'"
proof (induction bs k w rule: write_remaining.induct)
  case (1 bs k w)
  show ?case
  proof (cases "bs = []")
    case True
    then show ?thesis
      using "1.prems" by (auto simp: wrote_def)
  next
    case False
    show ?thesis
    proof (cases rule: write_vectored_cases [of "[bs]" w])
      case (fault w1)
      then show ?thesis
        using "1.prems" False write_remaining_step(2) [OF False fault(1), of k] by (auto simp: wrote_def)
    next
      case (took n w1)
      show ?thesis
      proof (cases "n = 0")
        case True
        then show ?thesis
          using "1.prems" False took write_remaining_step(1) [OF False took(1), of k] by (auto simp: wrote_def)
      next
        case n: False
        then have "wrote (drop n bs) (k + 1) w1 r w'"
          using "1.IH" [OF False took(1) [symmetric] refl] "1.prems" write_remaining_step(1) [OF False took(1), of k]
          by simp
        then obtain d l where "drop n bs = d @ l" "written w' = written w1 @ d" "flush_fault w' = flush_fault w1"
          "case r of Inr m \<Rightarrow> l = [] \<and> k + 1 \<le> m \<and> m \<le> k + 1 + length (drop n bs) | Inl _ \<Rightarrow> l \<noteq> []"
          unfolding wrote_def by blast
        then have "bs = (take n bs @ d) @ l" "written w' = written w @ take n bs @ d" "flush_fault w' = flush_fault w"
          "case r of Inr m \<Rightarrow> l = [] \<and> k \<le> m \<and> m \<le> k + length bs | Inl _ \<Rightarrow> l \<noteq> []"
          using took(2-4) n append_take_drop_id [of n bs] by (auto split: sum.splits)
        then show ?thesis
          unfolding wrote_def by blast
      qed
    qed
  qed
qed

text \<open>The loop terminates with success when no write fails or is refused.\<close>

lemma write_remaining_succeeds:
  "\<forall>a\<in>set (accepts w). \<exists>n>0. a = Some n \<Longrightarrow>
    \<exists>n w'. write_remaining bs k w = (Inr n, w') \<and> set (accepts w') \<subseteq> set (accepts w)"
proof (induction bs k w rule: write_remaining.induct)
  case (1 bs k w)
  show ?case
  proof (cases "bs = []")
    case False
    obtain n w1 where n: "write_vectored [bs] w = (Inr n, w1)" "n \<noteq> 0" "set (accepts w1) \<subseteq> set (accepts w)"
    proof (cases "accepts w")
      case (Cons a s)
      with "1.prems" obtain m where "a = Some m" "m > 0" by auto
      with Cons False that show thesis
        by (auto simp: write_vectored_def Let_def)
    qed (use False that in \<open>auto simp: write_vectored_def Let_def\<close>)
    then have "\<exists>m w'. write_remaining (drop n bs) (k + 1) w1 = (Inr m, w') \<and> set (accepts w') \<subseteq> set (accepts w1)"
      using "1.IH" [OF False n(1) [symmetric] refl n(2)] "1.prems" n(3) by blast
    then show ?thesis
      using write_remaining_step(1) [OF False n(1)] n(2,3) by auto
  qed simp
qed

section \<open>Batches\<close>

text \<open>The bytes of one frame on the wire, or why it cannot be sent.\<close>

definition frame_wire :: "frame \<Rightarrow> (frame_error, byte list) result" where
  "frame_wire f =
    and_then (encode_into f []) (\<lambda>(payload, ty, sid).
      if length payload > MAX_FRAME then Inl (FrameTooLarge (length payload))
      else Inr (ty # u32_to_be sid @ u32_to_be (word_of_nat (length payload)) @ payload))"

lemma write_all_vectored_wrote:
  "write_all_vectored_payload h p w = (r, w') \<Longrightarrow> wrote (h @ p) 0 w r w'"
  using write_remaining_wrote [of "h @ p" 0 w r w'] write_vectored_loop_refines [of 0 h 0 p 0 w]
  by (simp add: write_all_vectored_payload_def)

lemma write_to_with_scratch_eq:
  "write_to_with_scratch f scratch w =
    (case encode_into f [] of
       Inl e \<Rightarrow> (Inl e, scratch, w)
     | Inr (payload, ty, sid) \<Rightarrow>
         write_payload (case f of Data _ _ \<Rightarrow> scratch | _ \<Rightarrow> scratch\<lparr>ws_payload := payload\<rparr>) ty sid payload w)"
proof -
  have "encode_into (Data i d) s = Inr (d, 3, i)" for i d s
    by (simp add: encode_into_def)
  then show ?thesis
    by (cases f; hypsubst)
      (auto simp: write_to_with_scratch_def encode_scratch [of _ "ws_payload scratch"] split: sum.splits)
qed

lemma write_to_wrote:
  assumes "write_to_with_scratch f scratch w = (r, scratch', w')"
  shows "case frame_wire f of Inl e \<Rightarrow> r = Inl e \<and> w' = w | Inr bs \<Rightarrow> wrote bs 0 w r w'"
proof (cases "encode_into f []")
  case (Inl e)
  then show ?thesis
    using assms by (simp add: write_to_with_scratch_eq frame_wire_def)
next
  case (Inr v)
  obtain payload ty sid where v: "v = (payload, ty, sid)"
    by (cases v)
  show ?thesis
    using assms write_all_vectored_wrote [of "[ty] @ u32_to_be sid @ u32_to_be (word_of_nat (length payload))" payload w]
    by (auto simp: write_to_with_scratch_eq frame_wire_def write_payload_def Let_def Inr v
        split: if_splits prod.splits)
qed

lemma write_to_Inr:
  assumes "write_to_with_scratch f scratch w = (Inr n, scratch', w')"
  obtains bs where "frame_wire f = Inr bs" "written w' = written w @ bs" "flush_fault w' = flush_fault w"
    "n \<le> length bs"
  using write_to_wrote [OF assms] that by (auto simp: wrote_def split: sum.splits)

fun data_len :: "frame \<Rightarrow> nat option" where
  "data_len (Data _ d) = Some (length d)"
| "data_len _ = None"

definition is_data :: "frame \<Rightarrow> bool" where
  "is_data f \<longleftrightarrow> data_len f \<noteq> None"

definition data_size :: "frame \<Rightarrow> nat" where
  "data_size f = (case data_len f of None \<Rightarrow> 0 | Some n \<Rightarrow> n)"

lemma record_frame_fields [simp]:
  "frames_written (record_frame f st) = frames_written st + 1"
  "flushes (record_frame f st) = flushes st"
  "data_frames_written (record_frame f st) = data_frames_written st + (if is_data f then 1 else 0)"
  "data_bytes_written (record_frame f st) = data_bytes_written st + data_size f"
  "vectored_writes (record_frame f st) = vectored_writes st"
  by (cases f; simp add: record_frame_def is_data_def data_size_def Let_def)+

text \<open>What a successful run of the batch loop has sent, counted and left in the channel.\<close>

definition batch_sent ::
  "frame list \<Rightarrow> FrameWriteBatchStats \<Rightarrow> FrameWriteBatchStats \<Rightarrow> writer \<Rightarrow> writer \<Rightarrow> bool" where
  "batch_sent fs st st' w w' \<longleftrightarrow>
    (\<exists>bss. map frame_wire fs = map Inr bss \<and> written w' = written w @ concat bss)
    \<and> flush_fault w' = flush_fault w
    \<and> frames_written st' = frames_written st + length fs
    \<and> flushes st' = flushes st
    \<and> data_frames_written st' = data_frames_written st + length (filter is_data fs)
    \<and> data_bytes_written st' = data_bytes_written st + sum_list (map data_size fs)"

lemma batch_sent_Nil [simp]: "batch_sent [] st st' w w \<longleftrightarrow> frames_written st' = frames_written st
    \<and> flushes st' = flushes st \<and> data_frames_written st' = data_frames_written st
    \<and> data_bytes_written st' = data_bytes_written st"
  by (simp add: batch_sent_def)

lemma batch_sent_Cons:
  assumes "write_to_with_scratch f scratch w = (Inr n, scratch', w1)"
    and "batch_sent fs (record_frame f (st\<lparr>vectored_writes := m\<rparr>)) st' w1 w'"
  shows "batch_sent (f # fs) st st' w w'"
proof -
  obtain bs where bs: "frame_wire f = Inr bs" "written w1 = written w @ bs" "flush_fault w1 = flush_fault w"
    using write_to_Inr [OF assms(1)] by blast
  obtain bss where "map frame_wire fs = map Inr bss" "written w' = written w1 @ concat bss"
    using assms(2) by (auto simp: batch_sent_def)
  then have "map frame_wire (f # fs) = map Inr (bs # bss)" "written w' = written w @ concat (bs # bss)"
    using bs by simp_all
  then show ?thesis
    using assms(2) bs(3) unfolding batch_sent_def by (auto intro: exI [of _ "bs # bss"])
qed

lemma write_batch_loop_sent:
  "write_batch_loop st scratch rx w = (Inr st', rx', w') \<Longrightarrow>
    batch_sent (take (FRAME_WRITE_BATCH_LIMIT - frames_written st) rx) st st' w w'
    \<and> rx' = drop (FRAME_WRITE_BATCH_LIMIT - frames_written st) rx"
proof (induction st scratch rx w rule: write_batch_loop.induct)
  case (2 st scratch f rx w)
  show ?case
  proof (cases "frames_written st < FRAME_WRITE_BATCH_LIMIT")
    case True
    then obtain n scratch1 w1 where w1: "write_to_with_scratch f scratch w = (Inr n, scratch1, w1)"
      using "2.prems" by (auto split: prod.splits sum.splits)
    let ?st1 = "record_frame f (st\<lparr>vectored_writes := vectored_writes st + n\<rparr>)"
    have k: "FRAME_WRITE_BATCH_LIMIT - frames_written st = Suc (FRAME_WRITE_BATCH_LIMIT - frames_written ?st1)"
      using True by simp
    have "batch_sent (take (FRAME_WRITE_BATCH_LIMIT - frames_written ?st1) rx) ?st1 st' w1 w'
        \<and> rx' = drop (FRAME_WRITE_BATCH_LIMIT - frames_written ?st1) rx"
      using "2.IH" [OF True w1 [symmetric] refl] "2.prems" True w1 by simp
    then show ?thesis
      unfolding k by (auto intro: batch_sent_Cons [OF w1])
  qed (use "2.prems" in auto)
qed auto

lemma write_frame_batch_sent:
  assumes "write_frame_batch first rx w = (Inr st, rx', w')"
  shows "batch_sent (take FRAME_WRITE_BATCH_LIMIT (first # rx)) stats_default (st\<lparr>flushes := 0\<rparr>) w w'"
    "rx' = drop FRAME_WRITE_BATCH_LIMIT (first # rx)" "flushes st = 1" "\<not> flush_fault w'"
proof -
  obtain n scratch w1 where w1: "write_to_with_scratch first scratch_default w = (Inr n, scratch, w1)"
    using assms by (auto simp: write_frame_batch_def split: prod.splits sum.splits)
  let ?st1 = "record_frame first (stats_default\<lparr>vectored_writes := n\<rparr>)"
  obtain st1 where loop: "write_batch_loop ?st1 scratch rx w1 = (Inr st1, rx', w')"
      and st: "st = st1\<lparr>flushes := 1\<rparr>" "\<not> flush_fault w'"
    using assms w1 by (auto simp: write_frame_batch_def flush_def split: prod.splits sum.splits if_splits)
  have k: "FRAME_WRITE_BATCH_LIMIT = Suc (FRAME_WRITE_BATCH_LIMIT - frames_written ?st1)"
    by (simp add: FRAME_WRITE_BATCH_LIMIT_def stats_default_def)
  have sent: "batch_sent (take (FRAME_WRITE_BATCH_LIMIT - frames_written ?st1) rx) ?st1 st1 w1 w'"
    and rx': "rx' = drop (FRAME_WRITE_BATCH_LIMIT - frames_written ?st1) rx"
    using write_batch_loop_sent [OF loop] by auto
  have "batch_sent (take FRAME_WRITE_BATCH_LIMIT (first # rx)) stats_default st1 w w'"
    by (subst k) (simp only: take_Suc_Cons batch_sent_Cons [OF w1 sent])
  then show "batch_sent (take FRAME_WRITE_BATCH_LIMIT (first # rx)) stats_default (st\<lparr>flushes := 0\<rparr>) w w'"
    by (simp add: batch_sent_def st stats_default_def)
  show "rx' = drop FRAME_WRITE_BATCH_LIMIT (first # rx)"
    unfolding rx' by (subst (2) k) simp
  show "flushes st = 1" "\<not> flush_fault w'"
    using st by auto
qed

section \<open>Reading back a stream of frames\<close>

lemma parse_stream_wire:
  assumes "frame_ok f" "frame_wire f = Inr bs"
  shows "parse_stream flt (bs @ rest) = Inr (Some f, rest)"
proof -
  obtain payload ty sid where enc: "encode_into f [] = Inr (payload, ty, sid)"
      and len: "length payload \<le> MAX_FRAME"
      and bs: "bs = ty # u32_to_be sid @ u32_to_be (word_of_nat (length payload)) @ payload"
    using assms(2) by (auto simp: frame_wire_def result_simps split: if_splits)
  have "unat (word_of_nat (length payload) :: u32) = length payload"
    using len by (intro unat_u32_small) (simp add: MAX_FRAME_def)
  moreover have "length bs = 9 + length payload"
    by (simp add: bs)
  then have "drop (9 + length payload) (bs @ rest) = rest"
    by (metis append_eq_conv_conj)
  ultimately show ?thesis
    using decode_encode [OF assms(1) enc len] len
    by (simp add: parse_stream_def bs Let_def MAX_FRAME_def)
qed

lemma parse_stream_shrinks: "parse_stream flt bs = Inr (Some f, rest) \<Longrightarrow> length rest < length bs"
  by (auto simp: parse_stream_def Let_def result_simps split: if_splits)

lemma read_from_shrinks:
  "read_from fr rd = Inr (Some f, fr', rd') \<Longrightarrow> length (flat rd') < length (flat rd)"
  using read_from_refines_parse [of fr rd] parse_stream_shrinks [of "fault rd" "flat rd" f "flat rd'"] by simp

lemma read_exact_fault_eq: "read_exact n rd = Inr (bs, rd') \<Longrightarrow> fault rd' = fault rd"
  using read_exact_enough [of n rd] read_exact_short [of rd n] by (cases "n \<le> length (flat rd)") auto

lemma read_data_frame_fault_eq: "read_data_frame fr sid n rd = Inr (f, fr', rd') \<Longrightarrow> fault rd' = fault rd"
  using read_data_frame_refines [of fr sid n rd] by (auto split: if_splits)

lemma read_from_fault: "read_from fr rd = Inr (f, fr', rd') \<Longrightarrow> fault rd' = fault rd"
  by (auto simp: read_from_def Let_def result_simps split: sum.splits io_error.splits if_splits
      dest!: read_exact_fault_eq read_data_frame_fault_eq)

text \<open>The reading loop of a transport: frames until the end of the stream or the first error.\<close>

function read_all :: "frame_reader \<Rightarrow> reader \<Rightarrow> frame list \<times> frame_error option" where
  "read_all fr rd =
    (case read_from fr rd of
       Inl e \<Rightarrow> ([], Some e)
     | Inr (None, _, _) \<Rightarrow> ([], None)
     | Inr (Some f, fr', rd') \<Rightarrow> (let (fs, e) = read_all fr' rd' in (f # fs, e)))"
  by pat_completeness auto
termination by (relation "measure (\<lambda>(_, rd). length (flat rd))") (auto dest: read_from_shrinks)

declare read_all.simps [simp del]

lemma read_all_wires:
  "map frame_wire fs = map Inr bss \<Longrightarrow> \<forall>f\<in>set fs. frame_ok f \<Longrightarrow> flat rd = concat bss \<Longrightarrow> \<not> fault rd \<Longrightarrow>
    read_all fr rd = (fs, None)"
proof (induction fs arbitrary: bss fr rd)
  case Nil
  then have "map_sum id (\<lambda>(f, _, rd'). (f, flat rd')) (read_from fr rd) = Inr (None, [])"
    using read_from_refines_parse [of fr rd] by (simp add: parse_stream_def)
  then show ?case
    by (subst read_all.simps) (auto split: sum.splits option.splits)
next
  case (Cons f fs)
  then obtain bs bss' where bss: "bss = bs # bss'" "frame_wire f = Inr bs" "map frame_wire fs = map Inr bss'"
    by (cases bss) auto
  have "map_sum id (\<lambda>(f, _, rd'). (f, flat rd')) (read_from fr rd) = Inr (Some f, concat bss')"
    using read_from_refines_parse [of fr rd] parse_stream_wire [OF _ bss(2), of "fault rd" "concat bss'"] Cons.prems bss(1)
    by simp
  then obtain fr' rd' where rd': "read_from fr rd = Inr (Some f, fr', rd')" "flat rd' = concat bss'"
    by (cases "read_from fr rd") auto
  then have "read_all fr' rd' = (fs, None)"
    using Cons.IH [OF bss(3)] Cons.prems read_from_fault [OF rd'(1)] by simp
  then show ?case
    using rd'(1) by (subst read_all.simps) simp
qed

section \<open>When a batch goes through\<close>

definition sendable :: "frame \<Rightarrow> bool" where
  "sendable f \<longleftrightarrow> (\<forall>s\<in>set (frame_strings f). length s \<le> 65535) \<and> encoded_payload_capacity f \<le> MAX_FRAME"

lemma encode_fits: "(\<forall>s\<in>set (frame_strings f). length s \<le> 65535) \<longleftrightarrow> is_ok (encode_into f scratch)"
  by (cases f) (auto simp: encode_into_def Let_def write_string_def is_ok_def split: option.splits)

lemma sendable_iff: "sendable f \<longleftrightarrow> is_ok (frame_wire f)"
  using encode_fits [of f "[]"] encode_length [of f "[]"]
  by (cases "encode_into f []") (auto simp: sendable_def frame_wire_def split: if_splits)

definition positive_script :: "writer \<Rightarrow> bool" where
  "positive_script w \<longleftrightarrow> (\<forall>a\<in>set (accepts w). \<exists>n>0. a = Some n)"

lemma write_to_succeeds:
  assumes "sendable f" "positive_script w"
  shows "\<exists>n scratch' w'. write_to_with_scratch f scratch w = (Inr n, scratch', w')
    \<and> positive_script w' \<and> flush_fault w' = flush_fault w"
proof -
  obtain payload ty sid where enc: "encode_into f [] = Inr (payload, ty, sid)" "length payload \<le> MAX_FRAME"
    using assms(1) by (cases "encode_into f []") (auto simp: sendable_iff frame_wire_def split: if_splits)
  let ?h = "[ty] @ u32_to_be sid @ u32_to_be (word_of_nat (length payload))"
  obtain n w' where w': "write_all_vectored_payload ?h payload w = (Inr n, w')" "set (accepts w') \<subseteq> set (accepts w)"
    using write_remaining_succeeds [of w "?h @ payload" 0] write_vectored_loop_refines [of 0 ?h 0 payload 0 w] assms(2)
    by (auto simp: write_all_vectored_payload_def positive_script_def)
  moreover have "flush_fault w' = flush_fault w"
    using write_all_vectored_wrote [OF w'(1)] by (auto simp: wrote_def)
  moreover have "positive_script w'"
    using assms(2) w'(2) by (auto simp: positive_script_def)
  ultimately show ?thesis
    using enc by (simp add: write_to_with_scratch_eq write_payload_def)
qed

lemma write_batch_loop_succeeds:
  "\<forall>f\<in>set rx. sendable f \<Longrightarrow> positive_script w \<Longrightarrow>
    \<exists>st' rx' w'. write_batch_loop st scratch rx w = (Inr st', rx', w') \<and> flush_fault w' = flush_fault w"
proof (induction st scratch rx w rule: write_batch_loop.induct)
  case (2 st scratch f rx w)
  obtain n scratch' w' where w': "write_to_with_scratch f scratch w = (Inr n, scratch', w')"
      "positive_script w'" "flush_fault w' = flush_fault w"
    using write_to_succeeds [of f w scratch] "2.prems" by auto
  show ?case
  proof (cases "frames_written st < FRAME_WRITE_BATCH_LIMIT")
    case True
    then show ?thesis
      using "2.IH" [OF True w'(1) [symmetric] refl] "2.prems" w' by auto
  qed simp
qed simp

text \<open>
  Whatever happens during a batch, the bytes sent are whole frames from the front of the queue
  followed by at most the beginning of the next one.
\<close>

definition frames_then_prefix :: "frame list \<Rightarrow> byte list \<Rightarrow> bool" where
  "frames_then_prefix fs out \<longleftrightarrow>
    (\<exists>k bss part. k \<le> length fs \<and> map frame_wire (take k fs) = map Inr bss \<and> out = concat bss @ part
      \<and> (part = [] \<or> (\<exists>f bs rest. drop k fs = f # rest \<and> frame_wire f = Inr bs \<and> (\<exists>left. bs = part @ left \<and> left \<noteq> []))))"

lemma frames_then_prefix_Nil: "frames_then_prefix fs []"
  unfolding frames_then_prefix_def by (intro exI [of _ 0] exI [of _ "[]"]) simp

lemma frames_then_prefix_fail:
  assumes "write_to_with_scratch f scratch w = (Inl e, scratch', w')"
  shows "\<exists>out. written w' = written w @ out \<and> frames_then_prefix (f # fs) out"
proof (cases "frame_wire f")
  case (Inl e')
  then show ?thesis
    using write_to_wrote [OF assms] frames_then_prefix_Nil [of "f # fs"] by auto
next
  case (Inr bs)
  then obtain part left where "bs = part @ left" "left \<noteq> []" "written w' = written w @ part"
    using write_to_wrote [OF assms] by (auto simp: wrote_def)
  moreover from this Inr have "frames_then_prefix (f # fs) part"
    unfolding frames_then_prefix_def by (intro exI [of _ 0] exI [of _ "[]"] exI [of _ part]) auto
  ultimately show ?thesis
    by blast
qed

lemma frames_then_prefix_Cons:
  assumes "frame_wire f = Inr bs" "frames_then_prefix fs out"
  shows "frames_then_prefix (f # fs) (bs @ out)"
proof -
  obtain k bss part where "k \<le> length fs" "map frame_wire (take k fs) = map Inr bss" "out = concat bss @ part"
    "part = [] \<or> (\<exists>f bs rest. drop k fs = f # rest \<and> frame_wire f = Inr bs \<and> (\<exists>left. bs = part @ left \<and> left \<noteq> []))"
    using assms(2) unfolding frames_then_prefix_def by blast
  then show ?thesis
    unfolding frames_then_prefix_def using assms(1)
    by (intro exI [of _ "Suc k"] exI [of _ "bs # bss"] exI [of _ part]) simp
qed

lemma write_batch_loop_prefix:
  "write_batch_loop st scratch rx w = (r, rx', w') \<Longrightarrow>
    \<exists>out. written w' = written w @ out \<and> frames_then_prefix rx out"
proof (induction st scratch rx w rule: write_batch_loop.induct)
  case (1 st scratch w)
  then show ?case
    using frames_then_prefix_Nil by auto
next
  case (2 st scratch f rx w)
  show ?case
  proof (cases "frames_written st < FRAME_WRITE_BATCH_LIMIT")
    case True
    obtain r1 scratch1 w1 where w1: "write_to_with_scratch f scratch w = (r1, scratch1, w1)"
      by (metis prod_cases3)
    show ?thesis
    proof (cases r1)
      case (Inl e)
      then show ?thesis
        using frames_then_prefix_fail [of f scratch w e scratch1 w1 rx] w1 True "2.prems" by simp
    next
      case (Inr n)
      then obtain bs where bs: "frame_wire f = Inr bs" "written w1 = written w @ bs"
        using write_to_Inr w1 by blast
      obtain out where "written w' = written w1 @ out" "frames_then_prefix rx out"
        using "2.IH" [OF True w1 [symmetric, unfolded Inr] refl] w1 Inr True "2.prems" by auto
      then show ?thesis
        using frames_then_prefix_Cons [OF bs(1)] bs(2) by auto
    qed
  qed (use "2.prems" frames_then_prefix_Nil in auto)
qed

section \<open>Properties\<close>

text \<open>
  C1. Round trip over a real transport: whatever batch the writer reports as written, through any
  sequence of short writes, a reader that receives the bytes in chunks of any size reads back exactly
  the frames of the batch in order (at most 32 of them) and then the end of the stream; the frames
  beyond the batch limit stay in the channel.
\<close>

theorem spx_batch_round_trip:
  assumes "\<forall>f\<in>set (first # rx). frame_ok f"
    and "write_frame_batch first rx w = (Inr st, rx', w')" "written w = []"
    and "flat rd = written w'" "\<not> fault rd"
  shows "read_all fr rd = (take FRAME_WRITE_BATCH_LIMIT (first # rx), None)
    \<and> rx' = drop FRAME_WRITE_BATCH_LIMIT (first # rx)"
proof -
  let ?fs = "take FRAME_WRITE_BATCH_LIMIT (first # rx)"
  obtain bss where "map frame_wire ?fs = map Inr bss" "written w' = concat bss"
    using write_frame_batch_sent(1) [OF assms(2)] assms(3) unfolding batch_sent_def by auto
  moreover have "\<forall>f\<in>set ?fs. frame_ok f"
    using assms(1) by (meson in_set_takeD)
  ultimately show ?thesis
    using read_all_wires [of ?fs bss rd fr] assms(4,5) write_frame_batch_sent(2) [OF assms(2)] by simp
qed

theorem spx_batch_round_trip_witness:
  "read_all frame_reader_new
      \<lparr>chunks = [[6, 0, 0], [0, 0, 0, 0, 0, 3, 0], [1, 65, 3, 0, 0, 0, 9, 0, 0, 0, 2, 7, 8]], fault = False\<rparr> =
    ([Log ''A'', Data 9 [7, 8]], None)"
proof -
  let ?w = "\<lparr>written = [], accepts = [Some 4, Some 7], flush_fault = False\<rparr>"
  let ?r = "write_frame_batch (Log ''A'') [Data 9 [7, 8]] ?w"
  have "\<forall>f\<in>set (Log ''A'' # [Data 9 [7, 8]]). frame_ok f"
    by (simp add: frame_ok_def str_ok_def as_bytes_def byte_of_char_def)
  moreover have "?r = (Inr \<lparr>frames_written = 2, flushes = 1, data_frames_written = 1, data_bytes_written = 2,
      vectored_writes = 4\<rparr>, [], \<lparr>written = [6, 0, 0, 0, 0, 0, 0, 0, 3, 0, 1, 65, 3, 0, 0, 0, 9, 0, 0, 0, 2, 7, 8],
      accepts = [], flush_fault = False\<rparr>)"
    by (simp add: exec_simps write_frame_batch_def write_to_with_scratch_def encode_into_def write_string_def
        write_payload_def MAX_FRAME_def write_all_vectored_payload_def write_vectored_loop.simps
        write_vectored_def record_frame_def stats_default_def scratch_default_def flush_def
        FRAME_WRITE_BATCH_LIMIT_def Let_def)
  ultimately show ?thesis
    using spx_batch_round_trip [of "Log ''A''" "[Data 9 [7, 8]]" ?w]
    by (simp add: flat_def FRAME_WRITE_BATCH_LIMIT_def)
qed

text \<open>
  C30. The frame reader refines a parser of the byte sequence: its result and the bytes it leaves
  behind are those of \<^const>\<open>parse_stream\<close> on the concatenated chunks, whatever the chunk boundaries,
  whatever frames the reader has decoded before (its buffers are reused), and on every error path.
\<close>

theorem spx_reader_refines_parser:
  "map_sum id (\<lambda>(f, _, rd'). (f, flat rd')) (read_from fr rd) = parse_stream (fault rd) (flat rd)"
  by (rule read_from_refines_parse)

text \<open>
  C31. A batch that fails at any point (a frame that cannot be encoded, a refused or failing write, a
  failing flush) has sent whole frames from the front of the queue followed by at most a proper
  beginning of the next frame: frames are never interleaved, reordered or duplicated.
\<close>

theorem spx_batch_never_corrupts:
  assumes "write_frame_batch first rx w = (r, rx', w')"
  shows "\<exists>out. written w' = written w @ out \<and> frames_then_prefix (first # rx) out"
proof -
  obtain r1 scratch w1 where w1: "write_to_with_scratch first scratch_default w = (r1, scratch, w1)"
    by (metis prod_cases3)
  show ?thesis
  proof (cases r1)
    case (Inl e)
    then show ?thesis
      using frames_then_prefix_fail [of first scratch_default w e scratch w1 rx] w1 assms
      by (simp add: write_frame_batch_def)
  next
    case (Inr n)
    then obtain bs where bs: "frame_wire first = Inr bs" "written w1 = written w @ bs"
      using write_to_Inr w1 by blast
    obtain r2 rx2 w2 where loop: "write_batch_loop (record_frame first (stats_default\<lparr>vectored_writes := n\<rparr>))
        scratch rx w1 = (r2, rx2, w2)"
      by (metis prod_cases3)
    then have "w' = w2"
      using assms w1 Inr by (auto simp: write_frame_batch_def split: sum.splits)
    then show ?thesis
      using write_batch_loop_prefix [OF loop] frames_then_prefix_Cons [OF bs(1)] bs(2) by auto
  qed
qed

theorem spx_batch_never_corrupts_witness:
  "\<exists>out. [6, 0, 0] = ([] :: byte list) @ out \<and> frames_then_prefix [Log ''A''] out"
proof -
  have "write_frame_batch (Log ''A'') [] \<lparr>written = [], accepts = [Some 3, None], flush_fault = False\<rparr> =
      (Inl (WriteIo IoFault), [], \<lparr>written = [6, 0, 0], accepts = [], flush_fault = False\<rparr>)"
    by (simp add: exec_simps write_frame_batch_def write_to_with_scratch_def encode_into_def write_string_def
        write_payload_def MAX_FRAME_def write_all_vectored_payload_def write_vectored_loop.simps
        write_vectored_def scratch_default_def Let_def)
  then show ?thesis
    using spx_batch_never_corrupts by fastforce
qed

text \<open>
  C32. A batch goes through: when every queued frame fits (strings of at most 65535 bytes, payload of
  at most 16 MiB) and every write of the transport makes progress, the writer returns with success.
  It has then written one to 32 frames with a single flush, and its counters are exact: the frames,
  the data frames and the data bytes of the batch.
\<close>

theorem spx_batch_succeeds:
  assumes "\<forall>f\<in>set (first # rx). sendable f" "positive_script w" "\<not> flush_fault w"
  shows "\<exists>st w'. write_frame_batch first rx w = (Inr st, drop FRAME_WRITE_BATCH_LIMIT (first # rx), w')
    \<and> frames_written st = min FRAME_WRITE_BATCH_LIMIT (length (first # rx)) \<and> flushes st = 1
    \<and> data_frames_written st = length (filter is_data (take FRAME_WRITE_BATCH_LIMIT (first # rx)))
    \<and> data_bytes_written st = sum_list (map data_size (take FRAME_WRITE_BATCH_LIMIT (first # rx)))"
proof -
  obtain n scratch w1 where w1: "write_to_with_scratch first scratch_default w = (Inr n, scratch, w1)"
      "positive_script w1" "flush_fault w1 = flush_fault w"
    using write_to_succeeds [of first w scratch_default] assms by auto
  obtain st rx' w' where "write_batch_loop (record_frame first (stats_default\<lparr>vectored_writes := n\<rparr>))
      scratch rx w1 = (Inr st, rx', w')" "flush_fault w' = flush_fault w1"
    using write_batch_loop_succeeds [of rx w1] assms(1) w1(2) by (metis list.set_intros(2))
  then have ok: "write_frame_batch first rx w = (Inr (st\<lparr>flushes := 1\<rparr>), rx', w')"
    using w1 assms(3) by (simp add: write_frame_batch_def flush_def)
  show ?thesis
    using write_frame_batch_sent [OF ok] ok by (auto simp: batch_sent_def stats_default_def)
qed

theorem spx_batch_succeeds_witness:
  "\<exists>st w'. write_frame_batch (Data 1 [5]) [] \<lparr>written = [], accepts = [Some 1], flush_fault = False\<rparr> = (Inr st, [], w')
    \<and> data_bytes_written st = 1"
proof -
  have "\<forall>f\<in>set (Data 1 [5] # []). sendable f"
    by (simp add: sendable_def MAX_FRAME_def)
  moreover have "positive_script \<lparr>written = [], accepts = [Some 1], flush_fault = False\<rparr>"
    by (simp add: positive_script_def)
  ultimately show ?thesis
    using spx_batch_succeeds [of "Data 1 [5]" "[]" "\<lparr>written = [], accepts = [Some 1], flush_fault = False\<rparr>"]
    by (auto simp: FRAME_WRITE_BATCH_LIMIT_def data_size_def)
qed



end
