(* ===== verification/Rust_Strings.thy ===== *)
theory Rust_Strings
  imports SPX_Prelude "HOL-Library.Sublist"
begin

text \<open>
  The string operations of the Rust standard library that the sources use, on the UTF-8 bytes of a
  string: ASCII case mapping, searching, splitting, trimming (all of Unicode's white space), and the
  decimal conversions of unsigned integers.
\<close>

section \<open>Case\<close>

definition is_ascii_uppercase :: "char \<Rightarrow> bool" where
  "is_ascii_uppercase c \<longleftrightarrow> 65 \<le> (of_char c :: nat) \<and> (of_char c :: nat) \<le> 90"

definition char_to_lower :: "char \<Rightarrow> char" where
  "char_to_lower c = (if is_ascii_uppercase c then char_of (of_char c + 32 :: nat) else c)"

definition to_ascii_lowercase :: "string \<Rightarrow> string" where
  "to_ascii_lowercase s = map char_to_lower s"

definition eq_ignore_ascii_case :: "string \<Rightarrow> string \<Rightarrow> bool" where
  "eq_ignore_ascii_case a b \<longleftrightarrow> to_ascii_lowercase a = to_ascii_lowercase b"

lemma char_to_lower_not_upper: "\<not> is_ascii_uppercase (char_to_lower c)"
  by (auto simp: char_to_lower_def is_ascii_uppercase_def)

lemma to_ascii_lowercase_idem [simp]:
  "to_ascii_lowercase (to_ascii_lowercase s) = to_ascii_lowercase s"
  using char_to_lower_not_upper by (auto simp: to_ascii_lowercase_def char_to_lower_def [of "char_to_lower _"])

lemma length_to_ascii_lowercase [simp]: "length (to_ascii_lowercase s) = length s"
  by (simp add: to_ascii_lowercase_def)

section \<open>Searching and splitting\<close>

definition starts_with :: "string \<Rightarrow> string \<Rightarrow> bool" where
  "starts_with s p \<longleftrightarrow> take (length p) s = p"

definition ends_with :: "string \<Rightarrow> string \<Rightarrow> bool" where
  "ends_with s p \<longleftrightarrow> length p \<le> length s \<and> drop (length s - length p) s = p"

fun str_contains :: "string \<Rightarrow> string \<Rightarrow> bool" where
  "str_contains [] p = (p = [])"
| "str_contains (c # s) p = (starts_with (c # s) p \<or> str_contains s p)"

definition strip_prefix :: "string \<Rightarrow> string \<Rightarrow> string option" where
  "strip_prefix s p = (if starts_with s p then Some (drop (length p) s) else None)"

definition strip_suffix :: "string \<Rightarrow> string \<Rightarrow> string option" where
  "strip_suffix s p = (if ends_with s p then Some (take (length s - length p) s) else None)"

text \<open>\<^verbatim>\<open>split_once\<close> at the first occurrence of a non-empty pattern, \<^verbatim>\<open>rsplit_once\<close> at the last one of a character.\<close>

fun split_once :: "string \<Rightarrow> string \<Rightarrow> (string \<times> string) option" where
  "split_once [] p = None"
| "split_once (c # s) p =
    (if starts_with (c # s) p then Some ([], drop (length p) (c # s))
     else map_option (\<lambda>(a, b). (c # a, b)) (split_once s p))"

fun rsplit_once_char :: "string \<Rightarrow> char \<Rightarrow> (string \<times> string) option" where
  "rsplit_once_char [] d = None"
| "rsplit_once_char (c # s) d =
    (case rsplit_once_char s d of
       Some (a, b) \<Rightarrow> Some (c # a, b)
     | None \<Rightarrow> if c = d then Some ([], s) else None)"

fun split_char :: "char \<Rightarrow> string \<Rightarrow> string list" where
  "split_char d [] = [[]]"
| "split_char d (c # s) =
    (if c = d then [] # split_char d s
     else case split_char d s of
       [] \<Rightarrow> [[c]]
     | w # ws \<Rightarrow> (c # w) # ws)"

definition str_join :: "string \<Rightarrow> string list \<Rightarrow> string" where
  "str_join sep ws = (case ws of [] \<Rightarrow> [] | w # rest \<Rightarrow> w @ concat (map (\<lambda>x. sep @ x) rest))"

text \<open>\<^verbatim>\<open>str::trim_matches\<close> for a character.\<close>

definition trim_matches :: "char \<Rightarrow> string \<Rightarrow> string" where
  "trim_matches c s = rev (dropWhile (\<lambda>x. x = c) (rev (dropWhile (\<lambda>x. x = c) s)))"

lemma starts_with_append [simp]: "starts_with (p @ s) p"
  by (simp add: starts_with_def)

lemma starts_with_iff: "starts_with s p \<longleftrightarrow> (\<exists>t. s = p @ t)"
  by (auto simp: starts_with_def) (metis append_take_drop_id)

lemma str_contains_iff: "str_contains s p \<longleftrightarrow> (\<exists>a b. s = a @ p @ b)"
proof (induction s)
  case (Cons c s)
  show ?case
  proof
    assume "str_contains (c # s) p"
    then consider t where "c # s = [] @ p @ t" | a b where "c # s = (c # a) @ p @ b"
      using Cons by (auto simp: starts_with_iff)
    then show "\<exists>a b. c # s = a @ p @ b"
      by cases blast+
  next
    assume "\<exists>a b. c # s = a @ p @ b"
    then obtain a b where "c # s = a @ p @ b" by blast
    then have "starts_with (c # s) p \<or> (\<exists>a b. s = a @ p @ b)"
      by (cases a) (auto simp: starts_with_iff)
    then show "str_contains (c # s) p"
      using Cons by simp
  qed
qed simp

lemma rsplit_once_char_None: "rsplit_once_char s d = None \<longleftrightarrow> d \<notin> set s"
  by (induction s) (auto split: option.splits)

lemma rsplit_once_char_append:
  "d \<notin> set b \<Longrightarrow> rsplit_once_char (a @ d # b) d = Some (a, b)"
  using rsplit_once_char_None [of b d] by (induction a) auto

lemma rsplit_once_char_Some:
  "rsplit_once_char s d = Some (a, b) \<Longrightarrow> s = a @ d # b \<and> d \<notin> set b"
  by (induction s arbitrary: a b) (auto simp: rsplit_once_char_None split: option.splits if_splits)

lemma split_char_nonempty [simp]: "split_char d s \<noteq> []"
  by (induction s) (auto split: list.splits)

lemma split_char_no_sep: "d \<notin> set s \<Longrightarrow> split_char d s = [s]"
  by (induction s) auto

lemma split_char_append: "d \<notin> set a \<Longrightarrow> split_char d (a @ d # b) = a # split_char d b"
  by (induction a) auto

lemma split_char_parts: "w \<in> set (split_char d s) \<Longrightarrow> d \<notin> set w"
  by (induction s arbitrary: w) (auto split: if_splits list.splits)

section \<open>Trimming\<close>

text \<open>The UTF-8 encodings of the characters with the Unicode property White\_Space.\<close>

definition whitespace :: "string list" where
  "whitespace =
    map (map char_of)
      ([[9 :: nat], [10], [11], [12], [13], [32], [0xC2, 0x85], [0xC2, 0xA0], [0xE1, 0x9A, 0x80]]
       @ map (\<lambda>n. [0xE2, 0x80, n]) ([0x80 ..< 0x8B] @ [0xA8, 0xA9, 0xAF])
       @ [[0xE2, 0x81, 0x9F], [0xE3, 0x80, 0x80]])"

function trim_with :: "string list \<Rightarrow> string \<Rightarrow> string" where
  "trim_with ws s =
    (case find (\<lambda>w. w \<noteq> [] \<and> starts_with s w) ws of
       None \<Rightarrow> s
     | Some w \<Rightarrow> trim_with ws (drop (length w) s))"
  by pat_completeness auto
termination
  by (relation "measure (\<lambda>(_, s). length s)")
    (auto simp: find_Some_iff starts_with_def intro!: diff_less)

declare trim_with.simps [simp del]

definition trim_start :: "string \<Rightarrow> string" where
  "trim_start s = trim_with whitespace s"

definition trim_end :: "string \<Rightarrow> string" where
  "trim_end s = rev (trim_with (map rev whitespace) (rev s))"

definition trim :: "string \<Rightarrow> string" where
  "trim s = trim_end (trim_start s)"

lemma trim_with_suffix: "\<exists>pre. s = pre @ trim_with ws s"
proof (induction ws s rule: trim_with.induct)
  case (1 ws s)
  show ?case
  proof (cases "find (\<lambda>w. w \<noteq> [] \<and> starts_with s w) ws")
    case None
    then show ?thesis
      by (subst trim_with.simps) simp
  next
    case (Some w)
    then obtain pre where "drop (length w) s = pre @ trim_with ws (drop (length w) s)"
      using 1 by blast
    moreover have "trim_with ws s = trim_with ws (drop (length w) s)"
      using Some by (subst trim_with.simps) simp
    ultimately have "s = (take (length w) s @ pre) @ trim_with ws s"
      using append_take_drop_id [of "length w" s] by simp
    then show ?thesis ..
  qed
qed

lemma length_trim: "length (trim s) \<le> length s"
proof -
  have le: "length (trim_with ws t) \<le> length t" for ws t
    using trim_with_suffix [of t ws] by (metis le_add2 length_append)
  show ?thesis
    using le [of "map rev whitespace" "rev (trim_start s)"] le [of whitespace s]
    by (simp add: trim_def trim_end_def trim_start_def)
qed

section \<open>Decimal numbers\<close>

definition digit_char :: "nat \<Rightarrow> char" where
  "digit_char n = char_of (48 + n)"

fun show_nat :: "nat \<Rightarrow> string" where
  "show_nat n = (if n < 10 then [digit_char n] else show_nat (n div 10) @ [digit_char (n mod 10)])"

declare show_nat.simps [simp del]

definition digit_val :: "char \<Rightarrow> nat option" where
  "digit_val c = (let n = of_char c :: nat in if 48 \<le> n \<and> n \<le> 57 then Some (n - 48) else None)"

fun parse_digits :: "nat \<Rightarrow> string \<Rightarrow> nat option" where
  "parse_digits acc [] = Some acc"
| "parse_digits acc (c # s) =
    (case digit_val c of None \<Rightarrow> None | Some d \<Rightarrow> parse_digits (acc * 10 + d) s)"

text \<open>\<^verbatim>\<open>str::parse\<close> for an unsigned integer type with the given maximum; one leading plus sign is allowed.\<close>

definition parse_unsigned :: "nat \<Rightarrow> string \<Rightarrow> nat option" where
  "parse_unsigned mx s =
    (let ds = (case s of c # r \<Rightarrow> if c = CHR ''+'' then r else s | [] \<Rightarrow> []) in
     if ds = [] then None
     else case parse_digits 0 ds of
       None \<Rightarrow> None
     | Some n \<Rightarrow> if n \<le> mx then Some n else None)"

definition parse_u16 :: "string \<Rightarrow> u16 option" where
  "parse_u16 s = map_option word_of_nat (parse_unsigned 65535 s)"

definition parse_u64 :: "string \<Rightarrow> u64 option" where
  "parse_u64 s = map_option word_of_nat (parse_unsigned 18446744073709551615 s)"

lemma digit_val_digit_char [simp]: "n < 10 \<Longrightarrow> digit_val (digit_char n) = Some n"
  by (simp add: digit_val_def digit_char_def Let_def)

lemma digit_char_code: "n < 10 \<Longrightarrow> of_char (digit_char n) = 48 + n"
  by (simp add: digit_char_def)

lemma parse_digits_append:
  "parse_digits acc (a @ b) = (case parse_digits acc a of None \<Rightarrow> None | Some n \<Rightarrow> parse_digits n b)"
  by (induction acc a rule: parse_digits.induct) (auto split: option.splits)

lemma parse_digits_show_nat: "parse_digits 0 (show_nat n) = Some n"
proof (induction n rule: show_nat.induct)
  case (1 n)
  show ?case
    using 1 by (cases "n < 10") (auto simp: show_nat.simps [of n] parse_digits_append)
qed

lemma show_nat_digits: "c \<in> set (show_nat n) \<Longrightarrow> \<exists>d<10. c = digit_char d"
proof (induction n rule: show_nat.induct)
  case (1 n)
  show ?case
  proof (cases "n < 10")
    case False
    then show ?thesis
      using 1 mod_less_divisor [of 10 n] by (auto simp: show_nat.simps [of n] simp del: mod_less_divisor)
  qed (use 1 in \<open>auto simp: show_nat.simps [of n]\<close>)
qed

lemma show_nat_nonempty [simp]: "show_nat n \<noteq> []"
  by (subst show_nat.simps) simp

lemma show_nat_no_char: "of_char c < (48 :: nat) \<or> of_char c > (57 :: nat) \<Longrightarrow> c \<notin> set (show_nat n)"
  by (auto dest!: show_nat_digits simp: digit_char_code)

lemma parse_unsigned_show: "n \<le> mx \<Longrightarrow> parse_unsigned mx (show_nat n) = Some n"
proof -
  assume "n \<le> mx"
  moreover have "CHR ''+'' \<notin> set (show_nat n)"
    by (rule show_nat_no_char) simp
  then have "(case show_nat n of c # r \<Rightarrow> if c = CHR ''+'' then r else show_nat n | [] \<Rightarrow> []) = show_nat n"
    by (cases "show_nat n") auto
  ultimately show ?thesis
    by (simp add: parse_unsigned_def parse_digits_show_nat)
qed

lemma parse_u16_show [simp]: "parse_u16 (show_nat (unat w)) = Some w"
  using unat_less [of w] by (simp add: parse_u16_def parse_unsigned_show)

lemma parse_unsigned_bound: "parse_unsigned mx s = Some n \<Longrightarrow> n \<le> mx"
  by (auto simp: parse_unsigned_def Let_def split: if_splits option.splits)

section \<open>Values with a textual form\<close>

text \<open>The contract of a type with \<^verbatim>\<open>Display\<close> and \<^verbatim>\<open>FromStr\<close>: the printed form is parsed back.\<close>

locale textual =
  fixes show_it :: "'a \<Rightarrow> string"
    and parse_it :: "string \<Rightarrow> 'a option"
  assumes parse_show: "parse_it (show_it x) = Some x"
begin

lemma show_inject: "show_it x = show_it y \<longleftrightarrow> x = y"
  by (metis option.inject parse_show)

lemma parse_show_idem: "parse_it s = Some x \<Longrightarrow> parse_it (show_it x) = parse_it s"
  by (simp add: parse_show)

end

text \<open>Trimming is idempotent, also after mapping to lower case.\<close>

definition trimmed_of :: "string list \<Rightarrow> string \<Rightarrow> bool" where
  "trimmed_of ws s \<longleftrightarrow> (\<forall>w\<in>set ws. w \<noteq> [] \<longrightarrow> \<not> starts_with s w)"

lemma trim_with_trimmed: "trimmed_of ws (trim_with ws s)"
proof (induction ws s rule: trim_with.induct)
  case (1 ws s)
  show ?case
  proof (cases "find (\<lambda>w. w \<noteq> [] \<and> starts_with s w) ws")
    case None
    then have "trim_with ws s = s"
      by (subst trim_with.simps) simp
    then show ?thesis
      using None by (auto simp: trimmed_of_def find_None_iff)
  next
    case (Some w)
    then show ?thesis
      using 1 by (subst trim_with.simps) simp
  qed
qed

lemma trim_with_fixed: "trimmed_of ws s \<Longrightarrow> trim_with ws s = s"
proof -
  assume "trimmed_of ws s"
  then have "find (\<lambda>w. w \<noteq> [] \<and> starts_with s w) ws = None"
    by (auto simp: trimmed_of_def find_None_iff)
  then show ?thesis
    by (subst trim_with.simps) simp
qed

lemma trimmed_of_prefix: "trimmed_of ws (a @ b) \<Longrightarrow> trimmed_of ws a"
  by (auto simp: trimmed_of_def starts_with_iff)

lemma trim_fixed:
  assumes "trimmed_of whitespace s" "trimmed_of (map rev whitespace) (rev s)"
  shows "trim s = s"
  using assms by (simp add: trim_def trim_start_def trim_end_def trim_with_fixed)

lemma trim_trimmed: "trimmed_of whitespace (trim s)" "trimmed_of (map rev whitespace) (rev (trim s))"
proof -
  let ?t = "trim_start s"
  obtain pre where "rev ?t = pre @ trim_with (map rev whitespace) (rev ?t)"
    using trim_with_suffix by blast
  then have "?t = trim s @ rev pre"
    unfolding trim_def trim_end_def by (metis rev_append rev_rev_ident)
  moreover have "trimmed_of whitespace ?t"
    by (simp add: trim_start_def trim_with_trimmed)
  ultimately show "trimmed_of whitespace (trim s)"
    by (metis trimmed_of_prefix)
  show "trimmed_of (map rev whitespace) (rev (trim s))"
    by (simp add: trim_def trim_end_def trim_with_trimmed)
qed

lemma trim_idem [simp]: "trim (trim s) = trim s"
  by (intro trim_fixed trim_trimmed)

definition caseless :: "char \<Rightarrow> bool" where
  "caseless c \<longleftrightarrow> (of_char c :: nat) < 65 \<or> 122 < (of_char c :: nat)"

lemma char_to_lower_caseless: "caseless c \<Longrightarrow> char_to_lower x = c \<longleftrightarrow> x = c"
  by (auto simp: caseless_def char_to_lower_def is_ascii_uppercase_def)

lemma starts_with_lower:
  "\<forall>c\<in>set w. caseless c \<Longrightarrow> starts_with (to_ascii_lowercase s) w \<longleftrightarrow> starts_with s w"
proof (induction w arbitrary: s)
  case (Cons c w)
  then show ?case
    by (cases s) (auto simp: starts_with_def to_ascii_lowercase_def char_to_lower_caseless)
qed (simp add: starts_with_def)

lemma whitespace_caseless: "w \<in> set whitespace \<Longrightarrow> \<forall>c\<in>set w. caseless c"
proof -
  have "\<forall>w\<in>set whitespace. \<forall>c\<in>set w. caseless c"
    by code_simp
  then show "w \<in> set whitespace \<Longrightarrow> \<forall>c\<in>set w. caseless c" by blast
qed

lemma trim_lower [simp]: "trim (to_ascii_lowercase (trim s)) = to_ascii_lowercase (trim s)"
proof -
  have rev_lower: "rev (to_ascii_lowercase t) = to_ascii_lowercase (rev t)" for t
    by (simp add: to_ascii_lowercase_def rev_map)
  have "trimmed_of whitespace (to_ascii_lowercase (trim s))"
    using trim_trimmed(1) [of s] starts_with_lower whitespace_caseless by (auto simp: trimmed_of_def)
  moreover have "trimmed_of (map rev whitespace) (rev (to_ascii_lowercase (trim s)))"
    using trim_trimmed(2) [of s] starts_with_lower [of "rev _"] whitespace_caseless
    by (auto simp: trimmed_of_def rev_lower)
  ultimately show ?thesis
    by (rule trim_fixed)
qed

section \<open>Words\<close>

text \<open>\<^verbatim>\<open>str::split_whitespace\<close>: the maximal runs without white space.\<close>

function split_whitespace_from :: "string \<Rightarrow> string \<Rightarrow> string list" where
  "split_whitespace_from word [] = (if word = [] then [] else [word])"
| "split_whitespace_from word (c # s) =
    (case find (\<lambda>w. w \<noteq> [] \<and> starts_with (c # s) w) whitespace of
       Some w \<Rightarrow> (if word = [] then [] else [word]) @ split_whitespace_from [] (drop (length w - 1) s)
     | None \<Rightarrow> split_whitespace_from (word @ [c]) s)"
  by pat_completeness auto
termination by (relation "measure (length o snd)") auto

definition split_whitespace :: "string \<Rightarrow> string list" where
  "split_whitespace s = split_whitespace_from [] s"

definition plain_char :: "char \<Rightarrow> bool" where
  "plain_char c \<longleftrightarrow> c \<notin> set (map hd whitespace)"

lemma whitespace_nonempty: "w \<in> set whitespace \<Longrightarrow> w \<noteq> []"
proof -
  have "list_all (\<lambda>w. w \<noteq> []) whitespace" by code_simp
  then show "w \<in> set whitespace \<Longrightarrow> w \<noteq> []" by (auto simp: list_all_iff)
qed

lemma split_plain:
  "\<forall>c\<in>set w. plain_char c \<Longrightarrow> split_whitespace_from word (w @ s) = split_whitespace_from (word @ w) s"
proof (induction w arbitrary: word)
  case (Cons c w)
  have "find (\<lambda>v. v \<noteq> [] \<and> starts_with (c # w @ s) v) whitespace = None"
    using Cons.prems by (auto simp: find_None_iff starts_with_iff plain_char_def image_iff) (metis list.sel(1) hd_append2)
  then show ?case using Cons by simp
qed simp

lemma split_space:
  "split_whitespace_from word (CHR '' '' # s) = (if word = [] then [] else [word]) @ split_whitespace_from [] s"
proof -
  have space: "'' '' \<in> set whitespace" and only: "list_all (\<lambda>w. hd w = CHR '' '' \<longrightarrow> w = '' '') whitespace"
    by code_simp+
  obtain v where v: "find (\<lambda>w. w \<noteq> [] \<and> starts_with (CHR '' '' # s) w) whitespace = Some v"
    using space by (cases "find (\<lambda>w. w \<noteq> [] \<and> starts_with (CHR '' '' # s) w) whitespace")
      (auto simp: find_None_iff starts_with_def)
  then have "v \<in> set whitespace" "v \<noteq> []" "starts_with (CHR '' '' # s) v"
    by (auto simp: find_Some_iff)
  moreover from this have "hd v = CHR '' ''"
    by (auto simp: starts_with_iff) (metis hd_append2 list.sel(1))
  ultimately have "v = '' ''"
    using only by (simp add: list_all_iff)
  then show ?thesis using v by simp
qed

lemma whitespace_heads:
  "remdups (map hd whitespace) = [CHR 0x09, CHR 0x0A, CHR 0x0B, CHR 0x0C, CHR 0x0D, CHR 0x20, CHR 0xC2, CHR 0xE1,
    CHR 0xE2, CHR 0xE3]"
  by code_simp

lemma plain_char_iff:
  "plain_char c \<longleftrightarrow> c \<notin> set [CHR 0x09, CHR 0x0A, CHR 0x0B, CHR 0x0C, CHR 0x0D, CHR 0x20, CHR 0xC2, CHR 0xE1,
    CHR 0xE2, CHR 0xE3]"
  using arg_cong [OF whitespace_heads, of set] unfolding set_remdups plain_char_def by simp

lemma trim_with_keeps:
  "c \<in> set s \<Longrightarrow> \<forall>w\<in>set ws. c \<notin> set w \<Longrightarrow> c \<in> set (trim_with ws s)"
proof (induction ws s rule: trim_with.induct)
  case (1 ws s)
  show ?case
  proof (cases "find (\<lambda>w. w \<noteq> [] \<and> starts_with s w) ws")
    case None
    with 1(2) show ?thesis by (subst trim_with.simps) simp
  next
    case (Some w)
    then have w: "w \<in> set ws" "starts_with s w" by (auto simp: find_Some_iff)
    then obtain t where t: "s = w @ t" by (auto simp: starts_with_iff)
    with 1(2,3) w(1) have "c \<in> set (drop (length w) s)" by auto
    with 1(1) [OF Some] 1(3) have "c \<in> set (trim_with ws (drop (length w) s))" by blast
    with Some show ?thesis by (subst trim_with.simps) simp
  qed
qed

lemma trim_nonempty: "CHR ''s'' \<in> set s \<Longrightarrow> trim s \<noteq> []"
proof -
  have ws: "\<forall>w\<in>set whitespace. CHR ''s'' \<notin> set w" by code_simp
  assume "CHR ''s'' \<in> set s"
  then have "CHR ''s'' \<in> set (trim_start s)" using ws by (simp add: trim_start_def trim_with_keeps)
  then have "CHR ''s'' \<in> set (trim s)"
    using trim_with_keeps [of "CHR ''s''" "rev (trim_start s)" "map rev whitespace"] ws by (simp add: trim_def trim_end_def)
  then show ?thesis by auto
qed

end
