(* ===== verification/Bridge.thy ===== *)
theory Bridge
  imports Frame_Codec Rust_Strings
begin

text \<open>
  The controller end of a tunnel (\<^verbatim>\<open>ssh-proxy/src/bridge.rs\<close>).  Every lock-protected section and every send of a task
  is one operation on the shared state \<open>BridgeInner\<close>, together with the local computation before it; what the
  environment decides (whether a receiver took a chunk in time, whether the transport failed) is an argument.  An \<^verbatim>\<open>mpsc\<close> channel is the list of
  everything sent on it and the number of items its receiver has taken.
\<close>

section \<open>Metrics\<close>

record BridgeMetricsSnapshot =
  frame_write_batches :: u64
  frame_write_flushes :: u64
  frame_write_frames :: u64
  frame_write_data_frames :: u64
  frame_write_data_bytes :: u64
  frame_write_vectored_writes :: u64
  frame_write_failures :: u64
  frame_read_frames :: u64
  frame_read_data_frames :: u64
  frame_read_data_bytes :: u64
  tcp_stream_backpressure_timeouts :: u64
  udp_assoc_backpressure_timeouts :: u64

text \<open>The live counters are atomics with the same fields; \<^verbatim>\<open>fetch_add\<close> wraps.\<close>

type_synonym BridgeMetrics = BridgeMetricsSnapshot

definition metrics_default :: BridgeMetrics where
  "metrics_default = \<lparr>frame_write_batches = 0, frame_write_flushes = 0, frame_write_frames = 0,
    frame_write_data_frames = 0, frame_write_data_bytes = 0, frame_write_vectored_writes = 0,
    frame_write_failures = 0, frame_read_frames = 0, frame_read_data_frames = 0,
    frame_read_data_bytes = 0, tcp_stream_backpressure_timeouts = 0, udp_assoc_backpressure_timeouts = 0\<rparr>"

definition metrics_merge :: "BridgeMetricsSnapshot \<Rightarrow> BridgeMetricsSnapshot \<Rightarrow> BridgeMetricsSnapshot" where
  "metrics_merge self other =
    \<lparr>frame_write_batches = frame_write_batches self + frame_write_batches other,
     frame_write_flushes = frame_write_flushes self + frame_write_flushes other,
     frame_write_frames = frame_write_frames self + frame_write_frames other,
     frame_write_data_frames = frame_write_data_frames self + frame_write_data_frames other,
     frame_write_data_bytes = frame_write_data_bytes self + frame_write_data_bytes other,
     frame_write_vectored_writes = frame_write_vectored_writes self + frame_write_vectored_writes other,
     frame_write_failures = frame_write_failures self + frame_write_failures other,
     frame_read_frames = frame_read_frames self + frame_read_frames other,
     frame_read_data_frames = frame_read_data_frames self + frame_read_data_frames other,
     frame_read_data_bytes = frame_read_data_bytes self + frame_read_data_bytes other,
     tcp_stream_backpressure_timeouts =
       tcp_stream_backpressure_timeouts self + tcp_stream_backpressure_timeouts other,
     udp_assoc_backpressure_timeouts =
       udp_assoc_backpressure_timeouts self + udp_assoc_backpressure_timeouts other\<rparr>"

definition record_write_batch :: "FrameWriteBatchStats \<Rightarrow> BridgeMetrics \<Rightarrow> BridgeMetrics" where
  "record_write_batch stats m =
    m\<lparr>frame_write_batches := frame_write_batches m + 1,
      frame_write_flushes := frame_write_flushes m + of_nat (flushes stats),
      frame_write_frames := frame_write_frames m + of_nat (frames_written stats),
      frame_write_data_frames := frame_write_data_frames m + of_nat (data_frames_written stats),
      frame_write_data_bytes := frame_write_data_bytes m + of_nat (data_bytes_written stats),
      frame_write_vectored_writes := frame_write_vectored_writes m + of_nat (vectored_writes stats)\<rparr>"

definition record_write_failure :: "BridgeMetrics \<Rightarrow> BridgeMetrics" where
  "record_write_failure m = m\<lparr>frame_write_failures := frame_write_failures m + 1\<rparr>"

definition record_read_frame :: "frame \<Rightarrow> BridgeMetrics \<Rightarrow> BridgeMetrics" where
  "record_read_frame f m =
    (let m = m\<lparr>frame_read_frames := frame_read_frames m + 1\<rparr> in
     case f of
       Data _ d \<Rightarrow> m\<lparr>frame_read_data_frames := frame_read_data_frames m + 1,
         frame_read_data_bytes := frame_read_data_bytes m + of_nat (length d)\<rparr>
     | _ \<Rightarrow> m)"

definition record_tcp_backpressure_timeout :: "BridgeMetrics \<Rightarrow> BridgeMetrics" where
  "record_tcp_backpressure_timeout m =
    m\<lparr>tcp_stream_backpressure_timeouts := tcp_stream_backpressure_timeouts m + 1\<rparr>"

definition record_udp_backpressure_timeout :: "BridgeMetrics \<Rightarrow> BridgeMetrics" where
  "record_udp_backpressure_timeout m =
    m\<lparr>udp_assoc_backpressure_timeouts := udp_assoc_backpressure_timeouts m + 1\<rparr>"

definition metrics_snapshot :: "BridgeMetrics \<Rightarrow> BridgeMetricsSnapshot" where
  "metrics_snapshot m =
    \<lparr>frame_write_batches = frame_write_batches m, frame_write_flushes = frame_write_flushes m,
     frame_write_frames = frame_write_frames m, frame_write_data_frames = frame_write_data_frames m,
     frame_write_data_bytes = frame_write_data_bytes m,
     frame_write_vectored_writes = frame_write_vectored_writes m,
     frame_write_failures = frame_write_failures m, frame_read_frames = frame_read_frames m,
     frame_read_data_frames = frame_read_data_frames m, frame_read_data_bytes = frame_read_data_bytes m,
     tcp_stream_backpressure_timeouts = tcp_stream_backpressure_timeouts m,
     udp_assoc_backpressure_timeouts = udp_assoc_backpressure_timeouts m\<rparr>"

section \<open>Shared state\<close>

record UdpDatagram =
  dg_host :: string
  dg_port :: u16
  dg_data :: "byte list"

definition TCP_STREAM_BACKPRESSURE_SECS :: nat where
  "TCP_STREAM_BACKPRESSURE_SECS = 30"

definition UDP_ASSOC_BACKPRESSURE_SECS :: nat where
  "UDP_ASSOC_BACKPRESSURE_SECS = 10"

text \<open>
  The maps from stream ids to senders are the sets of registered ids; the channel of an id holds what was
  sent on it (\<open>chan\<close>) and how much of it its receiver took (\<open>read\<close>).  \<open>answers\<close> are the one-shot channels
  the openers wait on.  \<open>busy\<close> is the frame the reader task is delivering, \<open>todo\<close> what it has left to do for the frame
  in hand: every entry is a lock-protected section or a send of its own.
\<close>

datatype reader_work =
    RemoveUdp u32
  | ResolvePending u32 string
  | CloseBack u32 string

record BridgeInner =
  writer :: "frame list"
  writer_alive :: bool
  next_id :: u32
  pending_tcp :: "u32 set"
  answers :: "u32 \<Rightarrow> (string, unit) result option"
  tcp_streams :: "u32 set"
  tcp_chan :: "u32 \<Rightarrow> byte list list"
  tcp_read :: "u32 \<Rightarrow> nat"
  udp_streams :: "u32 set"
  udp_chan :: "u32 \<Rightarrow> UdpDatagram list"
  udp_read :: "u32 \<Rightarrow> nat"
  busy :: "frame option"
  todo :: "reader_work list"
  reader_alive :: bool
  metrics :: BridgeMetrics

definition bridge_new :: BridgeInner where
  "bridge_new = \<lparr>writer = [], writer_alive = True, next_id = 1, pending_tcp = {}, answers = (\<lambda>_. None),
    tcp_streams = {}, tcp_chan = (\<lambda>_. []), tcp_read = (\<lambda>_. 0), udp_streams = {}, udp_chan = (\<lambda>_. []),
    udp_read = (\<lambda>_. 0), busy = None, todo = [], reader_alive = True, metrics = metrics_default\<rparr>"

text \<open>A send on the frame channel: it waits for room, and fails once the writer task is gone.\<close>

definition can_send :: "BridgeInner \<Rightarrow> bool" where
  "can_send b \<longleftrightarrow> \<not> writer_alive b \<or> length (writer b) < FRAME_CHANNEL_CAPACITY"

definition writer_send :: "frame \<Rightarrow> BridgeInner \<Rightarrow> BridgeInner" where
  "writer_send f b = (if writer_alive b then b\<lparr>writer := writer b @ [f]\<rparr> else b)"

section \<open>Opening a stream\<close>

datatype open_error =
    BridgeUnavailable
  | BridgeClosedBeforeConnect
  | OpenTimedOut
  | OpenRefused string

definition alloc_id :: "BridgeInner \<Rightarrow> u32 \<times> BridgeInner" where
  "alloc_id b = (next_id b, b\<lparr>next_id := next_id b + 1\<rparr>)"

definition insert_pending :: "u32 \<Rightarrow> BridgeInner \<Rightarrow> BridgeInner" where
  "insert_pending sid b = b\<lparr>pending_tcp := insert sid (pending_tcp b), answers := (answers b)(sid := None)\<rparr>"

definition insert_tcp :: "u32 \<Rightarrow> BridgeInner \<Rightarrow> BridgeInner" where
  "insert_tcp sid b =
    b\<lparr>tcp_streams := insert sid (tcp_streams b), tcp_chan := (tcp_chan b)(sid := []),
      tcp_read := (tcp_read b)(sid := 0)\<rparr>"

text \<open>
  An open that fails removes its two entries under two locks: first the pending one and then the stream when the request
  could not be sent or timed out, in the other order when it was refused.  The operations below end with the first.
\<close>

definition forget_pending :: "u32 \<Rightarrow> BridgeInner \<Rightarrow> BridgeInner" where
  "forget_pending sid b = b\<lparr>pending_tcp := pending_tcp b - {sid}\<rparr>"

definition forget_stream :: "u32 \<Rightarrow> BridgeInner \<Rightarrow> BridgeInner" where
  "forget_stream sid b = b\<lparr>tcp_streams := tcp_streams b - {sid}\<rparr>"

definition send_open ::
  "u32 \<Rightarrow> string \<Rightarrow> u16 \<Rightarrow> string option \<Rightarrow> BridgeInner \<Rightarrow> BridgeInner \<times> (open_error, unit) result" where
  "send_open sid host port egress_proxy b =
    (if writer_alive b then (writer_send (OpenTcp sid host port egress_proxy) b, Inr ())
     else (forget_pending sid b, Inl BridgeUnavailable))"

definition open_timed_out :: "u32 \<Rightarrow> BridgeInner \<Rightarrow> BridgeInner \<times> (open_error, u32) result" where
  "open_timed_out sid b = (forget_pending sid b, Inl OpenTimedOut)"

text \<open>The one-shot channel resolved: an answer, or the sender was dropped without one.\<close>

definition open_resolved :: "u32 \<Rightarrow> BridgeInner \<Rightarrow> (BridgeInner \<times> (open_error, u32) result) option" where
  "open_resolved sid b =
    (case answers b sid of
       Some (Inr _) \<Rightarrow> Some (b, Inr sid)
     | Some (Inl message) \<Rightarrow> Some (forget_stream sid b, Inl (OpenRefused message))
     | None \<Rightarrow> if sid \<in> pending_tcp b then None else Some (b, Inl BridgeClosedBeforeConnect))"

section \<open>The other operations of a handle\<close>

definition send_data :: "u32 \<Rightarrow> byte list \<Rightarrow> BridgeInner \<Rightarrow> BridgeInner \<times> bool" where
  "send_data sid d b = (writer_send (Data sid d) b, writer_alive b)"

text \<open>\<^verbatim>\<open>close\<close> sends first and then removes the stream; \<^verbatim>\<open>unregister_udp\<close> removes first and then sends.\<close>

definition close_send :: "u32 \<Rightarrow> string \<Rightarrow> BridgeInner \<Rightarrow> BridgeInner" where
  "close_send sid reason b = writer_send (Close sid reason) b"

definition close_remove :: "u32 \<Rightarrow> BridgeInner \<Rightarrow> BridgeInner" where
  "close_remove sid b = b\<lparr>tcp_streams := tcp_streams b - {sid}\<rparr>"

definition insert_udp :: "u32 \<Rightarrow> BridgeInner \<Rightarrow> BridgeInner" where
  "insert_udp sid b =
    b\<lparr>udp_streams := insert sid (udp_streams b), udp_chan := (udp_chan b)(sid := []), udp_read := (udp_read b)(sid := 0)\<rparr>"

definition send_udp :: "u32 \<Rightarrow> UdpDatagram \<Rightarrow> BridgeInner \<Rightarrow> BridgeInner \<times> bool" where
  "send_udp sid dg b =
    (writer_send (UdpPacket sid (dg_host dg) (dg_port dg) (dg_data dg)) b, writer_alive b)"

definition unregister_remove :: "u32 \<Rightarrow> BridgeInner \<Rightarrow> BridgeInner" where
  "unregister_remove sid b = b\<lparr>udp_streams := udp_streams b - {sid}\<rparr>"

definition unregister_send :: "u32 \<Rightarrow> BridgeInner \<Rightarrow> BridgeInner" where
  "unregister_send sid b = writer_send (Close sid ''udp association closed'') b"

definition send_log :: "string \<Rightarrow> BridgeInner \<Rightarrow> BridgeInner" where
  "send_log message b = writer_send (Log message) b"

section \<open>The reader task\<close>

definition answer_open :: "u32 \<Rightarrow> (string, unit) result \<Rightarrow> BridgeInner \<Rightarrow> BridgeInner" where
  "answer_open sid r b =
    (if sid \<in> pending_tcp b
     then b\<lparr>pending_tcp := pending_tcp b - {sid}, answers := (answers b)(sid \<mapsto> r)\<rparr> else b)"

text \<open>
  Taking a frame, up to the first lock-protected section: for a payload the sender of its stream is looked up (\<open>busy\<close>) and
  the payload is sent by \<open>reader_deliver\<close>, possibly after other tasks have run; a \<open>Close\<close> removes the TCP stream and
  leaves the UDP association and the pending open for later.
\<close>

definition reader_take :: "frame \<Rightarrow> BridgeInner \<Rightarrow> BridgeInner" where
  "reader_take f b =
    (let b = b\<lparr>metrics := record_read_frame f (metrics b)\<rparr> in
     case f of
       OpenTcpResult sid ok message \<Rightarrow> answer_open sid (if ok then Inr () else Inl message) b
     | Data sid d \<Rightarrow> if sid \<in> tcp_streams b then b\<lparr>busy := Some f\<rparr> else b
     | UdpPacket sid host port d \<Rightarrow> if sid \<in> udp_streams b then b\<lparr>busy := Some f\<rparr> else b
     | Close sid reason \<Rightarrow>
         b\<lparr>tcp_streams := tcp_streams b - {sid}, todo := [RemoveUdp sid, ResolvePending sid reason]\<rparr>
     | Log message \<Rightarrow> b
     | OpenTcp sid host port egress_proxy \<Rightarrow> b)"

datatype delivery = Delivered | ReceiverGone | TimedOut

definition backpressure_reason :: "string \<Rightarrow> nat \<Rightarrow> string" where
  "backpressure_reason who secs = who @ '' backpressure timed out after '' @ show_nat secs @ ''s''"

definition reader_deliver :: "delivery \<Rightarrow> BridgeInner \<Rightarrow> BridgeInner" where
  "reader_deliver outcome b0 =
    (let b = b0\<lparr>busy := None\<rparr> in
     case busy b0 of
       Some (Data sid d) \<Rightarrow>
         (case outcome of
            Delivered \<Rightarrow> b\<lparr>tcp_chan := (tcp_chan b)(sid := tcp_chan b sid @ [d])\<rparr>
          | ReceiverGone \<Rightarrow> b\<lparr>tcp_streams := tcp_streams b - {sid}\<rparr>
          | TimedOut \<Rightarrow>
              b\<lparr>metrics := record_tcp_backpressure_timeout (metrics b), tcp_streams := tcp_streams b - {sid},
                todo := [CloseBack sid (backpressure_reason ''local receiver'' TCP_STREAM_BACKPRESSURE_SECS)]\<rparr>)
     | Some (UdpPacket sid host port d) \<Rightarrow>
         (case outcome of
            Delivered \<Rightarrow> b\<lparr>udp_chan := (udp_chan b)(sid :=
              udp_chan b sid @ [\<lparr>dg_host = host, dg_port = port, dg_data = d\<rparr>])\<rparr>
          | ReceiverGone \<Rightarrow> b\<lparr>udp_streams := udp_streams b - {sid}\<rparr>
          | TimedOut \<Rightarrow>
              b\<lparr>metrics := record_udp_backpressure_timeout (metrics b), udp_streams := udp_streams b - {sid},
                todo := [CloseBack sid (backpressure_reason ''local UDP receiver'' UDP_ASSOC_BACKPRESSURE_SECS)]\<rparr>)
     | _ \<Rightarrow> b)"

text \<open>The next thing left to do for the frame in hand.\<close>

definition reader_continue :: "BridgeInner \<Rightarrow> BridgeInner" where
  "reader_continue b =
    (case todo b of
       [] \<Rightarrow> b
     | w # ws \<Rightarrow>
         (let b = b\<lparr>todo := ws\<rparr> in
          case w of
            RemoveUdp sid \<Rightarrow> b\<lparr>udp_streams := udp_streams b - {sid}\<rparr>
          | ResolvePending sid reason \<Rightarrow> answer_open sid (Inl reason) b
          | CloseBack sid reason \<Rightarrow> writer_send (Close sid reason) b))"

definition work_sends :: "reader_work \<Rightarrow> bool" where
  "work_sends w = (case w of CloseBack sid reason \<Rightarrow> True | _ \<Rightarrow> False)"

text \<open>Room in the channel of the stream the reader is delivering to.\<close>

definition deliver_room :: "BridgeInner \<Rightarrow> bool" where
  "deliver_room b =
    (case busy b of
       Some (Data sid d) \<Rightarrow> length (tcp_chan b sid) - tcp_read b sid < TCP_STREAM_CHANNEL_CAPACITY
     | Some (UdpPacket sid host port d) \<Rightarrow>
         length (udp_chan b sid) - udp_read b sid < TCP_STREAM_CHANNEL_CAPACITY
     | _ \<Rightarrow> True)"

section \<open>The writer task and the end of a bridge\<close>

definition writer_step :: "BridgeInner \<Rightarrow> (frame \<times> BridgeInner) option" where
  "writer_step b =
    (case writer b of
       [] \<Rightarrow> None
     | f # fs \<Rightarrow> if writer_alive b then Some (f, b\<lparr>writer := fs\<rparr>) else None)"

definition writer_fails :: "BridgeInner \<Rightarrow> BridgeInner" where
  "writer_fails b = b\<lparr>writer_alive := False, metrics := record_write_failure (metrics b)\<rparr>"

text \<open>The lifecycle task, once the reader has stopped: drain, clear, clear, abort, each under its own lock.\<close>

definition reader_stops :: "BridgeInner \<Rightarrow> BridgeInner" where
  "reader_stops b = b\<lparr>reader_alive := False, busy := None, todo := []\<rparr>"

definition lifecycle_drain :: "BridgeInner \<Rightarrow> BridgeInner" where
  "lifecycle_drain b =
    b\<lparr>answers := (\<lambda>sid. if sid \<in> pending_tcp b then Some (Inl ''remote bridge closed'') else answers b sid),
      pending_tcp := {}\<rparr>"

definition lifecycle_clear_tcp :: "BridgeInner \<Rightarrow> BridgeInner" where
  "lifecycle_clear_tcp b = b\<lparr>tcp_streams := {}\<rparr>"

definition lifecycle_clear_udp :: "BridgeInner \<Rightarrow> BridgeInner" where
  "lifecycle_clear_udp b = b\<lparr>udp_streams := {}\<rparr>"

definition lifecycle_abort :: "BridgeInner \<Rightarrow> BridgeInner" where
  "lifecycle_abort b = b\<lparr>writer_alive := False\<rparr>"

lemmas bridge_defs = alloc_id_def insert_pending_def insert_tcp_def forget_pending_def forget_stream_def send_open_def
  open_timed_out_def open_resolved_def send_data_def close_send_def close_remove_def insert_udp_def send_udp_def
  unregister_remove_def unregister_send_def send_log_def answer_open_def reader_take_def reader_deliver_def
  reader_continue_def writer_step_def writer_fails_def reader_stops_def lifecycle_drain_def lifecycle_clear_tcp_def
  lifecycle_clear_udp_def lifecycle_abort_def writer_send_def Let_def

end
