(* ===== verification/Remote_Helper.thy ===== *)
theory Remote_Helper
  imports Bridge
begin

text \<open>
  The far end of a tunnel (\<^verbatim>\<open>ssh-proxy/src/remote.rs\<close>): the transport loop, the task of each opened TCP
  stream and the token check.  Connecting to a target (\<^verbatim>\<open>egress::connect_tcp\<close>) and the sockets are
  decided by the environment and are arguments of the operations.
\<close>

section \<open>The token check\<close>

datatype auth_error = AuthTimedOut | AuthIo io_error | InvalidToken

definition verify_token :: "bool \<Rightarrow> reader \<Rightarrow> string option \<Rightarrow> (auth_error, reader) result" where
  "verify_token timed_out stream expected =
    (case expected of
       None \<Rightarrow> Inr stream
     | Some token \<Rightarrow>
         if timed_out then Inl AuthTimedOut
         else (case read_exact 2 stream of
            Inl e \<Rightarrow> Inl (AuthIo e)
          | Inr (len, stream) \<Rightarrow>
              (case read_exact (unat (u16_from_be len)) stream of
                 Inl e \<Rightarrow> Inl (AuthIo e)
               | Inr (got, stream) \<Rightarrow>
                   if got \<noteq> as_bytes token then Inl InvalidToken else Inr stream)))"

section \<open>The state of a transport\<close>

text \<open>The control state of the task of one opened stream (\<^verbatim>\<open>handle_open_tcp\<close>).\<close>

datatype open_task =
    Connecting string u16 "string option"
  | Announcing
  | Relaying
  | Ending
  | Closing
  | Refusing string
  | Finished

record remote_state =
  r_writer :: "frame list"
  r_writer_alive :: bool
  r_default_egress :: "string option"
  r_tasks :: "u32 \<Rightarrow> open_task option"
  r_tcp :: "u32 set"
  r_tcp_chan :: "u32 \<Rightarrow> byte list list"
  r_tcp_read :: "u32 \<Rightarrow> nat"
  r_udp :: "u32 set"
  r_udp_chan :: "u32 \<Rightarrow> UdpDatagram list"
  r_udp_read :: "u32 \<Rightarrow> nat"
  r_busy :: "frame option"
  r_todo :: "reader_work list"
  r_reader_alive :: bool

definition remote_new :: "string option \<Rightarrow> remote_state" where
  "remote_new default_egress_proxy =
    \<lparr>r_writer = [], r_writer_alive = True, r_default_egress = default_egress_proxy, r_tasks = (\<lambda>_. None),
     r_tcp = {}, r_tcp_chan = (\<lambda>_. []), r_tcp_read = (\<lambda>_. 0), r_udp = {}, r_udp_chan = (\<lambda>_. []),
     r_udp_read = (\<lambda>_. 0), r_busy = None, r_todo = [], r_reader_alive = True\<rparr>"

definition r_can_send :: "remote_state \<Rightarrow> bool" where
  "r_can_send r \<longleftrightarrow> \<not> r_writer_alive r \<or> length (r_writer r) < FRAME_CHANNEL_CAPACITY"

definition r_send :: "frame \<Rightarrow> remote_state \<Rightarrow> remote_state" where
  "r_send f r = (if r_writer_alive r then r\<lparr>r_writer := r_writer r @ [f]\<rparr> else r)"

section \<open>The transport loop\<close>

definition r_take :: "frame \<Rightarrow> remote_state \<Rightarrow> remote_state" where
  "r_take f r =
    (case f of
       OpenTcp sid host port egress_proxy \<Rightarrow>
         r\<lparr>r_tasks := (r_tasks r)(sid \<mapsto>
           Connecting host port (case egress_proxy of Some p \<Rightarrow> Some p | None \<Rightarrow> r_default_egress r))\<rparr>
     | Data sid d \<Rightarrow> if sid \<in> r_tcp r then r\<lparr>r_busy := Some f\<rparr> else r
     | Close sid reason \<Rightarrow> r\<lparr>r_tcp := r_tcp r - {sid}, r_todo := [RemoveUdp sid]\<rparr>
     | UdpPacket sid host port d \<Rightarrow>
         if sid \<in> r_udp r then r\<lparr>r_busy := Some f\<rparr>
         else r\<lparr>r_udp := insert sid (r_udp r), r_udp_chan := (r_udp_chan r)(sid := []),
                r_udp_read := (r_udp_read r)(sid := 0), r_busy := Some f\<rparr>
     | Log message \<Rightarrow> r
     | OpenTcpResult sid ok message \<Rightarrow> r)"

definition r_deliver :: "delivery \<Rightarrow> remote_state \<Rightarrow> remote_state" where
  "r_deliver outcome r0 =
    (let r = r0\<lparr>r_busy := None\<rparr> in
     case r_busy r0 of
       Some (Data sid d) \<Rightarrow>
         (case outcome of
            Delivered \<Rightarrow> r\<lparr>r_tcp_chan := (r_tcp_chan r)(sid := r_tcp_chan r sid @ [d])\<rparr>
          | ReceiverGone \<Rightarrow> r\<lparr>r_tcp := r_tcp r - {sid}\<rparr>
          | TimedOut \<Rightarrow>
              r\<lparr>r_tcp := r_tcp r - {sid},
                r_todo := [CloseBack sid (backpressure_reason ''remote receiver'' TCP_STREAM_BACKPRESSURE_SECS)]\<rparr>)
     | Some (UdpPacket sid host port d) \<Rightarrow>
         (case outcome of
            Delivered \<Rightarrow> r\<lparr>r_udp_chan := (r_udp_chan r)(sid :=
              r_udp_chan r sid @ [\<lparr>dg_host = host, dg_port = port, dg_data = d\<rparr>])\<rparr>
          | ReceiverGone \<Rightarrow> r\<lparr>r_udp := r_udp r - {sid}\<rparr>
          | TimedOut \<Rightarrow>
              r\<lparr>r_udp := r_udp r - {sid},
                r_todo := [CloseBack sid (backpressure_reason ''remote UDP receiver'' UDP_ASSOC_BACKPRESSURE_SECS)]\<rparr>)
     | _ \<Rightarrow> r)"

text \<open>The next thing left to do for the frame in hand; the loop never has a pending open to resolve.\<close>

definition r_continue :: "remote_state \<Rightarrow> remote_state" where
  "r_continue r =
    (case r_todo r of
       [] \<Rightarrow> r
     | w # ws \<Rightarrow>
         (let r = r\<lparr>r_todo := ws\<rparr> in
          case w of
            RemoveUdp sid \<Rightarrow> r\<lparr>r_udp := r_udp r - {sid}\<rparr>
          | CloseBack sid reason \<Rightarrow> r_send (Close sid reason) r
          | ResolvePending sid reason \<Rightarrow> r))"

definition r_deliver_room :: "remote_state \<Rightarrow> bool" where
  "r_deliver_room r =
    (case r_busy r of
       Some (Data sid d) \<Rightarrow> length (r_tcp_chan r sid) - r_tcp_read r sid < TCP_STREAM_CHANNEL_CAPACITY
     | Some (UdpPacket sid host port d) \<Rightarrow>
         length (r_udp_chan r sid) - r_udp_read r sid < TCP_STREAM_CHANNEL_CAPACITY
     | _ \<Rightarrow> True)"

section \<open>The task of an opened stream\<close>

definition set_task :: "u32 \<Rightarrow> open_task \<Rightarrow> remote_state \<Rightarrow> remote_state" where
  "set_task sid t r = r\<lparr>r_tasks := (r_tasks r)(sid \<mapsto> t)\<rparr>"

text \<open>
  The steps of \<^verbatim>\<open>handle_open_tcp\<close>: the connection succeeded, which registers the stream, or failed; the
  result is announced; a chunk read from the target is sent; a chunk of the channel is written to the
  target; one of the two directions ended; the stream is removed; the close is sent.
\<close>

datatype task_event =
    Connected
  | ConnectFailed string
  | SendResult
  | TargetChunk "byte list"
  | WriteChunk
  | DirectionEnded
  | RemoveStream
  | SendClose

definition handle_open_tcp :: "u32 \<Rightarrow> task_event \<Rightarrow> remote_state \<Rightarrow> remote_state option" where
  "handle_open_tcp sid ev r =
    (case ev of
       Connected \<Rightarrow>
         (case r_tasks r sid of
            Some (Connecting host port proxy) \<Rightarrow>
              Some (set_task sid Announcing
                (r\<lparr>r_tcp := insert sid (r_tcp r), r_tcp_chan := (r_tcp_chan r)(sid := []),
                   r_tcp_read := (r_tcp_read r)(sid := 0)\<rparr>))
          | _ \<Rightarrow> None)
     | ConnectFailed message \<Rightarrow>
         (case r_tasks r sid of
            Some (Connecting host port proxy) \<Rightarrow> Some (set_task sid (Refusing message) r)
          | _ \<Rightarrow> None)
     | SendResult \<Rightarrow>
         (case r_tasks r sid of
            Some (Refusing message) \<Rightarrow>
              Some (set_task sid Finished (r_send (OpenTcpResult sid False message) r))
          | Some Announcing \<Rightarrow> Some (set_task sid Relaying (r_send (OpenTcpResult sid True []) r))
          | _ \<Rightarrow> None)
     | TargetChunk d \<Rightarrow>
         if r_tasks r sid = Some Relaying \<and> d \<noteq> [] then Some (r_send (Data sid d) r) else None
     | WriteChunk \<Rightarrow>
         if r_tasks r sid = Some Relaying \<and> r_tcp_read r sid < length (r_tcp_chan r sid)
         then Some (r\<lparr>r_tcp_read := (r_tcp_read r)(sid := r_tcp_read r sid + 1)\<rparr>) else None
     | DirectionEnded \<Rightarrow>
         if r_tasks r sid = Some Relaying then Some (set_task sid Ending r) else None
     | RemoveStream \<Rightarrow>
         if r_tasks r sid = Some Ending
         then Some (set_task sid Closing (r\<lparr>r_tcp := r_tcp r - {sid}\<rparr>)) else None
     | SendClose \<Rightarrow>
         if r_tasks r sid = Some Closing
         then Some (set_task sid Finished (r_send (Close sid ''tcp closed'') r)) else None)"

definition r_writer_step :: "remote_state \<Rightarrow> (frame \<times> remote_state) option" where
  "r_writer_step r =
    (case r_writer r of
       [] \<Rightarrow> None
     | f # fs \<Rightarrow> if r_writer_alive r then Some (f, r\<lparr>r_writer := fs\<rparr>) else None)"

definition r_writer_stops :: "remote_state \<Rightarrow> remote_state" where
  "r_writer_stops r = r\<lparr>r_writer_alive := False\<rparr>"

definition r_reader_stops :: "remote_state \<Rightarrow> remote_state" where
  "r_reader_stops r = r\<lparr>r_reader_alive := False, r_busy := None, r_todo := []\<rparr>"

section \<open>UDP associations\<close>

text \<open>
  The association task of an id (\<^verbatim>\<open>spawn_udp_assoc\<close>): its socket could not be bound; a datagram arrived;
  the next packet of the channel was sent.
\<close>

datatype udp_event = BindFailed string | Received string u16 "byte list" | SendPacket

definition spawn_udp_assoc :: "u32 \<Rightarrow> udp_event \<Rightarrow> remote_state \<Rightarrow> remote_state option" where
  "spawn_udp_assoc sid ev r =
    (case ev of
       BindFailed err \<Rightarrow> Some (r_send (Close sid (''udp bind failed: '' @ err)) r)
     | Received host port d \<Rightarrow> Some (r_send (UdpPacket sid host port d) r)
     | SendPacket \<Rightarrow>
         if r_udp_read r sid < length (r_udp_chan r sid)
         then Some (r\<lparr>r_udp_read := (r_udp_read r)(sid := r_udp_read r sid + 1)\<rparr>) else None)"

lemmas remote_defs = r_take_def r_deliver_def r_continue_def handle_open_tcp_def set_task_def r_writer_step_def
  r_writer_stops_def r_reader_stops_def spawn_udp_assoc_def r_send_def Let_def

section \<open>Who passes the token check\<close>

lemma verify_token_Inr:
  "verify_token False rd (Some token) = Inr rd' \<longleftrightarrow>
    (\<exists>len rd1. read_exact 2 rd = Inr (len, rd1) \<and> read_exact (unat (u16_from_be len)) rd1 = Inr (as_bytes token, rd'))"
  by (auto simp: verify_token_def split: sum.splits if_splits)

text \<open>
  C36. A connection passes the token check exactly when it starts with the length of the expected token as two
  big-endian bytes followed by the token itself, and what follows is left for the transport.  A token of
  65536 bytes or more admits nobody.
\<close>

theorem token_check_exact:
  "(\<exists>rd'. verify_token False rd (Some token) = Inr rd' \<and> flat rd' = rest) \<longleftrightarrow>
    length token \<le> 65535 \<and> flat rd = u16_to_be (word_of_nat (length token)) @ as_bytes token @ rest"
  (is "?l \<longleftrightarrow> ?r")
proof
  assume ?l
  then obtain rd' len rd1 where len: "read_exact 2 rd = Inr (len, rd1)"
    and tok: "read_exact (unat (u16_from_be len)) rd1 = Inr (as_bytes token, rd')" and rest: "flat rd' = rest"
    by (auto simp: verify_token_Inr)
  have "flat rd = len @ flat rd1" "length len = 2"
    using read_exact_Inr_iff [of 2 rd len "flat rd1"] len by auto
  moreover have "flat rd1 = as_bytes token @ rest" "length token = unat (u16_from_be len)"
    using read_exact_Inr_iff [of "unat (u16_from_be len)" rd1 "as_bytes token" rest] tok rest by auto
  moreover have "unat (u16_from_be len) < 2 ^ 16"
    using unat_less [of "u16_from_be len"] by simp
  ultimately show ?r
    by (simp add: u16_field.put_get)
next
  assume r: ?r
  obtain rd1 where rd1: "read_exact 2 rd = Inr (u16_to_be (word_of_nat (length token)), rd1)"
      "flat rd1 = as_bytes token @ rest"
    using r read_exact_Inr_iff [of 2 rd "u16_to_be (word_of_nat (length token))" "as_bytes token @ rest"] by auto
  moreover obtain rd' where "read_exact (length token) rd1 = Inr (as_bytes token, rd')" "flat rd' = rest"
    using rd1(2) read_exact_Inr_iff [of "length token" rd1 "as_bytes token" rest] by auto
  ultimately show ?l
    using r by (auto simp: verify_token_Inr)
qed

end
