(* ===== verification/Tunnel.thy ===== *)
theory Tunnel
  imports Remote_Helper "HOL-Library.Sublist"
begin

text \<open>
  A controller and a remote helper joined by a transport that keeps the order of frames in each direction
  (the codec of \<open>Frame_Stream\<close> carries them over any byte stream).  The tasks of both ends interleave
  arbitrarily; the steps are the operations of \<open>Bridge\<close> and \<open>Remote_Helper\<close>.  \<open>client_out\<close> and
  \<open>target_out\<close> are what the two applications hand to the tunnel.
\<close>

section \<open>The composed system\<close>

text \<open>
  The control state of an \<^verbatim>\<open>open_tcp\<close> call.  Between the two removals of a failed one it is \<open>DropStream\<close> or \<open>DropPending\<close>.
\<close>

datatype open_phase =
    Allocated
  | PendingIn
  | StreamIn
  | Waiting
  | Opened
  | DropStream open_error
  | DropPending open_error
  | OpenFailed open_error

text \<open>
  \<open>closing\<close> and \<open>unregistering\<close> count the calls of \<^verbatim>\<open>close\<close> and \<^verbatim>\<open>unregister_udp\<close> that are between their two steps,
  \<open>registering\<close> holds the ids taken by \<^verbatim>\<open>register_udp\<close> and not inserted yet.
\<close>

record tunnel =
  ctl :: BridgeInner
  rem :: remote_state
  c2r :: "frame list"
  r2c :: "frame list"
  calls :: "u32 \<Rightarrow> open_phase option"
  targets :: "u32 \<Rightarrow> string \<times> u16 \<times> string option"
  allocs :: nat
  closing :: "u32 \<Rightarrow> nat"
  registering :: "u32 set"
  unregistering :: "u32 \<Rightarrow> nat"
  client_out :: "u32 \<Rightarrow> byte list list"
  target_out :: "u32 \<Rightarrow> byte list list"

definition tunnel_new :: "string option \<Rightarrow> tunnel" where
  "tunnel_new default_egress_proxy =
    \<lparr>ctl = bridge_new, rem = remote_new default_egress_proxy, c2r = [], r2c = [], calls = (\<lambda>_. None),
     targets = (\<lambda>_. ([], 0, None)), allocs = 0, closing = (\<lambda>_. 0), registering = {}, unregistering = (\<lambda>_. 0),
     client_out = (\<lambda>_. []), target_out = (\<lambda>_. [])\<rparr>"

definition set_call :: "u32 \<Rightarrow> open_phase \<Rightarrow> tunnel \<Rightarrow> tunnel" where
  "set_call sid p s = s\<lparr>calls := (calls s)(sid \<mapsto> p)\<rparr>"

text \<open>After the answer: a refused open goes on to remove its pending entry, a dropped one-shot channel ends it at once.\<close>

fun open_result_phase :: "(open_error, u32) result \<Rightarrow> open_phase" where
  "open_result_phase (Inr _) = Opened"
| "open_result_phase (Inl (OpenRefused message)) = DropPending (OpenRefused message)"
| "open_result_phase (Inl e) = OpenFailed e"

definition task_sends :: "task_event \<Rightarrow> bool" where
  "task_sends ev = (case ev of SendResult \<Rightarrow> True | TargetChunk _ \<Rightarrow> True | SendClose \<Rightarrow> True | _ \<Rightarrow> False)"

inductive tunnel_step :: "tunnel \<Rightarrow> tunnel \<Rightarrow> bool" where
  open_begin: "alloc_id (ctl s) = (sid, b) \<Longrightarrow>
    tunnel_step s (set_call sid Allocated
      (s\<lparr>ctl := b, allocs := allocs s + 1, targets := (targets s)(sid := tgt)\<rparr>))"
| open_pending: "calls s sid = Some Allocated \<Longrightarrow>
    tunnel_step s (set_call sid PendingIn (s\<lparr>ctl := insert_pending sid (ctl s)\<rparr>))"
| open_stream: "calls s sid = Some PendingIn \<Longrightarrow>
    tunnel_step s (set_call sid StreamIn (s\<lparr>ctl := insert_tcp sid (ctl s)\<rparr>))"
| open_sent: "calls s sid = Some StreamIn \<Longrightarrow> can_send (ctl s) \<Longrightarrow> targets s sid = (host, port, proxy) \<Longrightarrow>
    send_open sid host port proxy (ctl s) = (b, Inr ()) \<Longrightarrow>
    tunnel_step s (set_call sid Waiting (s\<lparr>ctl := b\<rparr>))"
| open_unsent: "calls s sid = Some StreamIn \<Longrightarrow> targets s sid = (host, port, proxy) \<Longrightarrow>
    send_open sid host port proxy (ctl s) = (b, Inl e) \<Longrightarrow>
    tunnel_step s (set_call sid (DropStream e) (s\<lparr>ctl := b\<rparr>))"
| open_timeout: "calls s sid = Some Waiting \<Longrightarrow> open_timed_out sid (ctl s) = (b, Inl e) \<Longrightarrow>
    tunnel_step s (set_call sid (DropStream e) (s\<lparr>ctl := b\<rparr>))"
| open_drop_stream: "calls s sid = Some (DropStream e) \<Longrightarrow>
    tunnel_step s (set_call sid (OpenFailed e) (s\<lparr>ctl := forget_stream sid (ctl s)\<rparr>))"
| open_drop_pending: "calls s sid = Some (DropPending e) \<Longrightarrow>
    tunnel_step s (set_call sid (OpenFailed e) (s\<lparr>ctl := forget_pending sid (ctl s)\<rparr>))"
| open_done: "calls s sid = Some Waiting \<Longrightarrow> open_resolved sid (ctl s) = Some (b, res) \<Longrightarrow>
    tunnel_step s (set_call sid (open_result_phase res) (s\<lparr>ctl := b\<rparr>))"
| client_sends: "calls s sid = Some Opened \<Longrightarrow> can_send (ctl s) \<Longrightarrow> send_data sid d (ctl s) = (b, ok) \<Longrightarrow>
    tunnel_step s (s\<lparr>ctl := b, client_out := (client_out s)(sid := client_out s sid @ [d])\<rparr>)"
| client_closes: "calls s sid = Some Opened \<Longrightarrow> can_send (ctl s) \<Longrightarrow>
    tunnel_step s (s\<lparr>ctl := close_send sid reason (ctl s), closing := (closing s)(sid := closing s sid + 1)\<rparr>)"
| client_close_removes: "0 < closing s sid \<Longrightarrow>
    tunnel_step s (s\<lparr>ctl := close_remove sid (ctl s), closing := (closing s)(sid := closing s sid - 1)\<rparr>)"
| client_reads: "tcp_read (ctl s) sid < length (tcp_chan (ctl s) sid) \<Longrightarrow>
    tunnel_step s (s\<lparr>ctl := (ctl s)\<lparr>tcp_read := (tcp_read (ctl s))(sid := tcp_read (ctl s) sid + 1)\<rparr>\<rparr>)"
| udp_registers: "alloc_id (ctl s) = (sid, b) \<Longrightarrow>
    tunnel_step s (s\<lparr>ctl := b, allocs := allocs s + 1, registering := insert sid (registering s)\<rparr>)"
| udp_inserts: "sid \<in> registering s \<Longrightarrow>
    tunnel_step s (s\<lparr>ctl := insert_udp sid (ctl s), registering := registering s - {sid}\<rparr>)"
| udp_sends: "can_send (ctl s) \<Longrightarrow> send_udp sid dg (ctl s) = (b, ok) \<Longrightarrow> tunnel_step s (s\<lparr>ctl := b\<rparr>)"
| udp_unregisters: "tunnel_step s (s\<lparr>ctl := unregister_remove sid (ctl s),
    unregistering := (unregistering s)(sid := unregistering s sid + 1)\<rparr>)"
| udp_unregister_sends: "0 < unregistering s sid \<Longrightarrow> can_send (ctl s) \<Longrightarrow>
    tunnel_step s (s\<lparr>ctl := unregister_send sid (ctl s),
      unregistering := (unregistering s)(sid := unregistering s sid - 1)\<rparr>)"
| udp_reads: "udp_read (ctl s) sid < length (udp_chan (ctl s) sid) \<Longrightarrow>
    tunnel_step s (s\<lparr>ctl := (ctl s)\<lparr>udp_read := (udp_read (ctl s))(sid := udp_read (ctl s) sid + 1)\<rparr>\<rparr>)"
| logs: "can_send (ctl s) \<Longrightarrow> tunnel_step s (s\<lparr>ctl := send_log message (ctl s)\<rparr>)"
| ctl_writes: "writer_step (ctl s) = Some (f, b) \<Longrightarrow> tunnel_step s (s\<lparr>ctl := b, c2r := c2r s @ [f]\<rparr>)"
| ctl_write_fails: "tunnel_step s (s\<lparr>ctl := writer_fails (ctl s)\<rparr>)"
| ctl_takes: "r2c s = f # fs \<Longrightarrow> reader_alive (ctl s) \<Longrightarrow> busy (ctl s) = None \<Longrightarrow> todo (ctl s) = [] \<Longrightarrow>
    tunnel_step s (s\<lparr>ctl := reader_take f (ctl s), r2c := fs\<rparr>)"
| ctl_delivers: "busy (ctl s) = Some f \<Longrightarrow> (outcome = Delivered \<longrightarrow> deliver_room (ctl s)) \<Longrightarrow>
    tunnel_step s (s\<lparr>ctl := reader_deliver outcome (ctl s)\<rparr>)"
| ctl_continues: "todo (ctl s) = w # ws \<Longrightarrow> (work_sends w \<longrightarrow> can_send (ctl s)) \<Longrightarrow>
    tunnel_step s (s\<lparr>ctl := reader_continue (ctl s)\<rparr>)"
| ctl_reader_stops: "tunnel_step s (s\<lparr>ctl := reader_stops (ctl s)\<rparr>)"
| ctl_drains: "\<not> reader_alive (ctl s) \<Longrightarrow> tunnel_step s (s\<lparr>ctl := lifecycle_drain (ctl s)\<rparr>)"
| ctl_clears_tcp: "\<not> reader_alive (ctl s) \<Longrightarrow> tunnel_step s (s\<lparr>ctl := lifecycle_clear_tcp (ctl s)\<rparr>)"
| ctl_clears_udp: "\<not> reader_alive (ctl s) \<Longrightarrow> tunnel_step s (s\<lparr>ctl := lifecycle_clear_udp (ctl s)\<rparr>)"
| ctl_aborts: "\<not> reader_alive (ctl s) \<Longrightarrow> tunnel_step s (s\<lparr>ctl := lifecycle_abort (ctl s)\<rparr>)"
| rem_takes: "c2r s = f # fs \<Longrightarrow> r_reader_alive (rem s) \<Longrightarrow> r_busy (rem s) = None \<Longrightarrow> r_todo (rem s) = [] \<Longrightarrow>
    tunnel_step s (s\<lparr>rem := r_take f (rem s), c2r := fs\<rparr>)"
| rem_delivers: "r_busy (rem s) = Some f \<Longrightarrow> (outcome = Delivered \<longrightarrow> r_deliver_room (rem s)) \<Longrightarrow>
    tunnel_step s (s\<lparr>rem := r_deliver outcome (rem s)\<rparr>)"
| rem_continues: "r_todo (rem s) = w # ws \<Longrightarrow> (work_sends w \<longrightarrow> r_can_send (rem s)) \<Longrightarrow>
    tunnel_step s (s\<lparr>rem := r_continue (rem s)\<rparr>)"
| rem_task: "handle_open_tcp sid ev (rem s) = Some r \<Longrightarrow> (task_sends ev \<longrightarrow> r_can_send (rem s)) \<Longrightarrow>
    tunnel_step s (s\<lparr>rem := r, target_out := (case ev of
      TargetChunk d \<Rightarrow> (target_out s)(sid := target_out s sid @ [d]) | _ \<Rightarrow> target_out s)\<rparr>)"
| rem_udp: "spawn_udp_assoc sid ev (rem s) = Some r \<Longrightarrow>
    (ev \<noteq> SendPacket \<longrightarrow> r_can_send (rem s)) \<Longrightarrow> tunnel_step s (s\<lparr>rem := r\<rparr>)"
| rem_writes: "r_writer_step (rem s) = Some (f, r) \<Longrightarrow> tunnel_step s (s\<lparr>rem := r, r2c := r2c s @ [f]\<rparr>)"
| rem_write_stops: "tunnel_step s (s\<lparr>rem := r_writer_stops (rem s)\<rparr>)"
| rem_reader_stops: "tunnel_step s (s\<lparr>rem := r_reader_stops (rem s)\<rparr>)"

inductive tunnel_reach :: "string option \<Rightarrow> tunnel \<Rightarrow> bool" for default_egress_proxy where
  start: "tunnel_reach default_egress_proxy (tunnel_new default_egress_proxy)"
| step: "tunnel_reach default_egress_proxy s \<Longrightarrow> tunnel_step s t \<Longrightarrow> tunnel_reach default_egress_proxy t"

section \<open>Frames in flight\<close>

fun payload :: "u32 \<Rightarrow> frame \<Rightarrow> byte list list" where
  "payload sid (Data i d) = (if i = sid then [d] else [])"
| "payload sid _ = []"

fun open_mark :: "u32 \<Rightarrow> frame \<Rightarrow> nat" where
  "open_mark sid (OpenTcp i _ _ _) = (if i = sid then 1 else 0)"
| "open_mark sid _ = 0"

fun confirms :: "u32 \<Rightarrow> frame \<Rightarrow> bool" where
  "confirms sid (OpenTcpResult i ok _) = (i = sid \<and> ok)"
| "confirms sid _ = False"

definition data_of :: "u32 \<Rightarrow> frame list \<Rightarrow> byte list list" where
  "data_of sid fs = concat (map (payload sid) fs)"

definition opens_of :: "u32 \<Rightarrow> frame list \<Rightarrow> nat" where
  "opens_of sid fs = sum_list (map (open_mark sid) fs)"

definition confirmed_in :: "u32 \<Rightarrow> frame list \<Rightarrow> bool" where
  "confirmed_in sid fs \<longleftrightarrow> list_ex (confirms sid) fs"

definition busy_data :: "u32 \<Rightarrow> frame option \<Rightarrow> byte list list" where
  "busy_data sid f = (case f of None \<Rightarrow> [] | Some f \<Rightarrow> payload sid f)"

lemma flight_simps [simp]:
  "data_of sid [] = []" "data_of sid (f # fs) = payload sid f @ data_of sid fs"
  "data_of sid (fs @ gs) = data_of sid fs @ data_of sid gs"
  "opens_of sid [] = 0" "opens_of sid (f # fs) = open_mark sid f + opens_of sid fs"
  "opens_of sid (fs @ gs) = opens_of sid fs + opens_of sid gs"
  "confirmed_in sid [] = False" "confirmed_in sid (f # fs) = (confirms sid f \<or> confirmed_in sid fs)"
  "confirmed_in sid (fs @ gs) = (confirmed_in sid fs \<or> confirmed_in sid gs)"
  "busy_data sid None = []" "busy_data sid (Some f) = payload sid f"
  by (simp_all add: data_of_def opens_of_def confirmed_in_def busy_data_def)

definition opens_flying :: "tunnel \<Rightarrow> u32 \<Rightarrow> nat" where
  "opens_flying s sid = opens_of sid (c2r s) + opens_of sid (writer (ctl s))"

definition confirm_flying :: "tunnel \<Rightarrow> u32 \<Rightarrow> bool" where
  "confirm_flying s sid \<longleftrightarrow> confirmed_in sid (r2c s) \<or> confirmed_in sid (r_writer (rem s))"

definition down_flight :: "tunnel \<Rightarrow> u32 \<Rightarrow> byte list list" where
  "down_flight s sid = data_of sid (c2r s) @ data_of sid (writer (ctl s))"

definition up_flight :: "tunnel \<Rightarrow> u32 \<Rightarrow> byte list list" where
  "up_flight s sid = data_of sid (r2c s) @ data_of sid (r_writer (rem s))"

definition relayed :: "open_task option \<Rightarrow> bool" where
  "relayed t \<longleftrightarrow> t \<in> {Some Relaying, Some Ending, Some Closing, Some Finished}"

section \<open>What the operations do to one stream\<close>

lemma writer_send_effect [simp]:
  "data_of x (writer (writer_send f b)) = data_of x (writer b) @ (if writer_alive b then payload x f else [])"
  "opens_of x (writer (writer_send f b)) = opens_of x (writer b) + (if writer_alive b then open_mark x f else 0)"
  "writer_alive (writer_send f b) = writer_alive b" "next_id (writer_send f b) = next_id b"
  "answers (writer_send f b) = answers b" "tcp_streams (writer_send f b) = tcp_streams b"
  "tcp_chan (writer_send f b) = tcp_chan b" "busy (writer_send f b) = busy b"
  "reader_alive (writer_send f b) = reader_alive b" "tcp_read (writer_send f b) = tcp_read b"
  "pending_tcp (writer_send f b) = pending_tcp b"
  by (simp_all add: writer_send_def)

lemma forget_pending_effect [simp]:
  "writer (forget_pending i b) = writer b" "writer_alive (forget_pending i b) = writer_alive b"
  "next_id (forget_pending i b) = next_id b" "answers (forget_pending i b) = answers b"
  "tcp_streams (forget_pending i b) = tcp_streams b"
  "tcp_chan (forget_pending i b) = tcp_chan b" "busy (forget_pending i b) = busy b"
  "reader_alive (forget_pending i b) = reader_alive b" "tcp_read (forget_pending i b) = tcp_read b"
  "x \<in> pending_tcp (forget_pending i b) \<longleftrightarrow> x \<in> pending_tcp b \<and> x \<noteq> i"
  by (auto simp: forget_pending_def)

lemma forget_stream_effect [simp]:
  "writer (forget_stream i b) = writer b" "writer_alive (forget_stream i b) = writer_alive b"
  "next_id (forget_stream i b) = next_id b" "answers (forget_stream i b) = answers b"
  "x \<in> tcp_streams (forget_stream i b) \<longleftrightarrow> x \<in> tcp_streams b \<and> x \<noteq> i"
  "tcp_chan (forget_stream i b) = tcp_chan b" "busy (forget_stream i b) = busy b"
  "reader_alive (forget_stream i b) = reader_alive b" "tcp_read (forget_stream i b) = tcp_read b"
  "pending_tcp (forget_stream i b) = pending_tcp b"
  by (auto simp: forget_stream_def)

lemma answer_open_effect [simp]:
  "writer (answer_open i a b) = writer b" "writer_alive (answer_open i a b) = writer_alive b"
  "next_id (answer_open i a b) = next_id b" "tcp_streams (answer_open i a b) = tcp_streams b"
  "tcp_chan (answer_open i a b) = tcp_chan b" "busy (answer_open i a b) = busy b"
  "reader_alive (answer_open i a b) = reader_alive b" "tcp_read (answer_open i a b) = tcp_read b"
  "x \<in> pending_tcp (answer_open i a b) \<longleftrightarrow> x \<in> pending_tcp b \<and> x \<noteq> i"
  "answers (answer_open i a b) x = (if x = i \<and> i \<in> pending_tcp b then Some a else answers b x)"
  by (auto simp: answer_open_def)

lemma reader_take_effect [simp]:
  "writer (reader_take f b) = writer b" "writer_alive (reader_take f b) = writer_alive b"
  "next_id (reader_take f b) = next_id b" "tcp_chan (reader_take f b) = tcp_chan b"
  "reader_alive (reader_take f b) = reader_alive b" "tcp_read (reader_take f b) = tcp_read b"
  by (cases f; simp add: reader_take_def Let_def)+

lemma reader_take_busy:
  "busy b = None \<Longrightarrow> busy_data x (busy (reader_take f b)) = (if x \<in> tcp_streams b then payload x f else [])"
  by (cases f) (simp_all add: reader_take_def Let_def)

lemma reader_take_shrinks:
  "x \<in> tcp_streams (reader_take f b) \<Longrightarrow> x \<in> tcp_streams b"
  "x \<in> pending_tcp (reader_take f b) \<Longrightarrow> x \<in> pending_tcp b"
  by (cases f; simp add: reader_take_def Let_def split: if_splits)+

lemma reader_take_answer:
  "answers (reader_take f b) x = Some (Inr ()) \<Longrightarrow> answers b x = Some (Inr ()) \<or> confirms x f"
  by (cases f) (simp_all add: reader_take_def Let_def split: if_splits)

lemma reader_deliver_effect:
  assumes "busy b = Some f"
  shows "data_of x (writer (reader_deliver out b)) = data_of x (writer b)"
    "opens_of x (writer (reader_deliver out b)) = opens_of x (writer b)"
    "writer_alive (reader_deliver out b) = writer_alive b" "next_id (reader_deliver out b) = next_id b"
    "answers (reader_deliver out b) = answers b" "busy (reader_deliver out b) = None"
    "reader_alive (reader_deliver out b) = reader_alive b" "tcp_read (reader_deliver out b) = tcp_read b"
    "pending_tcp (reader_deliver out b) = pending_tcp b"
    "tcp_chan (reader_deliver out b) x = tcp_chan b x @ (if out = Delivered then payload x f else [])"
    "x \<in> tcp_streams (reader_deliver out b) \<Longrightarrow> x \<in> tcp_streams b \<and> (out = Delivered \<or> payload x f = [])"
  using assms by (cases f; cases out; auto simp: reader_deliver_def Let_def)+

lemma reader_continue_effect [simp]:
  "data_of x (writer (reader_continue b)) = data_of x (writer b)"
  "opens_of x (writer (reader_continue b)) = opens_of x (writer b)"
  "writer_alive (reader_continue b) = writer_alive b" "next_id (reader_continue b) = next_id b"
  "tcp_streams (reader_continue b) = tcp_streams b" "tcp_chan (reader_continue b) = tcp_chan b"
  "busy (reader_continue b) = busy b" "reader_alive (reader_continue b) = reader_alive b"
  "tcp_read (reader_continue b) = tcp_read b"
  by (auto simp: reader_continue_def Let_def split: list.split reader_work.split)

lemma reader_continue_answer:
  "answers (reader_continue b) x = Some (Inr ()) \<Longrightarrow> answers b x = Some (Inr ())"
  by (auto simp: reader_continue_def Let_def split: list.splits reader_work.splits if_splits)

lemma r_send_effect [simp]:
  "data_of x (r_writer (r_send f r)) = data_of x (r_writer r) @ (if r_writer_alive r then payload x f else [])"
  "confirmed_in x (r_writer (r_send f r)) \<longleftrightarrow> confirmed_in x (r_writer r) \<or> r_writer_alive r \<and> confirms x f"
  "r_writer_alive (r_send f r) = r_writer_alive r" "r_tasks (r_send f r) = r_tasks r"
  "r_tcp (r_send f r) = r_tcp r" "r_tcp_chan (r_send f r) = r_tcp_chan r"
  "r_tcp_read (r_send f r) = r_tcp_read r" "r_busy (r_send f r) = r_busy r"
  "r_reader_alive (r_send f r) = r_reader_alive r"
  by (simp_all add: r_send_def)

lemma r_take_effect [simp]:
  "r_writer (r_take f r) = r_writer r" "r_writer_alive (r_take f r) = r_writer_alive r"
  "r_tcp_chan (r_take f r) = r_tcp_chan r" "r_tcp_read (r_take f r) = r_tcp_read r"
  "r_reader_alive (r_take f r) = r_reader_alive r"
  by (cases f; simp add: r_take_def)+

lemma r_take_busy:
  "r_busy r = None \<Longrightarrow> busy_data x (r_busy (r_take f r)) = (if x \<in> r_tcp r then payload x f else [])"
  by (cases f) (simp_all add: r_take_def)

lemma r_take_tcp: "x \<in> r_tcp (r_take f r) \<Longrightarrow> x \<in> r_tcp r"
  by (cases f) (simp_all add: r_take_def split: if_splits)

lemma r_take_tasks:
  "open_mark x f = 0 \<Longrightarrow> r_tasks (r_take f r) x = r_tasks r x"
  "open_mark x f = 1 \<Longrightarrow> \<exists>host port proxy. r_tasks (r_take f r) x = Some (Connecting host port proxy)"
  by (cases f; auto simp: r_take_def split: if_splits)+

lemma open_mark_01: "open_mark x f = 0 \<or> open_mark x f = 1"
  by (cases f) auto

lemma r_deliver_effect:
  assumes "r_busy r = Some f"
  shows "data_of x (r_writer (r_deliver out r)) = data_of x (r_writer r)"
    "confirmed_in x (r_writer (r_deliver out r)) = confirmed_in x (r_writer r)"
    "r_writer_alive (r_deliver out r) = r_writer_alive r" "r_tasks (r_deliver out r) = r_tasks r"
    "r_busy (r_deliver out r) = None" "r_reader_alive (r_deliver out r) = r_reader_alive r"
    "r_tcp_read (r_deliver out r) = r_tcp_read r"
    "r_tcp_chan (r_deliver out r) x = r_tcp_chan r x @ (if out = Delivered then payload x f else [])"
    "x \<in> r_tcp (r_deliver out r) \<Longrightarrow> x \<in> r_tcp r \<and> (out = Delivered \<or> payload x f = [])"
  using assms by (cases f; cases out; auto simp: r_deliver_def Let_def)+

lemma r_continue_effect [simp]:
  "data_of x (r_writer (r_continue r)) = data_of x (r_writer r)"
  "confirmed_in x (r_writer (r_continue r)) = confirmed_in x (r_writer r)"
  "r_writer_alive (r_continue r) = r_writer_alive r" "r_tasks (r_continue r) = r_tasks r"
  "r_busy (r_continue r) = r_busy r" "r_reader_alive (r_continue r) = r_reader_alive r"
  "r_tcp_read (r_continue r) = r_tcp_read r" "r_tcp_chan (r_continue r) = r_tcp_chan r" "r_tcp (r_continue r) = r_tcp r"
  by (auto simp: r_continue_def Let_def split: list.split reader_work.split)

lemma r_udp_effect:
  assumes "spawn_udp_assoc i ev r = Some r'"
  shows "data_of x (r_writer r') = data_of x (r_writer r)"
    "confirmed_in x (r_writer r') = confirmed_in x (r_writer r)"
    "r_writer_alive r' = r_writer_alive r" "r_tasks r' = r_tasks r" "r_busy r' = r_busy r"
    "r_reader_alive r' = r_reader_alive r" "r_tcp_read r' = r_tcp_read r"
    "r_tcp_chan r' = r_tcp_chan r" "r_tcp r' = r_tcp r"
  using assms by (cases ev; auto simp: spawn_udp_assoc_def split: if_splits)+

section \<open>The invariant\<close>

definition ids_inv :: "tunnel \<Rightarrow> bool" where
  "ids_inv s \<longleftrightarrow> next_id (ctl s) = word_of_nat (allocs s + 1) \<and>
    (\<forall>sid. calls s sid \<noteq> None \<longrightarrow> (\<exists>k < allocs s. sid = word_of_nat (k + 1)))"

fun unsent :: "open_phase option \<Rightarrow> bool" where
  "unsent None = True"
| "unsent (Some Allocated) = True"
| "unsent (Some PendingIn) = True"
| "unsent (Some StreamIn) = True"
| "unsent (Some Waiting) = False"
| "unsent (Some Opened) = False"
| "unsent (Some (DropStream e)) = False"
| "unsent (Some (DropPending e)) = False"
| "unsent (Some (OpenFailed e)) = False"

definition open_inv :: "tunnel \<Rightarrow> u32 \<Rightarrow> bool" where
  "open_inv s x \<longleftrightarrow> opens_flying s x \<le> 1 \<and>
    (r_tasks (rem s) x \<noteq> None \<longrightarrow> opens_flying s x = 0) \<and>
    (unsent (calls s x) \<longrightarrow> opens_flying s x = 0 \<and> r_tasks (rem s) x = None)"

definition confirm_inv :: "tunnel \<Rightarrow> u32 \<Rightarrow> bool" where
  "confirm_inv s x \<longleftrightarrow>
    (calls s x = Some Opened \<or> answers (ctl s) x = Some (Inr ()) \<or> confirm_flying s x \<longrightarrow>
      relayed (r_tasks (rem s) x))"

definition quiet_inv :: "tunnel \<Rightarrow> u32 \<Rightarrow> bool" where
  "quiet_inv s x \<longleftrightarrow>
    (calls s x \<noteq> Some Opened \<longrightarrow>
      client_out s x = [] \<and> down_flight s x = [] \<and> busy_data x (r_busy (rem s)) = []) \<and>
    (\<not> relayed (r_tasks (rem s) x) \<longrightarrow>
      target_out s x = [] \<and> up_flight s x = [] \<and> busy_data x (busy (ctl s)) = [])"

definition down_inv :: "tunnel \<Rightarrow> u32 \<Rightarrow> bool" where
  "down_inv s x \<longleftrightarrow>
    prefix (r_tcp_chan (rem s) x @ busy_data x (r_busy (rem s))) (client_out s x) \<and>
    (x \<in> r_tcp (rem s) \<and> r_reader_alive (rem s) \<longrightarrow>
      prefix (r_tcp_chan (rem s) x @ busy_data x (r_busy (rem s)) @ down_flight s x) (client_out s x) \<and>
      (writer_alive (ctl s) \<longrightarrow>
        r_tcp_chan (rem s) x @ busy_data x (r_busy (rem s)) @ down_flight s x = client_out s x))"

definition up_inv :: "tunnel \<Rightarrow> u32 \<Rightarrow> bool" where
  "up_inv s x \<longleftrightarrow>
    prefix (tcp_chan (ctl s) x @ busy_data x (busy (ctl s))) (target_out s x) \<and>
    (x \<in> tcp_streams (ctl s) \<and> reader_alive (ctl s) \<longrightarrow>
      prefix (tcp_chan (ctl s) x @ busy_data x (busy (ctl s)) @ up_flight s x) (target_out s x) \<and>
      (r_writer_alive (rem s) \<longrightarrow>
        tcp_chan (ctl s) x @ busy_data x (busy (ctl s)) @ up_flight s x = target_out s x))"

lemma fresh_id:
  assumes "ids_inv s" and "allocs s < 2 ^ 32"
  shows "calls s (next_id (ctl s)) = None"
proof (rule ccontr)
  assume "calls s (next_id (ctl s)) \<noteq> None"
  then obtain k where k: "k < allocs s" "(word_of_nat (k + 1) :: u32) = word_of_nat (allocs s + 1)"
    using assms(1) unfolding ids_inv_def by metis
  then have "unat (word_of_nat (k + 1) :: u32) = unat (word_of_nat (allocs s + 1) :: u32)" by simp
  then have "(k + 1) mod 2 ^ 32 = (allocs s + 1) mod 2 ^ 32"
    by (simp add: unat_of_nat del: of_nat_Suc of_nat_add)
  moreover have "(k + 1) mod 2 ^ 32 = k + 1"
    using k(1) assms(2) by (intro mod_less) linarith
  moreover have "(allocs s + 1) mod 2 ^ 32 = allocs s + 1 \<or> (allocs s + 1) mod 2 ^ 32 = 0"
    using assms(2) by (cases "allocs s + 1 = 2 ^ 32") (simp_all add: mod_less)
  ultimately show False
    using k(1) by linarith
qed

lemmas tunnel_defs = set_call_def bridge_defs remote_defs

lemma ids_step: "tunnel_step s t \<Longrightarrow> ids_inv s \<Longrightarrow> ids_inv t"
  by (induction rule: tunnel_step.induct)
   (auto simp: ids_inv_def tunnel_defs less_Suc_eq split: if_splits frame.splits option.splits sum.splits prod.splits list.splits delivery.splits reader_work.splits)

lemmas plain_defs = set_call_def alloc_id_def insert_pending_def insert_tcp_def send_open_def
  open_timed_out_def open_resolved_def send_data_def close_send_def close_remove_def insert_udp_def send_udp_def
  unregister_remove_def unregister_send_def send_log_def writer_step_def writer_fails_def reader_stops_def lifecycle_drain_def
  lifecycle_clear_tcp_def lifecycle_clear_udp_def lifecycle_abort_def r_writer_step_def
  r_writer_stops_def r_reader_stops_def Let_def

lemmas plain_splits = if_splits option.splits sum.splits list.splits

lemma task_none:
  "handle_open_tcp i ev r = Some r' \<Longrightarrow> r_tasks r' x = None \<longleftrightarrow> r_tasks r x = None"
  by (cases ev) (auto simp: handle_open_tcp_def set_task_def split: option.splits open_task.splits if_splits)

lemma open_step:
  assumes "tunnel_step s t" and "open_inv s x" and "x = next_id (ctl s) \<Longrightarrow> calls s x = None"
  shows "open_inv t x"
  using assms(1)
proof cases
  case (rem_takes f fs)
  then show ?thesis using assms(2) open_mark_01 [of x f] r_take_tasks [of x f "rem s"]
    by (auto simp: open_inv_def opens_flying_def)
next
  case (rem_task i ev r)
  then show ?thesis using assms(2) task_none [of i ev "rem s" r x]
    by (auto simp: open_inv_def opens_flying_def)
qed (use assms(2,3) in \<open>auto simp: open_inv_def opens_flying_def plain_defs reader_deliver_effect r_deliver_effect
  r_udp_effect split: plain_splits\<close>)

lemma relayed_simps [simp]:
  "\<not> relayed None" "\<not> relayed (Some (Connecting host port proxy))" "\<not> relayed (Some Announcing)"
  "\<not> relayed (Some (Refusing message))" "relayed (Some Relaying)" "relayed (Some Ending)"
  "relayed (Some Closing)" "relayed (Some Finished)"
  by (simp_all add: relayed_def)

lemma task_relayed: "handle_open_tcp i ev r = Some r' \<Longrightarrow> relayed (r_tasks r x) \<Longrightarrow> relayed (r_tasks r' x)"
  by (cases ev) (auto simp: handle_open_tcp_def set_task_def split: option.splits open_task.splits if_splits)

lemma task_confirm:
  "handle_open_tcp i ev r = Some r' \<Longrightarrow> confirmed_in x (r_writer r') \<Longrightarrow>
    confirmed_in x (r_writer r) \<or> relayed (r_tasks r' x)"
  by (cases ev) (auto simp: handle_open_tcp_def set_task_def split: option.splits open_task.splits if_splits)

lemma task_data:
  "handle_open_tcp i ev r = Some r' \<Longrightarrow> data_of x (r_writer r') = data_of x (r_writer r) @
    (case ev of TargetChunk d \<Rightarrow> if x = i \<and> r_writer_alive r then [d] else [] | _ \<Rightarrow> [])"
  by (cases ev) (auto simp: handle_open_tcp_def set_task_def split: option.splits open_task.splits if_splits)

lemma task_chunk:
  "handle_open_tcp i (TargetChunk d) r = Some r' \<Longrightarrow> r_tasks r i = Some Relaying \<and> r_tasks r' = r_tasks r"
  by (auto simp: handle_open_tcp_def split: if_splits)

lemma task_frame:
  "handle_open_tcp i ev r = Some r' \<Longrightarrow> r_busy r' = r_busy r \<and> r_writer_alive r' = r_writer_alive r \<and>
    r_reader_alive r' = r_reader_alive r"
  by (cases ev) (auto simp: handle_open_tcp_def set_task_def split: option.splits open_task.splits if_splits)

lemma taken_open_relayed:
  assumes "open_inv s x" and "c2r s = f # fs"
  shows "relayed (r_tasks (r_take f (rem s)) x) \<longleftrightarrow> relayed (r_tasks (rem s) x)"
  using assms open_mark_01 [of x f] r_take_tasks [of x f "rem s"] by (auto simp: open_inv_def opens_flying_def)

lemma confirm_step:
  assumes "tunnel_step s t" and "confirm_inv s x" and "open_inv s x"
  shows "confirm_inv t x"
  using assms(1)
proof cases
  case (rem_takes f fs)
  then show ?thesis using assms(2) taken_open_relayed [OF assms(3)] by (auto simp: confirm_inv_def confirm_flying_def)
next
  case (rem_task i ev r)
  then show ?thesis using assms(2) task_relayed [of i ev "rem s" r x] task_confirm [of i ev "rem s" r x]
    by (auto simp: confirm_inv_def confirm_flying_def)
next
  case (ctl_takes f fs)
  then show ?thesis using assms(2) reader_take_answer [of f "ctl s" x]
    by (auto simp: confirm_inv_def confirm_flying_def)
next
  case (ctl_continues w ws)
  then show ?thesis using assms(2) reader_continue_answer [of "ctl s" x]
    by (auto simp: confirm_inv_def confirm_flying_def)
qed (use assms(2) in \<open>auto simp: confirm_inv_def confirm_flying_def plain_defs reader_deliver_effect
  r_deliver_effect r_udp_effect split: plain_splits\<close>)

lemma quiet_step:
  assumes "tunnel_step s t" and "quiet_inv s x" and "confirm_inv s x" and "open_inv s x"
    and "x = next_id (ctl s) \<Longrightarrow> calls s x = None"
  shows "quiet_inv t x"
  using assms(1)
proof cases
  case (rem_takes f fs)
  then show ?thesis using assms(2) taken_open_relayed [OF assms(4)]
    by (auto simp: quiet_inv_def down_flight_def up_flight_def r_take_busy)
next
  case (rem_task i ev r)
  then show ?thesis
    using assms(2) task_relayed [of i ev "rem s" r x] task_data [of i ev "rem s" r x] task_chunk [of i _ "rem s" r]
      task_frame [of i ev "rem s" r]
    by (auto simp: quiet_inv_def down_flight_def up_flight_def split: task_event.splits)
next
  case (ctl_takes f fs)
  then show ?thesis using assms(2)
    by (auto simp: quiet_inv_def down_flight_def up_flight_def reader_take_busy)
qed (use assms(2,3,5) in \<open>auto simp: quiet_inv_def down_flight_def up_flight_def plain_defs reader_deliver_effect
  r_deliver_effect r_udp_effect split: plain_splits\<close>)

lemma prefix_snoc_grow: "prefix xs ys \<Longrightarrow> prefix xs (ys @ zs)"
  by (rule prefix_order.trans) auto

lemma prefix_front: "prefix (xs @ ys) zs \<Longrightarrow> prefix xs zs"
  by (auto simp: prefix_def)

lemma prefix_part: "prefix (xs @ ys @ zs) ws \<Longrightarrow> prefix (xs @ ys) ws" "xs @ ys @ zs = ws \<Longrightarrow> prefix (xs @ ys) ws"
  by (auto simp: prefix_def)

lemma task_chan:
  "handle_open_tcp i ev r = Some r' \<Longrightarrow> ev \<noteq> Connected \<or> x \<noteq> i \<Longrightarrow>
    r_tcp_chan r' x = r_tcp_chan r x \<and> (x \<in> r_tcp r' \<longrightarrow> x \<in> r_tcp r)"
  by (cases ev) (auto simp: handle_open_tcp_def set_task_def split: option.splits open_task.splits if_splits)

lemma task_connected:
  "handle_open_tcp i Connected r = Some r' \<Longrightarrow> r_tcp_chan r' i = [] \<and> \<not> relayed (r_tasks r i)"
  by (auto simp: handle_open_tcp_def set_task_def split: option.splits open_task.splits if_splits)

lemma down_step:
  assumes "tunnel_step s t" and "down_inv s x" and "quiet_inv s x" and "confirm_inv s x"
  shows "down_inv t x"
  using assms(1)
proof cases
  case (rem_takes f fs)
  then show ?thesis using assms(2) r_take_tcp [of x f "rem s"]
    by (auto simp: down_inv_def down_flight_def r_take_busy intro: prefix_part)
next
  case (rem_delivers f out)
  then show ?thesis using assms(2) r_deliver_effect(9) [OF rem_delivers(2), of x out]
    by (auto simp: down_inv_def down_flight_def r_deliver_effect(1-8) dest: prefix_front)
next
  case (rem_task i ev r)
  note frame = task_frame [OF rem_task(2)]
  show ?thesis
  proof (cases "ev = Connected \<and> x = i")
    case True
    then have "r_tcp_chan r x = []" "calls s x \<noteq> Some Opened"
      using task_connected [of i "rem s" r] rem_task(2) assms(4) by (auto simp: confirm_inv_def)
    then show ?thesis
      using assms(3) rem_task(1) frame by (auto simp: down_inv_def quiet_inv_def down_flight_def)
  next
    case False
    then show ?thesis
      using assms(2) rem_task(1) frame task_chan [OF rem_task(2), of x]
      by (auto simp: down_inv_def down_flight_def)
  qed
qed (use assms(2) in \<open>auto simp: down_inv_def down_flight_def plain_defs reader_deliver_effect
  r_udp_effect prefix_snoc_grow dest: prefix_front split: plain_splits\<close>)

lemma up_step:
  assumes "tunnel_step s t" and "up_inv s x" and "quiet_inv s x" and "open_inv s x"
  shows "up_inv t x"
  using assms(1)
proof cases
  case (ctl_takes f fs)
  then show ?thesis using assms(2) reader_take_shrinks(1) [of x f "ctl s"]
    by (auto simp: up_inv_def up_flight_def reader_take_busy intro: prefix_part)
next
  case (ctl_delivers f out)
  then show ?thesis using assms(2) reader_deliver_effect(11) [OF ctl_delivers(2), of x out]
    by (auto simp: up_inv_def up_flight_def reader_deliver_effect(1-10) dest: prefix_front)
next
  case (open_stream i)
  then show ?thesis using assms(2,3,4)
    by (auto simp: up_inv_def up_flight_def quiet_inv_def open_inv_def plain_defs)
next
  case (rem_task i ev r)
  then show ?thesis
    using assms(2) task_data [OF rem_task(2), of x] task_frame [OF rem_task(2)]
    by (cases ev) (auto simp: up_inv_def up_flight_def prefix_snoc_grow)
qed (use assms(2) in \<open>auto simp: up_inv_def up_flight_def plain_defs r_deliver_effect
  r_udp_effect prefix_snoc_grow dest: prefix_front split: plain_splits\<close>)

section \<open>Every reachable state\<close>

definition tunnel_inv :: "tunnel \<Rightarrow> bool" where
  "tunnel_inv s \<longleftrightarrow> ids_inv s \<and>
    (\<forall>x. open_inv s x \<and> confirm_inv s x \<and> quiet_inv s x \<and> down_inv s x \<and> up_inv s x)"

lemma tunnel_inv_new: "tunnel_inv (tunnel_new e)"
  by (simp add: tunnel_inv_def ids_inv_def open_inv_def confirm_inv_def quiet_inv_def down_inv_def up_inv_def
    opens_flying_def confirm_flying_def down_flight_def up_flight_def tunnel_new_def bridge_new_def remote_new_def)

lemma tunnel_inv_step:
  assumes "tunnel_step s t" and "tunnel_inv s" and "allocs s < 2 ^ 32"
  shows "tunnel_inv t"
proof -
  have fresh: "x = next_id (ctl s) \<Longrightarrow> calls s x = None" for x
    using fresh_id assms(2,3) by (auto simp: tunnel_inv_def)
  show ?thesis
    using assms(1,2) fresh ids_step open_step confirm_step quiet_step down_step up_step
    unfolding tunnel_inv_def by metis
qed

lemma allocs_mono: "tunnel_step s t \<Longrightarrow> allocs s \<le> allocs t"
  by (induction rule: tunnel_step.induct) (simp_all add: set_call_def)

lemma tunnel_reach_inv: "tunnel_reach e s \<Longrightarrow> allocs s < 2 ^ 32 \<Longrightarrow> tunnel_inv s"
proof (induction rule: tunnel_reach.induct)
  case (step s t)
  then show ?case
    using allocs_mono [of s t] tunnel_inv_step [of s t] by simp
qed (rule tunnel_inv_new)

section \<open>The maps of the controller\<close>

fun in_open :: "open_phase option \<Rightarrow> bool" where
  "in_open (Some PendingIn) = True"
| "in_open (Some StreamIn) = True"
| "in_open (Some Waiting) = True"
| "in_open _ = False"

fun streaming :: "open_phase option \<Rightarrow> bool" where
  "streaming (Some StreamIn) = True"
| "streaming (Some Waiting) = True"
| "streaming (Some Opened) = True"
| "streaming (Some (DropStream e)) = True"
| "streaming _ = False"

definition maps_inv :: "tunnel \<Rightarrow> u32 \<Rightarrow> bool" where
  "maps_inv s x \<longleftrightarrow>
    (x \<in> pending_tcp (ctl s) \<longrightarrow> in_open (calls s x) \<and> answers (ctl s) x = None) \<and>
    (x \<in> tcp_streams (ctl s) \<longrightarrow> streaming (calls s x)) \<and>
    (in_open (calls s x) \<longrightarrow> x \<in> pending_tcp (ctl s) \<or> answers (ctl s) x \<noteq> None) \<and>
    calls s x \<notin> {Some (OpenFailed BridgeClosedBeforeConnect), Some (DropStream BridgeClosedBeforeConnect),
      Some (DropPending BridgeClosedBeforeConnect)}"

lemma reader_take_resolves:
  "x \<in> pending_tcp b \<Longrightarrow> x \<notin> pending_tcp (reader_take f b) \<Longrightarrow> answers (reader_take f b) x \<noteq> None"
  "x \<notin> pending_tcp b \<Longrightarrow> answers (reader_take f b) x = answers b x"
  "x \<in> pending_tcp (reader_take f b) \<Longrightarrow> answers (reader_take f b) x = answers b x"
  by (cases f; auto simp: reader_take_def Let_def split: if_splits)+

lemma reader_continue_resolves:
  "x \<in> pending_tcp (reader_continue b) \<Longrightarrow> x \<in> pending_tcp b \<and> answers (reader_continue b) x = answers b x"
  "x \<in> pending_tcp b \<Longrightarrow> x \<notin> pending_tcp (reader_continue b) \<Longrightarrow> answers (reader_continue b) x \<noteq> None"
  "x \<notin> pending_tcp b \<Longrightarrow> answers (reader_continue b) x = answers b x"
  by (auto simp: reader_continue_def Let_def split: list.splits reader_work.splits if_splits)

lemma maps_step:
  assumes "tunnel_step s t" and "maps_inv s x" and "x = next_id (ctl s) \<Longrightarrow> calls s x = None"
  shows "maps_inv t x"
  using assms(1)
proof cases
  case (ctl_takes f fs)
  then show ?thesis
    using assms(2) reader_take_resolves(1,2) [of x "ctl s" f]
      reader_take_resolves(3) [of x f "ctl s"] reader_take_shrinks [of x f "ctl s"]
    by (auto simp: maps_inv_def)
next
  case (ctl_delivers f out)
  then show ?thesis
    using assms(2) reader_deliver_effect(11) [OF ctl_delivers(2), of x out]
    by (auto simp: maps_inv_def reader_deliver_effect(1-10))
next
  case (ctl_continues w ws)
  then show ?thesis
    using assms(2) reader_continue_resolves(1) [of x "ctl s"] reader_continue_resolves(2,3) [of x "ctl s"]
    by (auto simp: maps_inv_def)
next
  case (open_done i b res)
  then show ?thesis
    using assms(2) by (cases "answers (ctl s) i") (auto simp: maps_inv_def plain_defs split: plain_splits)
qed (use assms(2,3) in \<open>auto simp: maps_inv_def plain_defs split: plain_splits\<close>)

lemma tunnel_reach_maps: "tunnel_reach e s \<Longrightarrow> allocs s < 2 ^ 32 \<Longrightarrow> maps_inv s x"
proof (induction rule: tunnel_reach.induct)
  case (step s t)
  then have "tunnel_inv s" and small: "allocs s < 2 ^ 32"
    using allocs_mono [of s t] tunnel_reach_inv [of e s] by simp_all
  then have "x = next_id (ctl s) \<Longrightarrow> calls s x = None"
    using fresh_id by (auto simp: tunnel_inv_def)
  then show ?case using step small maps_step by blast
qed (simp add: maps_inv_def tunnel_new_def bridge_new_def)

section \<open>Properties\<close>

text \<open>
  C2. Whatever the interleaving of the tasks, failed transports, closes and time-outs, each application
  receives a prefix of the chunks the other side of the same stream sent, in order, without gaps and
  without data of another stream; and as long as a stream is registered and the tasks of its direction
  are alive, everything sent is either received or still on its way.  The bound says that fewer than
  2^32 stream ids have been taken from the 32-bit counter.
\<close>

theorem tunnel_stream_integrity:
  assumes "tunnel_reach e s" and "allocs s < 2 ^ 32"
  shows "prefix (r_tcp_chan (rem s) x) (client_out s x) \<and> prefix (tcp_chan (ctl s) x) (target_out s x) \<and>
    (x \<in> r_tcp (rem s) \<and> r_reader_alive (rem s) \<and> writer_alive (ctl s) \<longrightarrow>
      client_out s x = r_tcp_chan (rem s) x @ busy_data x (r_busy (rem s)) @ down_flight s x) \<and>
    (x \<in> tcp_streams (ctl s) \<and> reader_alive (ctl s) \<and> r_writer_alive (rem s) \<longrightarrow>
      target_out s x = tcp_chan (ctl s) x @ busy_data x (busy (ctl s)) @ up_flight s x)"
proof -
  have "down_inv s x" "up_inv s x"
    using tunnel_reach_inv [OF assms] by (simp_all add: tunnel_inv_def)
  then show ?thesis
    unfolding down_inv_def up_inv_def by (auto dest: prefix_front)
qed

text \<open>
  C29. Opening a stream leaves nothing behind at the controller: an id is in the map of pending opens only
  while its \<open>open_tcp\<close> is running, and in the map of streams only while it is running or after it
  succeeded; a failed open has removed both, and an opener never sees its one-shot channel dropped.
\<close>

theorem failed_opens_are_forgotten:
  assumes "tunnel_reach e s" and "allocs s < 2 ^ 32"
  shows "(x \<in> pending_tcp (ctl s) \<longrightarrow> in_open (calls s x)) \<and>
    (x \<in> tcp_streams (ctl s) \<longrightarrow> streaming (calls s x)) \<and>
    (\<forall>err. calls s x = Some (OpenFailed err) \<longrightarrow> x \<notin> pending_tcp (ctl s) \<and> x \<notin> tcp_streams (ctl s) \<and>
      err \<noteq> BridgeClosedBeforeConnect)"
  using tunnel_reach_maps [OF assms, of x] by (auto simp: maps_inv_def)

section \<open>Sample runs\<close>

text \<open>A stream is requested and the request reaches the remote helper.\<close>

definition run_open :: tunnel where
  "run_open = set_call 1 StreamIn (let s = tunnel_new None in s\<lparr>
    ctl := insert_tcp 1 (insert_pending 1 (snd (alloc_id (ctl s)))), allocs := 1,
    targets := (targets s)(1 := (''host'', 80, None))\<rparr>)"

definition run_asked :: tunnel where
  "run_asked = set_call 1 Waiting (run_open\<lparr>rem := r_take (OpenTcp 1 ''host'' 80 None) (rem run_open)\<rparr>)"

lemma run_open_eq:
  "run_open = set_call 1 StreamIn (s2\<lparr>ctl := insert_tcp 1 (ctl s2)\<rparr>)"
  if "s2 = set_call 1 PendingIn (s1\<lparr>ctl := insert_pending 1 (ctl s1)\<rparr>)"
    "s1 = set_call 1 Allocated ((tunnel_new None)\<lparr>ctl := snd (alloc_id (ctl (tunnel_new None))), allocs := 1,
      targets := (targets (tunnel_new None))(1 := (''host'', 80, None))\<rparr>)"
  by (simp add: that run_open_def set_call_def Let_def)

lemma reach_open: "tunnel_reach None run_open"
proof -
  define s1 where "s1 = set_call 1 Allocated ((tunnel_new None)\<lparr>ctl := snd (alloc_id (ctl (tunnel_new None))),
      allocs := 1, targets := (targets (tunnel_new None))(1 := (''host'', 80, None))\<rparr>)"
  define s2 where "s2 = set_call 1 PendingIn (s1\<lparr>ctl := insert_pending 1 (ctl s1)\<rparr>)"
  have "tunnel_step (tunnel_new None) s1"
    using tunnel_step.open_begin [of "tunnel_new None" 1 "snd (alloc_id (ctl (tunnel_new None)))"]
    by (simp add: s1_def tunnel_new_def bridge_new_def alloc_id_def)
  then have "tunnel_reach None s1" by (rule tunnel_reach.step [OF tunnel_reach.start])
  moreover have "tunnel_step s1 s2"
    unfolding s2_def by (rule tunnel_step.open_pending) (simp add: s1_def set_call_def)
  ultimately have "tunnel_reach None s2" by (rule tunnel_reach.step)
  moreover have "tunnel_step s2 run_open"
    unfolding run_open_eq [OF s2_def s1_def] by (rule tunnel_step.open_stream) (simp add: s2_def set_call_def)
  ultimately show ?thesis by (rule tunnel_reach.step)
qed

lemmas sample_defs = run_open_def run_asked_def tunnel_new_def bridge_new_def remote_new_def set_call_def
  insert_tcp_def insert_pending_def alloc_id_def Let_def can_send_def r_can_send_def writer_send_def r_send_def
  FRAME_CHANNEL_CAPACITY_def r_take_def reader_take_def answer_open_def handle_open_tcp_def set_task_def
  writer_step_def r_writer_step_def send_open_def task_sends_def

lemma reach_asked: "tunnel_reach None run_asked"
proof -
  let ?f = "OpenTcp 1 ''host'' 80 None"
  define s1 where "s1 = set_call 1 Waiting (run_open\<lparr>ctl := writer_send ?f (ctl run_open)\<rparr>)"
  define s2 where "s2 = s1\<lparr>ctl := ctl run_open, c2r := c2r s1 @ [?f]\<rparr>"
  have "tunnel_step run_open s1"
    unfolding s1_def by (rule tunnel_step.open_sent) (simp_all add: sample_defs)
  then have "tunnel_reach None s1" by (rule tunnel_reach.step [OF reach_open])
  moreover have "tunnel_step s1 s2"
    unfolding s2_def by (rule tunnel_step.ctl_writes) (simp add: s1_def sample_defs)
  ultimately have "tunnel_reach None s2" by (rule tunnel_reach.step)
  moreover have "tunnel_step s2 (s2\<lparr>rem := r_take ?f (rem s2), c2r := []\<rparr>)"
    by (rule tunnel_step.rem_takes) (simp_all add: s1_def s2_def sample_defs)
  moreover have "s2\<lparr>rem := r_take ?f (rem s2), c2r := []\<rparr> = run_asked"
    by (simp add: s1_def s2_def sample_defs)
  ultimately show ?thesis by (metis tunnel_reach.step)
qed

text \<open>The remote helper connects and its answer comes back; the opener either still waits or has given up.\<close>

definition answered :: "tunnel \<Rightarrow> tunnel" where
  "answered s = s\<lparr>ctl := reader_take (OpenTcpResult 1 True []) (ctl s),
    rem := (rem s)\<lparr>r_tasks := (r_tasks (rem s))(1 \<mapsto> Relaying), r_tcp := insert 1 (r_tcp (rem s)),
      r_tcp_chan := (r_tcp_chan (rem s))(1 := []), r_tcp_read := (r_tcp_read (rem s))(1 := 0)\<rparr>\<rparr>"

lemma reach_answered:
  assumes "tunnel_reach None s" and "r_tasks (rem s) 1 = Some (Connecting host port proxy)"
    and "r_writer (rem s) = []" "r_writer_alive (rem s)" "r2c s = []" "reader_alive (ctl s)" "busy (ctl s) = None"
    and "todo (ctl s) = []"
  shows "tunnel_reach None (answered s)"
proof -
  let ?f = "OpenTcpResult 1 True []"
  define r1 where "r1 = the (handle_open_tcp 1 Connected (rem s))"
  define s1 where "s1 = s\<lparr>rem := r1\<rparr>"
  define r2 where "r2 = the (handle_open_tcp 1 SendResult r1)"
  define s2 where "s2 = s1\<lparr>rem := r2\<rparr>"
  define s3 where "s3 = s2\<lparr>rem := r2\<lparr>r_writer := []\<rparr>, r2c := [?f]\<rparr>"
  note defs = s1_def s2_def s3_def r1_def r2_def sample_defs
  have "tunnel_step s s1"
    using tunnel_step.rem_task [of 1 Connected s r1] assms by (simp add: defs)
  moreover have "tunnel_step s1 s2"
    using tunnel_step.rem_task [of 1 SendResult s1 r2] assms by (simp add: defs)
  moreover have "tunnel_step s2 s3"
    using tunnel_step.rem_writes [of s2 ?f] assms by (simp add: defs)
  moreover have "tunnel_step s3 (s3\<lparr>ctl := reader_take ?f (ctl s3), r2c := []\<rparr>)"
    by (rule tunnel_step.ctl_takes) (use assms in \<open>simp_all add: defs\<close>)
  moreover have "s3\<lparr>ctl := reader_take ?f (ctl s3), r2c := []\<rparr> = answered s"
    using assms by (simp add: defs answered_def)
  ultimately show ?thesis
    using assms(1) tunnel_reach.step by metis
qed

definition run_gave_up :: tunnel where
  "run_gave_up = set_call 1 (OpenFailed OpenTimedOut) (run_asked\<lparr>ctl := forget_stream 1 (forget_pending 1 (ctl run_asked))\<rparr>)"

lemma reach_gave_up: "tunnel_reach None run_gave_up"
proof -
  define s1 where "s1 = set_call 1 (DropStream OpenTimedOut) (run_asked\<lparr>ctl := forget_pending 1 (ctl run_asked)\<rparr>)"
  have "tunnel_step run_asked s1"
    unfolding s1_def by (rule tunnel_step.open_timeout) (simp_all add: sample_defs open_timed_out_def)
  moreover have "tunnel_step s1 (set_call 1 (OpenFailed OpenTimedOut) (s1\<lparr>ctl := forget_stream 1 (ctl s1)\<rparr>))"
    by (rule tunnel_step.open_drop_stream) (simp add: s1_def set_call_def)
  moreover have "set_call 1 (OpenFailed OpenTimedOut) (s1\<lparr>ctl := forget_stream 1 (ctl s1)\<rparr>) = run_gave_up"
    by (simp add: s1_def run_gave_up_def set_call_def)
  ultimately show ?thesis
    using reach_asked tunnel_reach.step by metis
qed

definition run_orphan :: tunnel where
  "run_orphan = answered run_gave_up"

lemma reach_orphan: "tunnel_reach None run_orphan"
  unfolding run_orphan_def
  by (rule reach_answered [OF reach_gave_up]) (simp_all add: run_gave_up_def sample_defs forget_pending_def forget_stream_def)

text \<open>The opener gets its stream and a chunk travels to the target.\<close>

definition run_opened :: tunnel where
  "run_opened = set_call 1 Opened (answered run_asked)"

lemma reach_opened: "tunnel_reach None run_opened"
proof -
  have asked: "tunnel_reach None (answered run_asked)"
    by (rule reach_answered [OF reach_asked]) (simp_all add: sample_defs)
  have "tunnel_step (answered run_asked) (set_call 1 (open_result_phase (Inr 1)) ((answered run_asked)\<lparr>ctl := ctl (answered run_asked)\<rparr>))"
    by (rule tunnel_step.open_done) (simp_all add: open_resolved_def answered_def sample_defs)
  then show ?thesis
    using tunnel_reach.step [OF asked] by (simp add: run_opened_def)
qed

definition run_data :: tunnel where
  "run_data = run_opened\<lparr>rem := (rem run_opened)\<lparr>r_tcp_chan := (r_tcp_chan (rem run_opened))(1 := [[1, 2]])\<rparr>,
    client_out := (client_out run_opened)(1 := [[1, 2]])\<rparr>"

lemma reach_data: "tunnel_reach None run_data"
proof -
  let ?f = "Data 1 [1, 2]"
  note defs = run_opened_def answered_def sample_defs send_data_def
  define s1 where "s1 = run_opened\<lparr>ctl := writer_send ?f (ctl run_opened),
    client_out := (client_out run_opened)(1 := client_out run_opened 1 @ [[1, 2]])\<rparr>"
  define s2 where "s2 = s1\<lparr>ctl := ctl run_opened, c2r := c2r s1 @ [?f]\<rparr>"
  define s3 where "s3 = s2\<lparr>rem := r_take ?f (rem s2), c2r := []\<rparr>"
  have "tunnel_step run_opened s1"
    unfolding s1_def by (rule tunnel_step.client_sends) (simp_all add: defs)
  moreover have "tunnel_step s1 s2"
    unfolding s2_def by (rule tunnel_step.ctl_writes) (simp add: s1_def defs)
  moreover have "tunnel_step s2 s3"
    unfolding s3_def by (rule tunnel_step.rem_takes) (simp_all add: s1_def s2_def defs)
  moreover have "tunnel_step s3 (s3\<lparr>rem := r_deliver Delivered (rem s3)\<rparr>)"
    by (rule tunnel_step.rem_delivers)
      (simp_all add: s1_def s2_def s3_def defs r_deliver_room_def TCP_STREAM_CHANNEL_CAPACITY_def)
  moreover have "s3\<lparr>rem := r_deliver Delivered (rem s3)\<rparr> = run_data"
    by (simp add: s1_def s2_def s3_def run_data_def defs r_deliver_def)
  ultimately show ?thesis
    using reach_opened tunnel_reach.step by metis
qed

lemma run_data_fields:
  "allocs run_data = 1" "r_tcp_chan (rem run_data) 1 = [[1, 2]]" "calls run_orphan 1 = Some (OpenFailed OpenTimedOut)"
  "allocs run_orphan = 1"
  by (simp_all add: run_data_def run_opened_def run_orphan_def run_gave_up_def answered_def sample_defs)

theorem tunnel_stream_integrity_witness:
  "r_tcp_chan (rem run_data) 1 = [[1, 2]] \<and> prefix [[1, 2]] (client_out run_data 1)"
  using tunnel_stream_integrity [OF reach_data, of 1] by (simp add: run_data_fields)

theorem failed_opens_are_forgotten_witness:
  "calls run_orphan 1 = Some (OpenFailed OpenTimedOut) \<and> 1 \<notin> tcp_streams (ctl run_orphan)"
  using failed_opens_are_forgotten [OF reach_orphan, of 1] by (simp add: run_data_fields)

text \<open>
  C37. An open that times out leaves a stream behind at the remote helper.  There is a run in which the
  opener has given up, its id is unknown to the controller, no frame is in flight in either direction, and the
  remote helper keeps the connection to the target and relays it: the controller does not send a
  \<open>Close\<close> when it gives up, and ignores the answer that comes later.
\<close>

theorem timed_out_open_orphans_remote_stream:
  "\<exists>s. tunnel_reach None s \<and> calls s 1 = Some (OpenFailed OpenTimedOut) \<and>
    1 \<notin> pending_tcp (ctl s) \<and> 1 \<notin> tcp_streams (ctl s) \<and>
    writer (ctl s) = [] \<and> c2r s = [] \<and> r2c s = [] \<and> r_writer (rem s) = [] \<and>
    1 \<in> r_tcp (rem s) \<and> r_tasks (rem s) 1 = Some Relaying"
proof (intro exI conjI)
  show "tunnel_reach None run_orphan" by (rule reach_orphan)
qed (simp_all add: run_orphan_def run_gave_up_def answered_def sample_defs forget_pending_def forget_stream_def)

end
