(* ===== verification/Ip_Addr.thy ===== *)
theory Ip_Addr
  imports Rust_Strings
begin

text \<open>
  The textual forms of IP addresses the program uses from \<^verbatim>\<open>std::net\<close>: \<^verbatim>\<open>IpAddr::to_string\<close> and
  \<^verbatim>\<open>str::parse::<IpAddr>\<close>.  An address is its octets in network order.
\<close>

datatype ip_addr = V4 "byte list" | V6 "byte list"

fun ip_wf :: "ip_addr \<Rightarrow> bool" where
  "ip_wf (V4 bs) = (length bs = 4)"
| "ip_wf (V6 bs) = (length bs = 16)"

fun ip_octets :: "ip_addr \<Rightarrow> byte list" where
  "ip_octets (V4 bs) = bs"
| "ip_octets (V6 bs) = bs"

section \<open>Display\<close>

definition display_v4 :: "byte list \<Rightarrow> string" where
  "display_v4 bs = str_join ''.'' (map (\<lambda>b. show_nat (unat b)) bs)"

fun segments :: "byte list \<Rightarrow> nat list" where
  "segments (a # b # bs) = (unat a * 256 + unat b) # segments bs"
| "segments _ = []"

definition hex_char :: "nat \<Rightarrow> char" where
  "hex_char n = (if n < 10 then digit_char n else char_of (87 + n))"

fun show_hex :: "nat \<Rightarrow> string" where
  "show_hex n = (if n < 16 then [hex_char n] else show_hex (n div 16) @ [hex_char (n mod 16)])"

declare show_hex.simps [simp del]

text \<open>The first longest run of zero segments, as its start and length.\<close>

fun zero_run :: "nat \<Rightarrow> nat \<times> nat \<Rightarrow> nat \<times> nat \<Rightarrow> nat list \<Rightarrow> nat \<times> nat" where
  "zero_run i cur best [] = best"
| "zero_run i cur best (s # ss) =
    (if s = 0 then
       let cur = (if snd cur = 0 then i else fst cur, snd cur + 1)
       in zero_run (i + 1) cur (if snd cur > snd best then cur else best) ss
     else zero_run (i + 1) (0, 0) best ss)"

definition fmt_subslice :: "nat list \<Rightarrow> string" where
  "fmt_subslice ss = str_join '':'' (map show_hex ss)"

definition display_v6 :: "byte list \<Rightarrow> string" where
  "display_v6 bs =
    (if take 12 bs = replicate 10 0 @ [255, 255] then ''::ffff:'' @ display_v4 (drop 12 bs)
     else
       let ss = segments bs; (start, len) = zero_run 0 (0, 0) (0, 0) ss
       in if len > 1 then fmt_subslice (take start ss) @ ''::'' @ fmt_subslice (drop (start + len) ss)
          else fmt_subslice ss)"

fun ip_display :: "ip_addr \<Rightarrow> string" where
  "ip_display (V4 bs) = display_v4 bs"
| "ip_display (V6 bs) = display_v6 bs"

section \<open>Parsing\<close>

definition to_digit :: "nat \<Rightarrow> char \<Rightarrow> nat option" where
  "to_digit radix c =
    (let n = of_char c :: nat;
         d = (if 48 \<le> n \<and> n \<le> 57 then n - 48
              else if 97 \<le> n \<and> n \<le> 122 then n - 87
              else if 65 \<le> n \<and> n \<le> 90 then n - 55 else radix)
     in if d < radix then Some d else None)"

text \<open>Digits as long as there are any, at most \<open>max_digits\<close> of them.\<close>

fun read_digits :: "nat \<Rightarrow> nat \<Rightarrow> nat \<Rightarrow> nat \<Rightarrow> string \<Rightarrow> (nat \<times> nat \<times> string) option" where
  "read_digits radix max_digits acc count [] = Some (acc, count, [])"
| "read_digits radix max_digits acc count (c # s) =
    (case to_digit radix c of
       None \<Rightarrow> Some (acc, count, c # s)
     | Some d \<Rightarrow>
         if count + 1 > max_digits then None
         else read_digits radix max_digits (acc * radix + d) (count + 1) s)"

definition read_number :: "nat \<Rightarrow> nat \<Rightarrow> bool \<Rightarrow> nat \<Rightarrow> string \<Rightarrow> (nat \<times> string) option" where
  "read_number radix max_digits allow_zero_prefix bound s =
    (case read_digits radix max_digits 0 0 s of
       None \<Rightarrow> None
     | Some (v, count, rest) \<Rightarrow>
         if count = 0 then None
         else if \<not> allow_zero_prefix \<and> take 1 s = ''0'' \<and> count > 1 then None
         else if v < bound then Some (v, rest) else None)"

definition read_given_char :: "char \<Rightarrow> string \<Rightarrow> string option" where
  "read_given_char c s = (case s of d # r \<Rightarrow> if d = c then Some r else None | [] \<Rightarrow> None)"

definition read_separator ::
  "char \<Rightarrow> nat \<Rightarrow> (string \<Rightarrow> ('a \<times> string) option) \<Rightarrow> string \<Rightarrow> ('a \<times> string) option" where
  "read_separator sep i p s = (if i > 0 then Option.bind (read_given_char sep s) p else p s)"

fun read_octets :: "nat \<Rightarrow> nat \<Rightarrow> string \<Rightarrow> (byte list \<times> string) option" where
  "read_octets i 0 s = Some ([], s)"
| "read_octets i (Suc n) s =
    Option.bind (read_separator CHR ''.'' i (read_number 10 3 False 256) s) (\<lambda>(v, s).
    Option.bind (read_octets (i + 1) n s) (\<lambda>(bs, s). Some (word_of_nat v # bs, s)))"

definition read_ipv4_addr :: "string \<Rightarrow> (byte list \<times> string) option" where
  "read_ipv4_addr s = read_octets 0 4 s"

text \<open>Up to \<open>n\<close> groups of hexadecimal digits, the last two of which may be written as an IPv4 address.\<close>

fun read_groups :: "nat \<Rightarrow> nat \<Rightarrow> string \<Rightarrow> byte list \<times> bool \<times> string" where
  "read_groups i 0 s = ([], False, s)"
| "read_groups i (Suc n) s =
    (case (if n > 0 then read_separator CHR '':'' i read_ipv4_addr s else None) of
       Some (v4, rest) \<Rightarrow> (v4, True, rest)
     | None \<Rightarrow>
         (case read_separator CHR '':'' i (read_number 16 4 True 65536) s of
            None \<Rightarrow> ([], False, s)
          | Some (g, rest) \<Rightarrow>
              (case read_groups (i + 1) n rest of
                 (bs, v4, rest) \<Rightarrow> (word_of_nat (g div 256) # word_of_nat (g mod 256) # bs, v4, rest))))"

definition read_ipv6_addr :: "string \<Rightarrow> (byte list \<times> string) option" where
  "read_ipv6_addr s =
    (case read_groups 0 8 s of
       (head, head_ipv4, s) \<Rightarrow>
         if length head = 16 then Some (head, s)
         else if head_ipv4 then None
         else Option.bind (read_given_char CHR '':'' s) (\<lambda>s.
           Option.bind (read_given_char CHR '':'' s) (\<lambda>s.
             case read_groups 0 (8 - (length head div 2 + 1)) s of
               (tail, _, s) \<Rightarrow> Some (head @ replicate (16 - length head - length tail) 0 @ tail, s))))"

definition ip_parse :: "string \<Rightarrow> ip_addr option" where
  "ip_parse s =
    (case (case read_ipv4_addr s of
             Some (bs, rest) \<Rightarrow> Some (V4 bs, rest)
           | None \<Rightarrow> map_option (\<lambda>(bs, rest). (V6 bs, rest)) (read_ipv6_addr s)) of
       Some (ip, []) \<Rightarrow> Some ip
     | _ \<Rightarrow> None)"

end
