(* ===== verification/Socks5.thy ===== *)
theory Socks5
  imports Wire_Cursor Byte_IO Ip_Addr
begin

text \<open>
  The SOCKS5 wire protocol (\<^verbatim>\<open>ssh-proxy-transport/src/proxy/socks5.rs\<close>): method negotiation, requests,
  replies and the UDP packet format.  A TCP stream is the reader and the writer of its two directions.
\<close>

definition SOCKS_VERSION :: u8 where
  "SOCKS_VERSION = 5"

datatype socks_error =
    SocksIo io_error
  | InvalidVersion u8
  | NoAuthNotOffered
  | InvalidRequestVersion u8
  | UnsupportedCommand u8
  | InvalidReserved u8
  | UnsupportedAddressType u8
  | DomainNotUtf8
  | InvalidUdpPacket
  | FragmentedUdpPacket
  | MissingUdpAddressType
  | TruncatedUdpAddress
  | TruncatedUdpPort
  | HostnameTooLong

definition take_exact :: "nat \<Rightarrow> reader \<Rightarrow> (socks_error, byte list \<times> reader) result" where
  "take_exact n rd = (case read_exact n rd of Inl e \<Rightarrow> Inl (SocksIo e) | Inr r \<Rightarrow> Inr r)"

definition take_u8 :: "reader \<Rightarrow> (socks_error, u8 \<times> reader) result" where
  "take_u8 rd = and_then (take_exact 1 rd) (\<lambda>(bs, rd). Inr (hd bs, rd))"

definition take_u16 :: "reader \<Rightarrow> (socks_error, u16 \<times> reader) result" where
  "take_u16 rd = and_then (take_exact 2 rd) (\<lambda>(bs, rd). Inr (u16_from_be bs, rd))"

section \<open>Negotiation, requests and replies\<close>

definition negotiate_no_auth :: "reader \<Rightarrow> writer \<Rightarrow> (socks_error, reader) result \<times> writer" where
  "negotiate_no_auth rd w =
    (case take_u8 rd of
       Inl e \<Rightarrow> (Inl e, w)
     | Inr (version, rd) \<Rightarrow>
         if version \<noteq> SOCKS_VERSION then (Inl (InvalidVersion version), w)
         else (case and_then (take_u8 rd) (\<lambda>(methods_len, rd). take_exact (unat methods_len) rd) of
             Inl e \<Rightarrow> (Inl e, w)
           | Inr (methods, rd) \<Rightarrow>
               if 0 \<notin> set methods
               then (case write_all [SOCKS_VERSION, 0xFF] w of
                   (Inl e, w) \<Rightarrow> (Inl (SocksIo e), w)
                 | (Inr _, w) \<Rightarrow> (Inl NoAuthNotOffered, w))
               else (case write_all [SOCKS_VERSION, 0] w of
                   (Inl e, w) \<Rightarrow> (Inl (SocksIo e), w)
                 | (Inr _, w) \<Rightarrow> (Inr rd, w))))"

datatype Command = Connect | Bind | UdpAssociate

record Request =
  rq_command :: Command
  rq_host :: string
  rq_port :: u16

definition read_addr :: "reader \<Rightarrow> (socks_error, string \<times> reader) result" where
  "read_addr rd =
    and_then (take_u8 rd) (\<lambda>(atyp, rd).
      if atyp = 1 then and_then (take_exact 4 rd) (\<lambda>(octets, rd). Inr (ip_display (V4 octets), rd))
      else if atyp = 3 then
        and_then (take_u8 rd) (\<lambda>(len, rd).
        and_then (take_exact (unat len) rd) (\<lambda>(name, rd).
        and_then (ok_or DomainNotUtf8 (from_utf8 name)) (\<lambda>s. Inr (s, rd))))
      else if atyp = 4 then and_then (take_exact 16 rd) (\<lambda>(octets, rd). Inr (ip_display (V6 octets), rd))
      else Inl (UnsupportedAddressType atyp))"

definition command_of :: "u8 \<Rightarrow> (socks_error, Command) result" where
  "command_of c =
    (if c = 1 then Inr Connect else if c = 2 then Inr Bind else if c = 3 then Inr UdpAssociate
     else Inl (UnsupportedCommand c))"

definition request_read_from :: "reader \<Rightarrow> (socks_error, Request \<times> reader) result" where
  "request_read_from rd =
    and_then (take_u8 rd) (\<lambda>(version, rd).
    if version \<noteq> SOCKS_VERSION then Inl (InvalidRequestVersion version)
    else and_then (take_u8 rd) (\<lambda>(c, rd).
      and_then (command_of c) (\<lambda>command.
      and_then (take_u8 rd) (\<lambda>(reserved, rd).
      if reserved \<noteq> 0 then Inl (InvalidReserved reserved)
      else and_then (read_addr rd) (\<lambda>(host, rd).
        and_then (take_u16 rd) (\<lambda>(port, rd).
          Inr (\<lparr>rq_command = command, rq_host = host, rq_port = port\<rparr>, rd)))))))"

datatype Reply = Succeeded | HostUnreachable | CommandNotSupported

fun reply_code :: "Reply \<Rightarrow> u8" where
  "reply_code Succeeded = 0"
| "reply_code HostUnreachable = 4"
| "reply_code CommandNotSupported = 7"

definition addr_bytes :: "ip_addr \<Rightarrow> byte list" where
  "addr_bytes ip = (case ip of V4 octets \<Rightarrow> 1 # octets | V6 octets \<Rightarrow> 4 # octets)"

definition reply :: "Reply \<Rightarrow> ip_addr \<Rightarrow> u16 \<Rightarrow> writer \<Rightarrow> (io_error, unit) result \<times> writer" where
  "reply r ip port w = write_all ([SOCKS_VERSION, reply_code r, 0] @ addr_bytes ip @ u16_to_be port) w"

section \<open>UDP packets\<close>

record UdpPacket =
  up_host :: string
  up_port :: u16
  up_data :: "byte list"

definition parse_udp_packet :: "byte list \<Rightarrow> (socks_error, UdpPacket) result" where
  "parse_udp_packet bytes =
    (if length bytes < 4 \<or> bytes ! 0 \<noteq> 0 \<or> bytes ! 1 \<noteq> 0 then Inl InvalidUdpPacket
     else if bytes ! 2 \<noteq> 0 then Inl FragmentedUdpPacket
     else let pos = 3 in
       and_then
        (and_then (ok_or MissingUdpAddressType (if pos < length bytes then Some (bytes ! pos) else None)) (\<lambda>atyp.
         if atyp = 1 then
           and_then (ok_or TruncatedUdpAddress (slice_get bytes (pos + 1) (pos + 5)))
             (\<lambda>addr. Inr (ip_display (V4 addr), pos + 5))
         else if atyp = 3 then
           and_then (ok_or TruncatedUdpAddress
             (if pos + 1 < length bytes then Some (bytes ! (pos + 1)) else None)) (\<lambda>len.
           and_then (ok_or TruncatedUdpAddress (slice_get bytes (pos + 2) (pos + 2 + unat len))) (\<lambda>name.
           and_then (ok_or DomainNotUtf8 (from_utf8 name)) (\<lambda>s. Inr (s, pos + 2 + unat len))))
         else if atyp = 4 then
           and_then (ok_or TruncatedUdpAddress (slice_get bytes (pos + 1) (pos + 17)))
             (\<lambda>addr. Inr (ip_display (V6 addr), pos + 17))
         else Inl (UnsupportedAddressType atyp)))
        (\<lambda>(host, pos).
          and_then (ok_or TruncatedUdpPort (slice_get bytes pos (pos + 2))) (\<lambda>port_bytes.
            Inr \<lparr>up_host = host, up_port = u16_from_be port_bytes, up_data = drop (pos + 2) bytes\<rparr>)))"

definition build_udp_packet :: "string \<Rightarrow> u16 \<Rightarrow> byte list \<Rightarrow> (socks_error, byte list) result" where
  "build_udp_packet host port d =
    and_then
      (case ip_parse host of
         Some ip \<Rightarrow> Inr ([0, 0, 0] @ addr_bytes ip)
       | None \<Rightarrow>
           (let bytes = as_bytes host in
            if length bytes > 255 then Inl HostnameTooLong
            else Inr ([0, 0, 0] @ [3, word_of_nat (length bytes)] @ bytes)))
      (\<lambda>out. Inr (out @ u16_to_be port @ d))"

section \<open>Parsed addresses have their octets\<close>

lemma read_octets_length: "read_octets i n s = Some (bs, rest) \<Longrightarrow> length bs = n"
  by (induction i n s arbitrary: bs rest rule: read_octets.induct) (auto simp: bind_eq_Some_conv)

lemma read_groups_length: "read_groups i n s = (bs, v4, rest) \<Longrightarrow> length bs \<le> 2 * n \<and> even (length bs)"
proof (induction i n s arbitrary: bs v4 rest rule: read_groups.induct)
  case (2 i n s)
  have v4: "length b = 4" if "read_separator CHR '':'' i read_ipv4_addr s = Some (b, r)" for b r
    using that by (auto simp: read_separator_def read_ipv4_addr_def bind_eq_Some_conv dest: read_octets_length split: if_splits)
  show ?case
    using "2.prems" "2.IH" v4 by (fastforce split: option.splits if_splits prod.splits)
qed simp

lemma read_ipv6_length:
  assumes "read_ipv6_addr s = Some (bs, rest)"
  shows "length bs = 16"
proof -
  obtain head v4 r1 where head: "read_groups 0 8 s = (head, v4, r1)" by (cases "read_groups 0 8 s")
  have h: "length head \<le> 16" "even (length head)" using read_groups_length [OF head] by auto
  show ?thesis
  proof (cases "length head = 16")
    case True
    then show ?thesis using assms head by (simp add: read_ipv6_addr_def)
  next
    case False
    let ?n = "8 - (length head div 2 + 1)"
    obtain r2 where r2: "(case read_groups 0 ?n r2 of (tail, _, s) \<Rightarrow>
        Some (head @ replicate (16 - length head - length tail) 0 @ tail, s)) = Some (bs, rest)"
      using assms head False by (auto simp: read_ipv6_addr_def bind_eq_Some_conv split: if_splits)
    obtain tail v4' r3 where tail: "read_groups 0 ?n r2 = (tail, v4', r3)"
      by (cases "read_groups 0 ?n r2")
    have bs: "bs = head @ replicate (16 - length head - length tail) 0 @ tail"
      using r2 unfolding tail by simp
    have "length tail \<le> 2 * ?n" using read_groups_length [OF tail] by simp
    moreover have "2 * (length head div 2) = length head" using h(2) by simp
    ultimately have "length head + length tail \<le> 16" using h False by linarith
    then show ?thesis by (simp add: bs)
  qed
qed

lemma ip_parse_wf:
  assumes "ip_parse s = Some ip"
  shows "ip_wf ip"
proof (cases "read_ipv4_addr s")
  case None
  then obtain bs where "read_ipv6_addr s = Some (bs, [])" "ip = V6 bs"
    using assms by (auto simp: ip_parse_def split: option.splits list.splits)
  then show ?thesis using read_ipv6_length by simp
next
  case (Some p)
  then obtain bs where bs: "read_octets 0 4 s = Some (bs, [])" "ip = V4 bs"
    using assms by (cases p) (auto simp: ip_parse_def read_ipv4_addr_def split: list.splits)
  show ?thesis using read_octets_length [OF bs(1)] bs(2) by simp
qed

section \<open>UDP packets round trip\<close>

text \<open>The host a packet is read back with: an address in its canonical form, a name as it is.\<close>

definition canonical_host :: "string \<Rightarrow> string" where
  "canonical_host host = (case ip_parse host of Some ip \<Rightarrow> ip_display ip | None \<Rightarrow> host)"

lemma slice_get_mid: "length a = i \<Longrightarrow> length b = n \<Longrightarrow> slice_get (a @ b @ c) i (i + n) = Some b"
  by (auto simp: slice_get_def)

lemma drop_exact: "length a = n \<Longrightarrow> drop n (a @ b) = b"
  by simp

lemma parse_addr:
  assumes "ip_wf ip"
  shows "parse_udp_packet ([0, 0, 0] @ addr_bytes ip @ u16_to_be port @ d) =
    Inr \<lparr>up_host = ip_display ip, up_port = port, up_data = d\<rparr>"
proof (cases ip)
  case (V4 bs)
  then have len: "length bs = 4" using assms by simp
  show ?thesis
    using slice_get_mid [of "[0, 0, 0, 1]" 4 bs 4 "u16_to_be port @ d"]
      slice_get_mid [of "[0, 0, 0, 1] @ bs" 8 "u16_to_be port" 2 d] len
    by (simp add: V4 parse_udp_packet_def addr_bytes_def)
next
  case (V6 bs)
  then have len: "length bs = 16" using assms by simp
  show ?thesis
    using slice_get_mid [of "[0, 0, 0, 4]" 4 bs 16 "u16_to_be port @ d"]
      slice_get_mid [of "[0, 0, 0, 4] @ bs" 20 "u16_to_be port" 2 d] len
    by (simp add: V6 parse_udp_packet_def addr_bytes_def)
qed

lemma parse_name:
  assumes "length host \<le> 255" and "str_ok host"
  shows "parse_udp_packet ([0, 0, 0, 3, word_of_nat (length host)] @ as_bytes host @ u16_to_be port @ d) =
    Inr \<lparr>up_host = host, up_port = port, up_data = d\<rparr>"
proof -
  have "unat (word_of_nat (length host) :: u8) = length host"
    using assms(1) by (simp add: unat_of_nat)
  then show ?thesis
    using slice_get_mid [of "[0, 0, 0, 3, word_of_nat (length host)]" 5 "as_bytes host" "length host" "u16_to_be port @ d"]
      slice_get_mid [of "[0, 0, 0, 3, word_of_nat (length host)] @ as_bytes host" "5 + length host" "u16_to_be port" 2 d]
      drop_exact [of "[0, 3, word_of_nat (length host)] @ as_bytes host @ u16_to_be port" "length host + 5" d]
      assms(2)
    by (simp add: parse_udp_packet_def add.commute)
qed

text \<open>
  C22. A UDP packet built for a host is read back with the same port and payload and with the host in its
  canonical form, an IP address in its standard notation and a name unchanged; building fails exactly for names of
  more than 255 bytes.
\<close>

theorem socks_udp_round_trip:
  assumes "str_ok host"
  shows "(\<forall>bytes. build_udp_packet host port d = Inr bytes \<longrightarrow>
      parse_udp_packet bytes = Inr \<lparr>up_host = canonical_host host, up_port = port, up_data = d\<rparr>) \<and>
    (is_ok (build_udp_packet host port d) \<longleftrightarrow> ip_parse host \<noteq> None \<or> length host \<le> 255)"
proof (cases "ip_parse host")
  case None
  then show ?thesis
    using parse_name [OF _ assms, of port d]
    by (auto simp: build_udp_packet_def canonical_host_def Let_def)
next
  case (Some ip)
  then show ?thesis
    using parse_addr [OF ip_parse_wf [OF Some], of port d]
    by (auto simp: build_udp_packet_def canonical_host_def)
qed

lemma name_is_no_address:
  assumes "to_digit 10 c = None" and "to_digit 16 c = None" and "c \<noteq> CHR '':''"
  shows "ip_parse (c # s) = None"
proof -
  have no: "read_number r m z b (c # s) = None" if "to_digit r c = None" for r m z b
    using that by (simp add: read_number_def)
  have "read_octets 0 (Suc n) (c # s) = None" for n
    using no [OF assms(1)] by (simp add: read_separator_def)
  then have v4: "read_ipv4_addr (c # s) = None"
    unfolding read_ipv4_addr_def by (metis numeral_eq_Suc)
  have "read_groups 0 (Suc n) (c # s) = ([], False, c # s)" for n
    using no [OF assms(2)] v4 by (simp add: read_separator_def)
  then have "read_groups 0 8 (c # s) = ([], False, c # s)"
    by (metis numeral_eq_Suc)
  then show ?thesis
    using assms(3) v4 by (simp add: ip_parse_def read_ipv6_addr_def read_given_char_def)
qed

lemma localhost_is_a_name: "ip_parse ''localhost'' = None" "str_ok ''localhost''"
  by (rule name_is_no_address; simp add: to_digit_def) code_simp

theorem socks_udp_round_trip_witness:
  "\<exists>bytes. build_udp_packet ''localhost'' 5353 [1, 2] = Inr bytes \<and>
    parse_udp_packet bytes = Inr \<lparr>up_host = ''localhost'', up_port = 5353, up_data = [1, 2]\<rparr>"
  using socks_udp_round_trip [OF localhost_is_a_name(2), of 5353 "[1, 2]"]
  by (cases "build_udp_packet ''localhost'' 5353 [1, 2]") (simp_all add: canonical_host_def localhost_is_a_name is_ok_def)

section \<open>Readers that accept exactly a language\<close>

text \<open>
  A reader accepts exactly \<open>L\<close> when it returns \<open>x\<close> and leaves \<open>rest\<close> precisely on streams that start with
  bytes of \<open>L x\<close>, however they are cut into chunks.
\<close>

definition reads_exactly ::
  "(reader \<Rightarrow> ('e, 'x \<times> reader) result) \<Rightarrow> ('x \<Rightarrow> byte list \<Rightarrow> bool) \<Rightarrow> bool" where
  "reads_exactly p L \<longleftrightarrow> (\<forall>rd x rest.
    (\<exists>rd'. p rd = Inr (x, rd') \<and> flat rd' = rest) \<longleftrightarrow> (\<exists>bs. flat rd = bs @ rest \<and> L x bs))"

lemma reads_exactlyI:
  assumes "\<And>rd x rd'. p rd = Inr (x, rd') \<Longrightarrow> \<exists>bs. flat rd = bs @ flat rd' \<and> L x bs"
    and "\<And>rd x bs rest. flat rd = bs @ rest \<Longrightarrow> L x bs \<Longrightarrow> \<exists>rd'. p rd = Inr (x, rd') \<and> flat rd' = rest"
  shows "reads_exactly p L"
  using assms unfolding reads_exactly_def by blast

lemma reads_exactlyD1:
  "reads_exactly p L \<Longrightarrow> p rd = Inr (x, rd') \<Longrightarrow> \<exists>bs. flat rd = bs @ flat rd' \<and> L x bs"
  unfolding reads_exactly_def by blast

lemma reads_exactlyD2:
  "reads_exactly p L \<Longrightarrow> flat rd = bs @ rest \<Longrightarrow> L x bs \<Longrightarrow> \<exists>rd'. p rd = Inr (x, rd') \<and> flat rd' = rest"
  unfolding reads_exactly_def by blast

lemma reads_exactly_bind:
  assumes p: "reads_exactly p L" and q: "\<And>x. reads_exactly (q x) (M x)"
  shows "reads_exactly (\<lambda>rd. and_then (p rd) (\<lambda>(x, rd). q x rd))
    (\<lambda>y bs. \<exists>x b1 b2. bs = b1 @ b2 \<and> L x b1 \<and> M x y b2)"
proof (rule reads_exactlyI)
  fix rd y rd'
  assume "and_then (p rd) (\<lambda>(x, rd). q x rd) = Inr (y, rd')"
  then obtain x rd1 where "p rd = Inr (x, rd1)" "q x rd1 = Inr (y, rd')"
    by (auto simp: result_simps)
  then show "\<exists>bs. flat rd = bs @ flat rd' \<and> (\<exists>x b1 b2. bs = b1 @ b2 \<and> L x b1 \<and> M x y b2)"
    using reads_exactlyD1 [OF p] reads_exactlyD1 [OF q] by (metis append.assoc)
next
  fix rd y bs rest
  assume "flat rd = bs @ rest" and "\<exists>x b1 b2. bs = b1 @ b2 \<and> L x b1 \<and> M x y b2"
  then obtain x b1 b2 where "flat rd = b1 @ b2 @ rest" "L x b1" "M x y b2" by auto
  moreover obtain rd1 where "p rd = Inr (x, rd1)" "flat rd1 = b2 @ rest"
    using reads_exactlyD2 [OF p] calculation by blast
  moreover obtain rd' where "q x rd1 = Inr (y, rd')" "flat rd' = rest"
    using reads_exactlyD2 [OF q] calculation by blast
  ultimately show "\<exists>rd'. and_then (p rd) (\<lambda>(x, rd). q x rd) = Inr (y, rd') \<and> flat rd' = rest"
    by auto
qed

lemma reads_exactly_return: "reads_exactly (\<lambda>rd. Inr (x, rd)) (\<lambda>y bs. y = x \<and> bs = [])"
  by (rule reads_exactlyI) auto

lemma reads_exactly_fail: "reads_exactly (\<lambda>rd. Inl e) (\<lambda>y bs. False)"
  by (rule reads_exactlyI) auto

lemma reads_exactly_if:
  "reads_exactly p L \<Longrightarrow> reads_exactly q M \<Longrightarrow>
    reads_exactly (\<lambda>rd. if c then p rd else q rd) (\<lambda>y bs. if c then L y bs else M y bs)"
  by (cases c) simp_all

lemma reads_exactly_pure:
  "(\<And>x. r = Inr x \<Longrightarrow> reads_exactly (q x) (M x)) \<Longrightarrow>
    reads_exactly (\<lambda>rd. and_then r (\<lambda>x. q x rd)) (\<lambda>y bs. \<exists>x. r = Inr x \<and> M x y bs)"
  by (cases r) (auto simp: reads_exactly_fail)

lemma reads_exactly_cong: "reads_exactly p L \<Longrightarrow> (\<And>x bs. L x bs \<longleftrightarrow> M x bs) \<Longrightarrow> reads_exactly p M"
  unfolding reads_exactly_def by simp

lemma take_exact_reads: "reads_exactly (take_exact n) (\<lambda>x bs. x = bs \<and> length bs = n)"
proof (rule reads_exactlyI)
  fix rd x rd'
  assume "take_exact n rd = Inr (x, rd')"
  then have "read_exact n rd = Inr (x, rd')"
    by (auto simp: take_exact_def split: sum.splits)
  then show "\<exists>bs. flat rd = bs @ flat rd' \<and> x = bs \<and> length bs = n"
    using read_exact_Inr_iff [of n rd x "flat rd'"] by auto
next
  fix rd x bs rest
  assume "flat rd = bs @ rest" and "x = bs \<and> length bs = n"
  then show "\<exists>rd'. take_exact n rd = Inr (x, rd') \<and> flat rd' = rest"
    using read_exact_Inr_iff [of n rd x rest] by (auto simp: take_exact_def)
qed

lemma take_u8_reads: "reads_exactly take_u8 (\<lambda>x bs. bs = [x])"
  unfolding take_u8_def
  by (rule reads_exactly_cong, rule reads_exactly_bind [OF take_exact_reads reads_exactly_return])
    (auto simp: length_Suc_conv)

lemma take_u16_reads: "reads_exactly take_u16 (\<lambda>x bs. bs = u16_to_be x)"
  unfolding take_u16_def
  by (rule reads_exactly_cong, rule reads_exactly_bind [OF take_exact_reads reads_exactly_return])
    (auto simp: u16_field.put_get)

section \<open>Requests\<close>

text \<open>The destinations of the protocol, their wire form, and the host the program uses for them.\<close>

datatype destination = DestIp ip_addr | DestName string

fun dest_ok :: "destination \<Rightarrow> bool" where
  "dest_ok (DestIp ip) = ip_wf ip"
| "dest_ok (DestName name) = (length name \<le> 255 \<and> str_ok name)"

fun dest_bytes :: "destination \<Rightarrow> byte list" where
  "dest_bytes (DestIp ip) = addr_bytes ip"
| "dest_bytes (DestName name) = [3, word_of_nat (length name)] @ as_bytes name"

fun dest_host :: "destination \<Rightarrow> string" where
  "dest_host (DestIp ip) = ip_display ip"
| "dest_host (DestName name) = name"

lemma name_length_byte: "length name \<le> 255 \<Longrightarrow> unat (word_of_nat (length name) :: u8) = length name"
  by (simp add: unat_of_nat)

lemma dest_language:
  "(\<exists>atyp b. bs = atyp # b \<and>
      (if atyp = 1 then \<exists>oct. b = oct \<and> length oct = 4 \<and> h = ip_display (V4 oct)
       else if atyp = 3 then \<exists>len name. b = len # name \<and> length name = unat len \<and> from_utf8 name = Some h
       else if atyp = 4 then \<exists>oct. b = oct \<and> length oct = 16 \<and> h = ip_display (V6 oct)
       else False)) \<longleftrightarrow>
    (\<exists>dest. dest_ok dest \<and> h = dest_host dest \<and> bs = dest_bytes dest)"
  (is "?l \<longleftrightarrow> ?r")
proof
  assume ?l
  then obtain atyp b where bs: "bs = atyp # b" and b: "if atyp = 1 then \<exists>oct. b = oct \<and> length oct = 4 \<and> h = ip_display (V4 oct)
       else if atyp = 3 then \<exists>len name. b = len # name \<and> length name = unat len \<and> from_utf8 name = Some h
       else if atyp = 4 then \<exists>oct. b = oct \<and> length oct = 16 \<and> h = ip_display (V6 oct)
       else False" by blast
  consider "atyp = 1" | "atyp = 3" | "atyp = 4" using b by (auto split: if_splits)
  then show ?r
  proof cases
    case 1
    then show ?thesis using b bs by (intro exI [of _ "DestIp (V4 b)"]) (simp add: addr_bytes_def)
  next
    case 2
    then obtain len where len: "b = len # as_bytes h" "length h = unat len" "str_ok h"
      using b by (auto simp: from_utf8_Some_iff)
    then have "length h \<le> 255" "word_of_nat (length h) = len"
      using unat_less [of len] by simp_all
    then show ?thesis using len bs 2 by (intro exI [of _ "DestName h"]) simp
  next
    case 3
    then show ?thesis using b bs by (intro exI [of _ "DestIp (V6 b)"]) (simp add: addr_bytes_def)
  qed
next
  assume ?r
  then obtain dest where "dest_ok dest" "h = dest_host dest" "bs = dest_bytes dest" by blast
  then show ?l
    by (cases dest; cases "case dest of DestIp ip \<Rightarrow> ip | _ \<Rightarrow> V4 []")
      (simp_all add: addr_bytes_def name_length_byte)
qed

lemma read_addr_reads: "reads_exactly read_addr
    (\<lambda>host bs. \<exists>dest. dest_ok dest \<and> host = dest_host dest \<and> bs = dest_bytes dest)"
  unfolding read_addr_def
proof (rule reads_exactly_cong)
  let ?name = "\<lambda>rd. and_then (take_u8 rd) (\<lambda>(len, rd). and_then (take_exact (unat len) rd) (\<lambda>(name, rd).
    and_then (ok_or DomainNotUtf8 (from_utf8 name)) (\<lambda>s. Inr (s, rd))))"
  have name: "reads_exactly ?name (\<lambda>h bs. \<exists>len name. bs = len # name \<and> length name = unat len \<and> from_utf8 name = Some h)"
    by (rule reads_exactly_cong, rule reads_exactly_bind [OF take_u8_reads],
        rule reads_exactly_bind [OF take_exact_reads], rule reads_exactly_pure, rule reads_exactly_return)
      (auto simp: result_simps)
  have v4: "reads_exactly (\<lambda>rd. and_then (take_exact 4 rd) (\<lambda>(octets, rd). Inr (ip_display (V4 octets), rd)))
      (\<lambda>h bs. \<exists>oct. bs = oct \<and> length oct = 4 \<and> h = ip_display (V4 oct))"
    by (rule reads_exactly_cong, rule reads_exactly_bind [OF take_exact_reads reads_exactly_return]) auto
  have v6: "reads_exactly (\<lambda>rd. and_then (take_exact 16 rd) (\<lambda>(octets, rd). Inr (ip_display (V6 octets), rd)))
      (\<lambda>h bs. \<exists>oct. bs = oct \<and> length oct = 16 \<and> h = ip_display (V6 oct))"
    by (rule reads_exactly_cong, rule reads_exactly_bind [OF take_exact_reads reads_exactly_return]) auto
  show "reads_exactly (\<lambda>rd. and_then (take_u8 rd) (\<lambda>(atyp, rd).
      if atyp = 1 then and_then (take_exact 4 rd) (\<lambda>(octets, rd). Inr (ip_display (V4 octets), rd))
      else if atyp = 3 then ?name rd
      else if atyp = 4 then and_then (take_exact 16 rd) (\<lambda>(octets, rd). Inr (ip_display (V6 octets), rd))
      else Inl (UnsupportedAddressType atyp)))
    (\<lambda>h bs. \<exists>atyp b1 b2. bs = b1 @ b2 \<and> b1 = [atyp] \<and>
      (if atyp = 1 then \<exists>oct. b2 = oct \<and> length oct = 4 \<and> h = ip_display (V4 oct)
       else if atyp = 3 then \<exists>len name. b2 = len # name \<and> length name = unat len \<and> from_utf8 name = Some h
       else if atyp = 4 then \<exists>oct. b2 = oct \<and> length oct = 16 \<and> h = ip_display (V6 oct)
       else False))"
    by (intro reads_exactly_bind take_u8_reads reads_exactly_if reads_exactly_fail v4 v6 name)
qed (subst dest_language [symmetric], auto)

fun command_code :: "Command \<Rightarrow> u8" where
  "command_code Connect = 1"
| "command_code Bind = 2"
| "command_code UdpAssociate = 3"

lemma command_of_iff: "command_of c = Inr cmd \<longleftrightarrow> c = command_code cmd"
  by (cases cmd) (auto simp: command_of_def)

text \<open>
  C21. The request reader accepts exactly the well-formed requests: version 5, a known command, a zero byte, a
  destination (four or sixteen octets, or a UTF-8 name of at most 255 bytes) and a port; it returns that
  command, destination and port and leaves what follows, however the bytes arrive.
\<close>

theorem socks_request_exact:
  "(\<exists>rd'. request_read_from rd = Inr (\<lparr>rq_command = cmd, rq_host = host, rq_port = port\<rparr>, rd') \<and> flat rd' = rest) \<longleftrightarrow>
    (\<exists>dest. dest_ok dest \<and> host = dest_host dest \<and>
      flat rd = [5, command_code cmd, 0] @ dest_bytes dest @ u16_to_be port @ rest)"
proof -
  let ?L = "\<lambda>rq bs. \<exists>dest. dest_ok dest \<and> rq_host rq = dest_host dest \<and>
    bs = [5, command_code (rq_command rq), 0] @ dest_bytes dest @ u16_to_be (rq_port rq)"
  have "reads_exactly request_read_from ?L"
    unfolding request_read_from_def
    apply (rule reads_exactly_cong, rule reads_exactly_bind [OF take_u8_reads], rule reads_exactly_if,
        rule reads_exactly_fail, rule reads_exactly_bind [OF take_u8_reads], rule reads_exactly_pure,
        rule reads_exactly_bind [OF take_u8_reads], rule reads_exactly_if, rule reads_exactly_fail,
        rule reads_exactly_bind [OF read_addr_reads], rule reads_exactly_bind [OF take_u16_reads],
        rule reads_exactly_return)
    apply (auto simp: command_of_iff SOCKS_VERSION_def split: if_splits)
    subgoal for x dest
      by (intro exI [of _ "rq_command x"] conjI refl exI [of _ "rq_host x"] exI [of _ "dest_bytes dest"]
        exI [of _ "u16_to_be (rq_port x)"] exI [of _ dest] exI [of _ "rq_port x"]) auto
    done
  then show ?thesis
    unfolding reads_exactly_def by auto
qed

end
