(* ===== verification/Http_Proxy.thy ===== *)
theory Http_Proxy
  imports Byte_IO Rust_Strings
begin

text \<open>
  The HTTP proxy (\<^verbatim>\<open>ssh-proxy-transport/src/proxy/http.rs\<close>): reading and rewriting of proxy requests and of
  response heads.  Header text is a string of UTF-8 bytes.
\<close>

datatype HttpRequestKind =
    HttpConnect string u16
  | HttpForward string u16 "byte list"

datatype HttpResponseBodyMode = ContentLength u64 | Chunked | CloseDelimited | NoBody

datatype http_error =
    HttpIo io_error
  | ClosedBeforeHeaders
  | HeadersTooLarge
  | MissingHeaderTerminator
  | HeadersNotUtf8
  | MissingMethod
  | MissingTarget
  | MissingVersion
  | InvalidRequestLine
  | UnsupportedTarget
  | MissingStatus
  | InvalidStatusLine
  | InvalidStatus
  | EmptyAuthority
  | InvalidBracketedAuthority
  | InvalidAuthorityPort
  | InvalidAuthoritySuffix

section \<open>Text helpers of the standard library\<close>

definition CRLF :: string where
  "CRLF = [CHR 0x0D, CHR 0x0A]"

text \<open>\<^verbatim>\<open>str::split\<close> at every occurrence of the line end.\<close>

fun split_crlf :: "string \<Rightarrow> string list" where
  "split_crlf [] = [[]]"
| "split_crlf [c] = [[c]]"
| "split_crlf (c # d # s) =
    (if c = CHR 0x0D \<and> d = CHR 0x0A then [] # split_crlf s
     else (case split_crlf (d # s) of w # ws \<Rightarrow> (c # w) # ws | [] \<Rightarrow> [[c]]))"

definition split_at_first :: "char list \<Rightarrow> string \<Rightarrow> (string \<times> string) option" where
  "split_at_first cs s =
    (if \<exists>c\<in>set s. c \<in> set cs
     then Some (takeWhile (\<lambda>c. c \<notin> set cs) s, dropWhile (\<lambda>c. c \<notin> set cs) s) else None)"

section \<open>Headers\<close>

fun header_end_from :: "nat \<Rightarrow> byte list \<Rightarrow> nat option" where
  "header_end_from pos [] = None"
| "header_end_from pos (b # bs) =
    (if take 4 (b # bs) = [0x0D, 0x0A, 0x0D, 0x0A] then Some (pos + 4) else header_end_from (pos + 1) bs)"

definition http_header_end :: "byte list \<Rightarrow> nat option" where
  "http_header_end bytes = header_end_from 0 bytes"

definition split_header :: "string \<Rightarrow> (string \<times> string) option" where
  "split_header line = map_option (\<lambda>(name, v). (trim name, trim v)) (split_once line '':'')"

definition hop_by_hop_headers :: "string list" where
  "hop_by_hop_headers = [''connection'', ''keep-alive'', ''proxy-authenticate'', ''proxy-authorization'',
    ''proxy-connection'', ''te'', ''trailer'', ''upgrade'']"

definition is_static_hop_by_hop_header :: "string \<Rightarrow> bool" where
  "is_static_hop_by_hop_header name = list_ex (eq_ignore_ascii_case name) hop_by_hop_headers"

definition connection_header_tokens :: "string list \<Rightarrow> string list" where
  "connection_header_tokens headers =
    map to_ascii_lowercase (filter (\<lambda>token. token \<noteq> []) (map trim (concat (map (\<lambda>(_, v). split_char CHR '','' v)
      (filter (\<lambda>(name, _). eq_ignore_ascii_case name ''connection'') (List.map_filter split_header headers))))))"

definition should_skip_forward_header :: "string \<Rightarrow> string list \<Rightarrow> bool" where
  "should_skip_forward_header line connection_tokens =
    (case split_header line of
       None \<Rightarrow> False
     | Some (name, _) \<Rightarrow>
         is_static_hop_by_hop_header name \<or> list_ex (eq_ignore_ascii_case name) connection_tokens)"

section \<open>Targets\<close>

definition parse_port :: "string \<Rightarrow> (http_error, u16) result" where
  "parse_port s = ok_or InvalidAuthorityPort (parse_u16 s)"

definition parse_host_port :: "string \<Rightarrow> u16 \<Rightarrow> (http_error, string \<times> u16) result" where
  "parse_host_port authority default_port =
    (if authority = [] then Inl EmptyAuthority
     else case strip_prefix authority ''['' of
       Some rest \<Rightarrow>
         (case split_at_first '']'' rest of
            None \<Rightarrow> Inl InvalidBracketedAuthority
          | Some (host, close_tail) \<Rightarrow>
              let tail = drop 1 close_tail in
              and_then
                (case strip_prefix tail '':'' of
                   Some port \<Rightarrow> parse_port port
                 | None \<Rightarrow> if tail = [] then Inr default_port else Inl InvalidAuthoritySuffix)
                (\<lambda>port. Inr (host, port)))
     | None \<Rightarrow>
         (case rsplit_once_char authority CHR '':'' of
            Some (host, port) \<Rightarrow>
              if CHR '':'' \<notin> set host then and_then (parse_port port) (\<lambda>port. Inr (host, port))
              else Inr (authority, default_port)
          | None \<Rightarrow> Inr (authority, default_port)))"

record AbsoluteTarget =
  at_host :: string
  at_port :: u16
  at_path :: string

definition parse_absolute_http_target :: "string \<Rightarrow> AbsoluteTarget option" where
  "parse_absolute_http_target target =
    Option.bind (strip_prefix target ''http://'') (\<lambda>rest.
      let (authority, path) =
            (case split_at_first ''/?'' rest of Some p \<Rightarrow> p | None \<Rightarrow> (rest, ''/''));
          path = (if starts_with path ''?'' then ''/'' @ path else path)
      in case parse_host_port authority 80 of
           Inl _ \<Rightarrow> None
         | Inr (host, port) \<Rightarrow> Some \<lparr>at_host = host, at_port = port, at_path = path\<rparr>)"

section \<open>Requests\<close>

definition header_lines :: "string list \<Rightarrow> string list" where
  "header_lines lines = takeWhile (\<lambda>line. line \<noteq> []) lines"

definition kept_headers :: "string list \<Rightarrow> string list" where
  "kept_headers headers =
    filter (\<lambda>line. \<not> should_skip_forward_header line (connection_header_tokens headers)) headers"

definition head_text :: "string \<Rightarrow> string list \<Rightarrow> string" where
  "head_text first kept =
    first @ CRLF @ concat (map (\<lambda>line. line @ CRLF) kept) @ ''connection: close'' @ CRLF @ CRLF"

definition next_or :: "http_error \<Rightarrow> string list \<Rightarrow> (http_error, string \<times> string list) result" where
  "next_or e parts = (case parts of [] \<Rightarrow> Inl e | p # ps \<Rightarrow> Inr (p, ps))"

text \<open>What is made of the bytes read, once the end of the headers has been seen.\<close>

definition parse_request :: "byte list \<Rightarrow> (http_error, HttpRequestKind) result" where
  "parse_request bytes =
    and_then (ok_or MissingHeaderTerminator (http_header_end bytes)) (\<lambda>header_end.
    and_then (ok_or HeadersNotUtf8 (from_utf8 (take header_end bytes))) (\<lambda>headers.
    let lines = split_crlf headers in
    and_then (next_or MissingMethod (split_whitespace (hd lines))) (\<lambda>(http_method, parts).
    and_then (next_or MissingTarget parts) (\<lambda>(target, parts).
    and_then (next_or MissingVersion parts) (\<lambda>(version, parts).
    if parts \<noteq> [] \<or> \<not> starts_with version ''HTTP/'' then Inl InvalidRequestLine
    else if eq_ignore_ascii_case http_method ''CONNECT''
    then and_then (parse_host_port target 443) (\<lambda>(host, port). Inr (HttpConnect host port))
    else and_then (ok_or UnsupportedTarget (parse_absolute_http_target target)) (\<lambda>absolute.
      Inr (HttpForward (at_host absolute) (at_port absolute)
        (as_bytes (head_text (http_method @ '' '' @ at_path absolute @ '' '' @ version)
           (kept_headers (header_lines (tl lines)))) @ drop header_end bytes))))))))"

function read_head :: "byte list \<Rightarrow> reader \<Rightarrow> (http_error, byte list \<times> reader) result" where
  "read_head bytes rd =
    (case read_some 1024 rd of
       Inl e \<Rightarrow> Inl (HttpIo e)
     | Inr (got, rd') \<Rightarrow>
         if got = [] then Inl ClosedBeforeHeaders
         else if http_header_end (bytes @ got) \<noteq> None then Inr (bytes @ got, rd')
         else if length (bytes @ got) > 64 * 1024 then Inl HeadersTooLarge
         else read_head (bytes @ got) rd')"
  by pat_completeness auto
termination
proof (relation "measure (\<lambda>(_, rd). length (flat rd))")
  fix bytes rd p got rd'
  assume "read_some 1024 rd = Inr p" "(got, rd') = p" "got \<noteq> []"
  then show "((bytes @ got, rd'), bytes, rd) \<in> measure (\<lambda>(_, rd). length (flat rd))"
    by (cases rule: read_some_cases [of rd 1024]) auto
qed simp

declare read_head.simps [simp del]

definition http_request_read_from :: "reader \<Rightarrow> (http_error, HttpRequestKind \<times> reader) result" where
  "http_request_read_from rd =
    and_then (read_head [] rd) (\<lambda>(bytes, rd).
    and_then (parse_request bytes) (\<lambda>kind. Inr (kind, rd)))"

section \<open>Responses\<close>

definition parse_response_status :: "string \<Rightarrow> (http_error, u16) result" where
  "parse_response_status status_line =
    and_then (next_or MissingVersion (split_whitespace status_line)) (\<lambda>(version, parts).
    if \<not> starts_with version ''HTTP/'' then Inl InvalidStatusLine
    else and_then (next_or MissingStatus parts) (\<lambda>(status, _). ok_or InvalidStatus (parse_u16 status)))"

definition response_status_has_no_body :: "u16 \<Rightarrow> bool" where
  "response_status_has_no_body status \<longleftrightarrow> 100 \<le> status \<and> status < 200 \<or> status = 204 \<or> status = 304"

text \<open>The framing headers seen so far: the first content length and whether the body is chunked.\<close>

definition note_framing :: "string \<Rightarrow> u64 option \<times> bool \<Rightarrow> u64 option \<times> bool" where
  "note_framing line framing =
    (case framing of (content_length, chunked) \<Rightarrow>
      (case split_header line of
         None \<Rightarrow> framing
       | Some (name, v) \<Rightarrow>
           if eq_ignore_ascii_case name ''content-length''
           then (if content_length = None then (parse_u64 v, chunked) else framing)
           else if eq_ignore_ascii_case name ''transfer-encoding''
             \<and> list_ex (\<lambda>token. eq_ignore_ascii_case (trim token) ''chunked'') (split_char CHR '','' v)
           then (content_length, True)
           else framing))"

definition rewrite_response_head_for_proxy_close ::
  "byte list \<Rightarrow> (http_error, byte list \<times> HttpResponseBodyMode) result" where
  "rewrite_response_head_for_proxy_close head =
    and_then (ok_or HeadersNotUtf8 (from_utf8 head)) (\<lambda>headers.
    let lines = split_crlf headers; status_line = hd lines in
    and_then (parse_response_status status_line) (\<lambda>status.
    let hs = header_lines (tl lines);
        (content_length, chunked) = fold note_framing hs (None, False);
        rewritten = as_bytes (head_text status_line (kept_headers hs));
        body_mode =
          (if response_status_has_no_body status then NoBody
           else if chunked then Chunked
           else case content_length of Some n \<Rightarrow> ContentLength n | None \<Rightarrow> CloseDelimited)
    in Inr (rewritten, body_mode)))"

definition write_http_error :: "u16 \<Rightarrow> string \<Rightarrow> writer \<Rightarrow> (io_error, unit) result \<times> writer" where
  "write_http_error status reason w =
    (let line = show_nat (unat status) @ '' '' @ reason;
         body = line @ [CHR 0x0A];
         response = ''HTTP/1.1 '' @ line @ CRLF @ ''content-length: '' @ show_nat (length body) @ CRLF
           @ ''connection: close'' @ CRLF @ CRLF @ body
     in write_all (as_bytes response) w)"

section \<open>Lines\<close>

text \<open>A line of the header text: without a line end inside.\<close>

definition one_line :: "string \<Rightarrow> bool" where
  "one_line s \<longleftrightarrow> \<not> str_contains s CRLF"

lemma one_line_Cons: "one_line (c # s) \<longleftrightarrow> \<not> starts_with (c # s) CRLF \<and> one_line s"
  by (simp add: one_line_def)

lemma one_line_no_cr: "CHR 0x0D \<notin> set s \<Longrightarrow> one_line s"
  by (induction s) (auto simp: one_line_def starts_with_def CRLF_def)


lemma split_crlf_line: "one_line x \<Longrightarrow> split_crlf (x @ CRLF @ r) = x # split_crlf r"
proof (induction x)
  case (Cons c x)
  have "split_crlf (x @ CRLF @ r) = x # split_crlf r"
    using Cons by (simp add: one_line_Cons)
  then show ?case
    using Cons.prems by (cases x) (auto simp: CRLF_def one_line_Cons starts_with_def)
qed (simp add: CRLF_def)


lemma split_crlf_lines:
  "\<forall>l\<in>set ls. one_line l \<Longrightarrow> split_crlf (concat (map (\<lambda>l. l @ CRLF) ls) @ r) = ls @ split_crlf r"
  using split_crlf_line by (induction ls) auto

lemma head_text_lines:
  assumes "one_line first" and "\<forall>l\<in>set kept. one_line l"
  shows "split_crlf (head_text first kept) = first # kept @ [''connection: close'', [], []]"
proof -
  have "one_line ''connection: close''"
    by (rule one_line_no_cr) simp
  then have "split_crlf (''connection: close'' @ CRLF @ CRLF) = [''connection: close'', [], []]"
    using split_crlf_line by (simp add: CRLF_def)
  then show ?thesis
    using split_crlf_line [OF assms(1)] split_crlf_lines [OF assms(2)] by (simp add: head_text_def)
qed

section \<open>Words\<close>





section \<open>The end of a rewritten head\<close>

lemma take_4_2: "take 4 xs = [a, b, c, d] \<Longrightarrow> take 2 xs = [a, b]"
  by (drule arg_cong [of _ _ "take 2"]) simp

lemma as_bytes_CRLF: "as_bytes CRLF = [0x0D, 0x0A]"
  by (simp add: as_bytes_def CRLF_def byte_of_char_def)

lemma header_end_from_shift:
  "one_line l \<Longrightarrow> \<not> starts_with r CRLF \<Longrightarrow>
    header_end_from pos (as_bytes (l @ CRLF @ r)) = header_end_from (pos + length l + 2) (as_bytes r)"
proof (induction l arbitrary: pos)
  case Nil
  have "take 4 (as_bytes (CRLF @ r)) \<noteq> [0x0D, 0x0A, 0x0D, 0x0A]"
  proof
    assume eq: "take 4 (as_bytes (CRLF @ r)) = [0x0D, 0x0A, 0x0D, 0x0A]"
    have "as_bytes (CRLF @ r) = [0x0D, 0x0A] @ as_bytes r"
      by (simp add: as_bytes_def CRLF_def byte_of_char_def)
    then have "take 2 (as_bytes r) = as_bytes CRLF"
      using eq by (simp add: as_bytes_def CRLF_def byte_of_char_def)
    then have "take 2 r = CRLF"
      by (metis as_bytes_def string_of_as_bytes take_map)
    then show False using Nil by (simp add: starts_with_def CRLF_def numeral_2_eq_2)
  qed
  then show ?case
    by (simp add: as_bytes_def CRLF_def byte_of_char_def)
next
  case (Cons c l)
  have "take 4 (as_bytes ((c # l) @ CRLF @ r)) \<noteq> [0x0D, 0x0A, 0x0D, 0x0A]"
  proof
    assume eq: "take 4 (as_bytes ((c # l) @ CRLF @ r)) = [0x0D, 0x0A, 0x0D, 0x0A]"
    then have "take 2 (as_bytes ((c # l) @ CRLF @ r)) = as_bytes CRLF"
      unfolding as_bytes_CRLF by (rule take_4_2)
    then have "take 2 ((c # l) @ CRLF @ r) = CRLF"
      by (metis as_bytes_def string_of_as_bytes take_map)
    then show False
      using Cons.prems(1) by (cases l) (auto simp: one_line_Cons starts_with_def CRLF_def)
  qed
  then show ?case
    using Cons by (auto simp: one_line_Cons as_bytes_def)
qed

lemma line_starts: "one_line l \<Longrightarrow> l \<noteq> [] \<Longrightarrow> \<not> starts_with (l @ CRLF @ r) CRLF"
  by (cases l; cases "tl l") (auto simp: one_line_Cons starts_with_def CRLF_def)

lemma header_end_lines:
  assumes "\<forall>l\<in>set ls. one_line l \<and> l \<noteq> []" and "\<not> starts_with r CRLF"
  shows "header_end_from pos (as_bytes (concat (map (\<lambda>l. l @ CRLF) ls) @ r)) =
    header_end_from (pos + length (concat (map (\<lambda>l. l @ CRLF) ls))) (as_bytes r)
   \<and> \<not> starts_with (concat (map (\<lambda>l. l @ CRLF) ls) @ r) CRLF"
  using assms
proof (induction ls arbitrary: pos)
  case (Cons l ls)
  let ?rest = "concat (map (\<lambda>l. l @ CRLF) ls) @ r"
  have "\<not> starts_with ?rest CRLF" using Cons by auto
  then have "header_end_from pos (as_bytes (l @ CRLF @ ?rest)) = header_end_from (pos + length l + 2) (as_bytes ?rest)"
    using Cons.prems by (intro header_end_from_shift) auto
  then show ?case
    using Cons line_starts [of l ?rest] by (simp add: CRLF_def add.assoc)
qed simp

lemma head_text_end:
  assumes "one_line first" "first \<noteq> []" and "\<forall>l\<in>set kept. one_line l \<and> l \<noteq> []"
  shows "http_header_end (as_bytes (head_text first kept) @ body) = Some (length (head_text first kept))"
proof -
  let ?close = "''connection: close''"
  let ?b = "string_of_bytes body"
  have close: "one_line ?close"
    by (rule one_line_no_cr) simp
  have "\<not> starts_with (?close @ CRLF @ CRLF @ ?b) CRLF"
    by (simp add: starts_with_def CRLF_def)
  then have shift: "header_end_from pos (as_bytes (concat (map (\<lambda>l. l @ CRLF) (first # kept)) @ ?close @ CRLF @ CRLF @ ?b)) =
    header_end_from (pos + length (concat (map (\<lambda>l. l @ CRLF) (first # kept)))) (as_bytes (?close @ CRLF @ CRLF @ ?b))" for pos
    using header_end_lines [of "first # kept"] assms by simp
  have close_end: "header_end_from pos (as_bytes (?close @ CRLF @ CRLF @ ?b)) = Some (pos + length (?close @ CRLF @ CRLF))" for pos
    by (simp add: as_bytes_def CRLF_def byte_of_char_def)
  have head: "as_bytes (head_text first kept) @ body =
      as_bytes (concat (map (\<lambda>l. l @ CRLF) (first # kept)) @ ?close @ CRLF @ CRLF @ ?b)"
    by (simp add: head_text_def as_bytes_def string_of_bytes_def o_def)
  have len: "length (head_text first kept) =
      length (concat (map (\<lambda>l. l @ CRLF) (first # kept))) + length (?close @ CRLF @ CRLF)"
    by (simp add: head_text_def)
  show ?thesis
    unfolding http_header_end_def head shift close_end len by (simp only: add_0)
qed

section \<open>Properties\<close>


lemma next_or_Inr_iff [result_simps]: "next_or e ps = Inr x \<longleftrightarrow> ps = fst x # snd x"
  by (cases ps; cases x) (auto simp: next_or_def)



section \<open>Samples\<close>

lemma plain_chars: "list_all plain_char ''GETCONNECThttp://h/xHTTP/1.1''"
  by (simp add: plain_char_iff)





lemma split_three:
  assumes "list_all plain_char (a @ b @ c)" "a \<noteq> []" "b \<noteq> []" "c \<noteq> []"
  shows "split_whitespace (a @ '' '' @ b @ '' '' @ c) = [a, b, c]"
  using assms split_plain [of a "[]" "'' '' @ b @ '' '' @ c"] split_plain [of b "[]" "'' '' @ c"] split_plain [of c "[]" "[]"]
  by (simp add: split_whitespace_def split_space list_all_iff del: split_whitespace_from.simps(2))

lemma sample_words:
  "split_whitespace ''GET http://h/x HTTP/1.1'' = [''GET'', ''http://h/x'', ''HTTP/1.1'']"
  "split_whitespace ''CONNECT h HTTP/1.1'' = [''CONNECT'', ''h'', ''HTTP/1.1'']"
proof -
  show "split_whitespace ''GET http://h/x HTTP/1.1'' = [''GET'', ''http://h/x'', ''HTTP/1.1'']"
    using split_three [of "''GET''" "''http://h/x''" "''HTTP/1.1''"] plain_chars by simp
  show "split_whitespace ''CONNECT h HTTP/1.1'' = [''CONNECT'', ''h'', ''HTTP/1.1'']"
    using split_three [of "''CONNECT''" "''h''" "''HTTP/1.1''"] plain_chars by simp
qed





section \<open>Bytes that follow a CONNECT head\<close>

lemma header_end_bounds: "header_end_from pos bs = Some e \<Longrightarrow> 4 \<le> length bs \<and> e \<le> pos + length bs"
proof (induction pos bs rule: header_end_from.induct)
  case (2 pos b bs)
  show ?case
  proof (cases "take 4 (b # bs) = [0x0D, 0x0A, 0x0D, 0x0A]")
    case True
    then have "length (take 4 (b # bs)) = 4" by simp
    then have "4 \<le> length (b # bs)" by simp
    then show ?thesis using 2 True by simp
  next
    case False
    then have "header_end_from (pos + 1) bs = Some e" using "2.prems" by (simp only: header_end_from.simps if_False)
    then show ?thesis using "2.IH" False by fastforce
  qed
qed simp

lemma header_end_append: "header_end_from pos bs = Some e \<Longrightarrow> header_end_from pos (bs @ cs) = Some e"
proof (induction pos bs rule: header_end_from.induct)
  case (2 pos b bs)
  have "4 \<le> length (b # bs)" using header_end_bounds [OF "2.prems"] by simp
  then have "take 4 ((b # bs) @ cs) = take 4 (b # bs)" by (simp only: take_append) simp
  then show ?case
    using 2 by (auto simp: append_Cons header_end_from.simps simp del: take_append split: if_splits)
qed simp

lemma parse_connect_append:
  assumes "parse_request bytes = Inr (HttpConnect host port)"
  shows "parse_request (bytes @ extra) = Inr (HttpConnect host port)"
proof -
  obtain e where e: "http_header_end bytes = Some e"
    using assms by (auto simp: parse_request_def result_simps)
  then have "http_header_end (bytes @ extra) = Some e" "take e (bytes @ extra) = take e bytes"
    using header_end_append header_end_bounds [of 0 bytes e] by (simp_all add: http_header_end_def)
  then show ?thesis
    using assms e by (auto simp: parse_request_def Let_def result_simps split: if_splits)
qed

text \<open>
  C38. Bytes a client sends right behind its CONNECT head are lost.  When they arrive in the same read as the
  head, the request is answered as usual, but they are neither part of the request nor left in the
  stream for the tunnel.
\<close>

theorem http_connect_drops_early_data:
  assumes "parse_request head = Inr (HttpConnect host port)" and "length (head @ early) \<le> 1024"
  shows "\<exists>rd'. http_request_read_from \<lparr>chunks = [head @ early], fault = False\<rparr> = Inr (HttpConnect host port, rd') \<and>
    flat rd' = []"
proof -
  obtain e where e: "http_header_end head = Some e"
    using assms(1) by (auto simp: parse_request_def result_simps)
  have ne: "head @ early \<noteq> []"
    using e by (cases head) (auto simp: http_header_end_def)
  have fend: "http_header_end (head @ early) = Some e"
    using e header_end_append by (simp add: http_header_end_def)
  have "read_some 1024 \<lparr>chunks = [head @ early], fault = False\<rparr> = Inr (head @ early, \<lparr>chunks = [[]], fault = False\<rparr>)"
    using ne assms(2) by (simp add: read_some_def)
  then have "read_head [] \<lparr>chunks = [head @ early], fault = False\<rparr> = Inr (head @ early, \<lparr>chunks = [[]], fault = False\<rparr>)"
    using ne fend by (subst read_head.simps) simp
  then show ?thesis
    using parse_connect_append [OF assms(1), of early] by (simp add: http_request_read_from_def flat_def)
qed

definition sample_connect :: string where
  "sample_connect = head_text ''CONNECT h HTTP/1.1'' []"

lemma sample_connect_request: "parse_request (as_bytes sample_connect) = Inr (HttpConnect ''h'' 443)"
proof -
  have line: "one_line ''CONNECT h HTTP/1.1''" by (rule one_line_no_cr) simp
  have "http_header_end (as_bytes sample_connect) = Some (length sample_connect)"
    using head_text_end [of "''CONNECT h HTTP/1.1''" "[]" "[]"] line by (simp add: sample_connect_def)
  moreover have "split_crlf sample_connect = [''CONNECT h HTTP/1.1'', ''connection: close'', [], []]"
    using head_text_lines [OF line, of "[]"] by (simp add: sample_connect_def)
  moreover have "str_ok sample_connect" by code_simp
  ultimately show ?thesis
    by (simp add: parse_request_def sample_words next_or_def Let_def starts_with_def parse_host_port_def
      strip_prefix_def eq_ignore_ascii_case_def to_ascii_lowercase_def char_to_lower_def is_ascii_uppercase_def)
qed

theorem http_connect_drops_early_data_witness:
  "\<exists>rd'. http_request_read_from \<lparr>chunks = [as_bytes sample_connect @ [22, 3, 1]], fault = False\<rparr> =
    Inr (HttpConnect ''h'' 443, rd') \<and> flat rd' = []"
  by (rule http_connect_drops_early_data [OF sample_connect_request])
    (simp add: sample_connect_def head_text_def CRLF_def)

section \<open>Reading a request head ends by itself\<close>

lemma read_some_ahead:
  assumes "concat cs \<noteq> []" "0 < n"
  shows "\<exists>got cs'. got \<noteq> [] \<and> length got \<le> n \<and> concat cs = got @ concat cs' \<and>
    (\<forall>rest f. read_some n \<lparr>chunks = cs @ rest, fault = f\<rparr> = Inr (got, \<lparr>chunks = cs' @ rest, fault = f\<rparr>))"
proof -
  obtain c ds where ds: "dropWhile (\<lambda>c. c = []) cs = c # ds"
    using assms(1) by (cases "dropWhile (\<lambda>c. c = []) cs") (auto simp: dropWhile_eq_Nil_conv)
  then have c: "c \<noteq> []" using hd_dropWhile [of "\<lambda>c. c = []" cs] by fastforce
  have skip: "dropWhile (\<lambda>c. c = []) (cs @ rest) = c # ds @ rest" for rest
    using ds by (metis append_Cons dropWhile_append dropWhile_eq_Nil_conv list.distinct(1))
  have "concat cs = concat (takeWhile (\<lambda>c. c = []) cs @ dropWhile (\<lambda>c. c = []) cs)" by simp
  also have "\<dots> = c @ concat ds"
    unfolding concat_append ds using set_takeWhileD by (fastforce simp: concat_eq_Nil_conv)
  finally have "concat cs = take n c @ concat (drop n c # ds)" by simp
  moreover have "take n c \<noteq> []" using c assms(2) by simp
  ultimately show ?thesis
    by (intro exI [of _ "take n c"] exI [of _ "drop n c # ds"]) (simp add: read_some_def skip)
qed

lemma read_head_ahead:
  assumes "length bytes \<le> 64 * 1024" "64 * 1024 < length bytes + length (concat cs)"
  shows "(\<forall>rest f. read_head bytes \<lparr>chunks = cs @ rest, fault = f\<rparr> = Inl HeadersTooLarge) \<or>
    (\<exists>got cs'. concat cs = got @ concat cs' \<and> length (bytes @ got) \<le> 64 * 1024 + 1024 \<and>
      (\<forall>rest f. read_head bytes \<lparr>chunks = cs @ rest, fault = f\<rparr> = Inr (bytes @ got, \<lparr>chunks = cs' @ rest, fault = f\<rparr>)))"
  using assms
proof (induction "length (concat cs)" arbitrary: bytes cs rule: less_induct)
  case less
  from less.prems have "0 < length (concat cs)" by linarith
  then have "concat cs \<noteq> []" unfolding length_greater_0_conv .
  then obtain got cs' where got: "got \<noteq> []" "length got \<le> 1024" "concat cs = got @ concat cs'"
    and read: "\<And>rest f. read_some 1024 \<lparr>chunks = cs @ rest, fault = f\<rparr> = Inr (got, \<lparr>chunks = cs' @ rest, fault = f\<rparr>)"
    using read_some_ahead [of cs 1024] by auto
  have step: "read_head bytes \<lparr>chunks = cs @ rest, fault = f\<rparr> =
      (if http_header_end (bytes @ got) \<noteq> None then Inr (bytes @ got, \<lparr>chunks = cs' @ rest, fault = f\<rparr>)
       else if length (bytes @ got) > 64 * 1024 then Inl HeadersTooLarge
       else read_head (bytes @ got) \<lparr>chunks = cs' @ rest, fault = f\<rparr>)" for rest f
    using got(1) by (subst read_head.simps) (simp add: read)
  consider (found) "http_header_end (bytes @ got) \<noteq> None"
    | (large) "http_header_end (bytes @ got) = None" "length (bytes @ got) > 64 * 1024"
    | (more) "http_header_end (bytes @ got) = None" "length (bytes @ got) \<le> 64 * 1024" by fastforce
  then show ?case
  proof cases
    case found
    then show ?thesis
      using got(2,3) less.prems(1) by (intro disjI2 exI [of _ got] exI [of _ cs']) (simp add: step)
  next
    case large
    then show ?thesis by (simp add: step)
  next
    case more
    have "length (concat cs') < length (concat cs)" "64 * 1024 < length (bytes @ got) + length (concat cs')"
      using got(1,3) less.prems(2) by auto
    from less.hyps [OF this(1) more(2) this(2)] show ?thesis
    proof (elim disjE exE conjE)
      fix got' ds
      assume "concat cs' = got' @ concat ds" "length ((bytes @ got) @ got') \<le> 64 * 1024 + 1024"
        "\<forall>rest f. read_head (bytes @ got) \<lparr>chunks = cs' @ rest, fault = f\<rparr> =
          Inr ((bytes @ got) @ got', \<lparr>chunks = ds @ rest, fault = f\<rparr>)"
      then show ?thesis
        using got(3) more by (intro disjI2 exI [of _ "got @ got'"] exI [of _ ds]) (simp add: step)
    qed (use more in \<open>simp add: step\<close>)
  qed
qed

text \<open>
  C13. Reading a proxy request ends by itself: once a client has sent more than 64 KiB, the outcome no longer depends on
  what the client sends next or on when it stops, so a client that never completes its head cannot keep the reader
  busy.  A request that is accepted has taken at most 65 KiB from the stream.
\<close>

theorem http_request_read_terminates:
  assumes "64 * 1024 < length (concat cs)"
  shows "(\<exists>e. \<forall>rest f. http_request_read_from \<lparr>chunks = cs @ rest, fault = f\<rparr> = Inl e) \<or>
    (\<exists>kind cs'. length (concat cs) \<le> length (concat cs') + (64 * 1024 + 1024) \<and>
      (\<forall>rest f. http_request_read_from \<lparr>chunks = cs @ rest, fault = f\<rparr> = Inr (kind, \<lparr>chunks = cs' @ rest, fault = f\<rparr>)))"
proof -
  from read_head_ahead [of "[]" cs] assms
  consider (large) "\<forall>rest f. read_head [] \<lparr>chunks = cs @ rest, fault = f\<rparr> = Inl HeadersTooLarge"
    | (found) got cs' where "concat cs = got @ concat cs'" "length got \<le> 64 * 1024 + 1024"
      "\<forall>rest f. read_head [] \<lparr>chunks = cs @ rest, fault = f\<rparr> = Inr (got, \<lparr>chunks = cs' @ rest, fault = f\<rparr>)"
    by auto
  then show ?thesis
  proof cases
    case large
    then show ?thesis by (auto simp: http_request_read_from_def result_simps)
  next
    case found
    show ?thesis
    proof (cases "parse_request got")
      case (Inl e)
      with found show ?thesis by (auto simp: http_request_read_from_def result_simps)
    next
      case (Inr kind)
      with found have "\<forall>rest f. http_request_read_from \<lparr>chunks = cs @ rest, fault = f\<rparr> = Inr (kind, \<lparr>chunks = cs' @ rest, fault = f\<rparr>)"
        by (simp add: http_request_read_from_def result_simps)
      moreover have "length (concat cs) \<le> length (concat cs') + (64 * 1024 + 1024)" using found by simp
      ultimately show ?thesis by blast
    qed
  qed
qed

theorem http_request_read_terminates_witness:
  "64 * 1024 < length (concat (replicate 65 (replicate 1024 (65 :: byte)))) \<and>
   (\<exists>r. \<forall>rest f. map_sum id fst
      (http_request_read_from \<lparr>chunks = replicate 65 (replicate 1024 65) @ rest, fault = f\<rparr>) = r)"
proof -
  have len: "64 * 1024 < length (concat (replicate 65 (replicate 1024 (65 :: byte))))"
    by (simp add: length_concat sum_list_replicate)
  from http_request_read_terminates [OF len]
  consider e where "\<forall>rest f. http_request_read_from \<lparr>chunks = replicate 65 (replicate 1024 65) @ rest, fault = f\<rparr> = Inl e"
    | kind cs' where "\<forall>rest f. http_request_read_from \<lparr>chunks = replicate 65 (replicate 1024 65) @ rest, fault = f\<rparr> =
        Inr (kind, \<lparr>chunks = cs' @ rest, fault = f\<rparr>)"
    by blast
  then show ?thesis
  proof cases
    case 1
    then show ?thesis using len by auto
  next
    case 2
    then show ?thesis using len by auto
  qed
qed

end
