(* ===== verification/Http_Relay.thy ===== *)
theory Http_Relay
  imports Http_Proxy
begin

text \<open>
  Relaying the response to a forwarded HTTP request (\<^verbatim>\<open>ssh-proxy/src/socks/relay.rs\<close>): the head is buffered and
  rewritten, the body is passed on according to its framing.
\<close>

definition HTTP_RESPONSE_HEADER_LIMIT :: nat where
  "HTTP_RESPONSE_HEADER_LIMIT = 64 * 1024"

datatype HttpForwardResponseState =
    ReadingHead "byte list"
  | BodyLength u64
  | BodyChunked
  | BodyUntilClose
  | Done

fun from_body_mode :: "HttpResponseBodyMode \<Rightarrow> HttpForwardResponseState" where
  "from_body_mode (ContentLength n) = (if n = 0 then Done else BodyLength n)"
| "from_body_mode NoBody = Done"
| "from_body_mode Chunked = BodyChunked"
| "from_body_mode CloseDelimited = BodyUntilClose"

definition uses_idle_close :: "HttpForwardResponseState \<Rightarrow> bool" where
  "uses_idle_close s \<longleftrightarrow> s = BodyUntilClose"

definition is_done :: "HttpForwardResponseState \<Rightarrow> bool" where
  "is_done s \<longleftrightarrow> s = Done"

type_synonym relay = "HttpForwardResponseState \<times> writer"

definition relay_write :: "byte list \<Rightarrow> writer \<Rightarrow> (http_error, unit) result \<times> writer" where
  "relay_write bs w = (case write_all bs w of (Inl e, w) \<Rightarrow> (Inl (HttpIo e), w) | (Inr _, w) \<Rightarrow> (Inr (), w))"

definition write_http_forward_body_chunk :: "byte list \<Rightarrow> relay \<Rightarrow> (http_error, unit) result \<times> relay" where
  "write_http_forward_body_chunk d sw =
    (case sw of (s, w) \<Rightarrow>
      (case s of
         BodyLength remaining \<Rightarrow>
           let n = min (length d) (unat remaining) in
           (case (if n > 0 then relay_write (take n d) w else (Inr (), w)) of
              (Inl e, w) \<Rightarrow> (Inl e, (s, w))
            | (Inr _, w) \<Rightarrow>
                let remaining = remaining - word_of_nat n in
                (Inr (), (if remaining = 0 then Done else BodyLength remaining, w)))
       | ReadingHead _ \<Rightarrow> (Inr (), (s, w))
       | Done \<Rightarrow> (Inr (), (s, w))
       | _ \<Rightarrow>
           if d = [] then (Inr (), (s, w))
           else (case relay_write d w of (r, w) \<Rightarrow> (r, (s, w)))))"

definition write_http_forward_response_chunk :: "byte list \<Rightarrow> relay \<Rightarrow> (http_error, unit) result \<times> relay" where
  "write_http_forward_response_chunk d sw =
    (case sw of (s, w) \<Rightarrow>
      (case s of
         ReadingHead buffer \<Rightarrow>
           let buffer = buffer @ d in
           if length buffer > HTTP_RESPONSE_HEADER_LIMIT then (Inl HeadersTooLarge, (ReadingHead buffer, w))
           else (case http_header_end buffer of
               None \<Rightarrow> (Inr (), (ReadingHead buffer, w))
             | Some header_end \<Rightarrow>
                 (case rewrite_response_head_for_proxy_close (take header_end buffer) of
                    Inl e \<Rightarrow> (Inl e, (ReadingHead buffer, w))
                  | Inr (head, body_mode) \<Rightarrow>
                      (case relay_write head w of
                         (Inl e, w) \<Rightarrow> (Inl e, (ReadingHead buffer, w))
                       | (Inr _, w) \<Rightarrow>
                           write_http_forward_body_chunk (drop header_end buffer) (from_body_mode body_mode, w))))
       | Done \<Rightarrow> (Inr (), (s, w))
       | _ \<Rightarrow> write_http_forward_body_chunk d (s, w)))"

text \<open>What the loop sees of the remote side: a chunk, its end, or nothing for the idle time.\<close>

datatype relay_event = Chunk "byte list" | RemoteClosed | IdleTimeout

datatype relay_result = RelayWaiting relay | RelayEnded writer | RelayFailed http_error writer

text \<open>Behind the loop the client's write half is shut down, which may fail; its outcome is the parameter \<open>shut\<close>.\<close>

definition relay_shutdown :: "(io_error, unit) result \<Rightarrow> writer \<Rightarrow> relay_result" where
  "relay_shutdown shut w = (case shut of Inl e \<Rightarrow> RelayFailed (HttpIo e) w | Inr _ \<Rightarrow> RelayEnded w)"

fun relay_http_forward_response :: "(io_error, unit) result \<Rightarrow> relay_event list \<Rightarrow> relay \<Rightarrow> relay_result" where
  "relay_http_forward_response shut [] sw = RelayWaiting sw"
| "relay_http_forward_response shut (ev # evs) sw =
    (case ev of
       RemoteClosed \<Rightarrow> relay_shutdown shut (snd sw)
     | IdleTimeout \<Rightarrow>
         if uses_idle_close (fst sw) then relay_shutdown shut (snd sw) else relay_http_forward_response shut evs sw
     | Chunk d \<Rightarrow>
         (case write_http_forward_response_chunk d sw of
            (Inl e, sw) \<Rightarrow> RelayFailed e (snd sw)
          | (Inr _, sw) \<Rightarrow>
              if is_done (fst sw) then relay_shutdown shut (snd sw) else relay_http_forward_response shut evs sw))"

definition relay_start :: "writer \<Rightarrow> relay" where
  "relay_start w = (ReadingHead [], w)"

section \<open>The relay against the whole response\<close>

text \<open>What of the body reaches the client.\<close>

fun body_sent :: "HttpResponseBodyMode \<Rightarrow> byte list \<Rightarrow> byte list" where
  "body_sent (ContentLength n) body = take (unat n) body"
| "body_sent NoBody body = []"
| "body_sent _ body = body"

fun body_complete :: "HttpResponseBodyMode \<Rightarrow> byte list \<Rightarrow> bool" where
  "body_complete (ContentLength n) body = (unat n \<le> length body)"
| "body_complete NoBody body = True"
| "body_complete _ body = False"

text \<open>
  What arrives after the head: the bytes, and whether their end was seen.  A close ends a body of any mode, a silence of
  the idle time only a body that has no other end.
\<close>

fun arrived :: "HttpResponseBodyMode \<Rightarrow> relay_event list \<Rightarrow> byte list \<times> bool" where
  "arrived m [] = ([], False)"
| "arrived m (Chunk d # evs) = (d @ fst (arrived m evs), snd (arrived m evs))"
| "arrived m (RemoteClosed # evs) = ([], True)"
| "arrived m (IdleTimeout # evs) = (if m = CloseDelimited then ([], True) else arrived m evs)"

definition progress :: "HttpResponseBodyMode \<Rightarrow> byte list \<Rightarrow> HttpForwardResponseState" where
  "progress m body =
    (case m of
       ContentLength n \<Rightarrow> if unat n \<le> length body then Done else BodyLength (n - word_of_nat (length body))
     | NoBody \<Rightarrow> Done
     | Chunked \<Rightarrow> BodyChunked
     | CloseDelimited \<Rightarrow> BodyUntilClose)"

definition wrote_to :: "writer \<Rightarrow> byte list \<Rightarrow> writer" where
  "wrote_to w bs = w\<lparr>written := written w @ bs\<rparr>"

lemma wrote_to_simps [simp]:
  "accepts (wrote_to w bs) = accepts w" "wrote_to (wrote_to w a) b = wrote_to w (a @ b)" "wrote_to w [] = w"
  by (simp_all add: wrote_to_def)

lemma relay_write_ideal [simp]: "accepts w = [] \<Longrightarrow> relay_write bs w = (Inr (), wrote_to w bs)"
  by (simp add: relay_write_def write_all_ideal wrote_to_def)

lemma unat_sub_small: "k \<le> unat (n :: u64) \<Longrightarrow> unat (n - word_of_nat k) = unat n - k"
proof -
  assume k: "k \<le> unat n"
  then have "k < 2 ^ 64" using unat_less [of n] by simp
  then have "unat (word_of_nat k :: u64) = k" by (simp add: unat_of_nat)
  then show ?thesis using k by (simp add: unat_sub word_le_nat_alt)
qed

lemma body_chunk:
  assumes "accepts w = []"
  shows "write_http_forward_body_chunk d (progress m body, w) =
    (Inr (), (progress m (body @ d), wrote_to w (drop (length (body_sent m body)) (body_sent m (body @ d)))))"
proof (cases m)
  case (ContentLength n)
  show ?thesis
  proof (cases "unat n \<le> length body")
    case True
    then show ?thesis by (simp add: ContentLength progress_def write_http_forward_body_chunk_def)
  next
    case False
    let ?rem = "n - word_of_nat (length body)"
    have rem: "unat ?rem = unat n - length body"
      using False by (intro unat_sub_small) simp
    have "?rem - word_of_nat (min (length d) (unat ?rem)) = 0 \<longleftrightarrow> unat n \<le> length (body @ d)"
    proof -
      have "unat (?rem - word_of_nat (min (length d) (unat ?rem))) = unat ?rem - min (length d) (unat ?rem)"
        by (rule unat_sub_small) simp
      then show ?thesis using False rem by (auto simp: unat_eq_0 [symmetric] min_def)
    qed
    moreover have "?rem - word_of_nat (min (length d) (unat ?rem)) = n - word_of_nat (length (body @ d))"
      if "\<not> unat n \<le> length (body @ d)"
    proof -
      have "min (length d) (unat ?rem) = length d" using that rem by auto
      then show ?thesis by simp
    qed
    ultimately show ?thesis
      using False assms rem
      by (auto simp: ContentLength progress_def write_http_forward_body_chunk_def Let_def min_def)
  qed
qed (use assms in \<open>auto simp: progress_def write_http_forward_body_chunk_def\<close>)

lemma from_body_mode_progress: "from_body_mode m = progress m []"
  by (cases m) (auto simp: progress_def unat_eq_0)

lemma body_sent_prefix: "take (length (body_sent m body)) (body_sent m (body @ d)) = body_sent m body"
  by (cases m) (auto simp: min_def)

lemma body_sent_append:
  "body_sent m body @ drop (length (body_sent m body)) (body_sent m (body @ d)) = body_sent m (body @ d)"
  using body_sent_prefix by (metis append_take_drop_id)

lemma progress_done: "progress m body = Done \<longleftrightarrow> body_complete m body"
  by (cases m) (auto simp: progress_def)

lemma progress_not_head: "progress m body \<noteq> ReadingHead b"
  by (cases m) (auto simp: progress_def)

lemma response_chunk_body:
  assumes "accepts w = []" and "\<not> body_complete m body"
  shows "write_http_forward_response_chunk d (progress m body, w) =
    (Inr (), (progress m (body @ d), wrote_to w (drop (length (body_sent m body)) (body_sent m (body @ d)))))"
  using body_chunk [OF assms(1), of d m body] progress_not_head [of m body] assms(2) progress_done [of m body]
  by (cases "progress m body") (auto simp: write_http_forward_response_chunk_def)

lemma body_complete_mono: "body_complete m body \<Longrightarrow> body_complete m (body @ d) \<and> body_sent m (body @ d) = body_sent m body"
  by (cases m) auto

text \<open>The outcome of a relay whose head is written, from the bytes of the body that came with it and what follows.\<close>

definition body_result ::
  "(io_error, unit) result \<Rightarrow> writer \<Rightarrow> byte list \<Rightarrow> HttpResponseBodyMode \<Rightarrow> byte list \<Rightarrow> relay_event list \<Rightarrow> relay_result" where
  "body_result shut w h m body evs =
    (let body = body @ fst (arrived m evs); sent = wrote_to w (h @ body_sent m body) in
     if body_complete m body \<or> snd (arrived m evs) then relay_shutdown shut sent else RelayWaiting (progress m body, sent))"

lemma body_result_chunks: "body_result shut w h m body (map Chunk cs @ evs) = body_result shut w h m (body @ concat cs) evs"
proof -
  have "arrived m (map Chunk cs @ evs) = (concat cs @ fst (arrived m evs), snd (arrived m evs))"
    by (induction cs) simp_all
  then show ?thesis by (simp add: body_result_def)
qed

lemma body_result_complete:
  "body_complete m body \<Longrightarrow> body_result shut w h m body evs = relay_shutdown shut (wrote_to w (h @ body_sent m body))"
  using body_complete_mono by (simp add: body_result_def Let_def)

lemma idle_close_progress: "uses_idle_close (progress m body) \<longleftrightarrow> m = CloseDelimited"
  by (cases m) (auto simp: uses_idle_close_def progress_def)

lemma relay_body:
  assumes "accepts w = []" and "\<not> body_complete m body"
  shows "relay_http_forward_response shut evs (progress m body, wrote_to w (h @ body_sent m body)) = body_result shut w h m body evs"
  using assms(2)
proof (induction evs arbitrary: body)
  case Nil
  then show ?case by (simp add: body_result_def)
next
  case (Cons ev evs)
  show ?case
  proof (cases ev)
    case (Chunk c)
    have step: "write_http_forward_response_chunk c (progress m body, wrote_to w (h @ body_sent m body)) =
        (Inr (), (progress m (body @ c), wrote_to w (h @ body_sent m (body @ c))))"
      using response_chunk_body [of "wrote_to w (h @ body_sent m body)" m body c] assms(1) Cons.prems body_sent_append
      by simp
    have "body_result shut w h m body (ev # evs) = body_result shut w h m (body @ c) evs"
      using body_result_chunks [of shut w h m body "[c]" evs] Chunk by simp
    then show ?thesis
      using step Cons.IH [of "body @ c"] Chunk body_result_complete [of m "body @ c"]
      by (cases "body_complete m (body @ c)") (simp_all add: is_done_def progress_done)
  next
    case IdleTimeout
    then show ?thesis
      using Cons.IH [OF Cons.prems] by (auto simp: idle_close_progress body_result_def Let_def)
  qed (simp add: body_result_def)
qed

lemma response_chunk_head:
  assumes "accepts w = []" and "length (b @ d) \<le> HTTP_RESPONSE_HEADER_LIMIT"
    and "http_header_end (b @ d) = Some e"
    and "rewrite_response_head_for_proxy_close (take e (b @ d)) = Inr (h, m)"
  shows "write_http_forward_response_chunk d (ReadingHead b, w) =
    (Inr (), (progress m (drop e (b @ d)), wrote_to w (h @ body_sent m (drop e (b @ d)))))"
proof -
  have "write_http_forward_response_chunk d (ReadingHead b, w) =
      write_http_forward_body_chunk (drop e (b @ d)) (progress m [], wrote_to w h)"
    using assms by (simp add: write_http_forward_response_chunk_def from_body_mode_progress Let_def del: drop_append)
  moreover have "body_sent m [] = []" by (cases m) auto
  ultimately show ?thesis
    using body_chunk [of "wrote_to w h" "drop e (b @ d)" m "[]"] assms(1) by (simp del: drop_append)
qed

lemma relay_head:
  assumes "accepts w = []" and "length (b @ concat pre) \<le> HTTP_RESPONSE_HEADER_LIMIT"
    and "http_header_end b = None" and "http_header_end (b @ concat pre) = Some e"
    and "rewrite_response_head_for_proxy_close (take e (b @ concat pre)) = Inr (h, m)"
  shows "relay_http_forward_response shut (map Chunk pre @ evs) (ReadingHead b, w) =
    body_result shut w h m (drop e (b @ concat pre)) evs"
  using assms(2-)
proof (induction pre arbitrary: b)
  case (Cons d pre)
  show ?case
  proof (cases "http_header_end (b @ d)")
    case None
    then have "write_http_forward_response_chunk d (ReadingHead b, w) = (Inr (), (ReadingHead (b @ d), w))"
      using Cons.prems(1) by (simp add: write_http_forward_response_chunk_def Let_def)
    then show ?thesis
      using Cons.IH [of "b @ d"] Cons.prems None by (simp add: is_done_def)
  next
    case (Some e')
    then have e: "e' = e"
      using Cons.prems(3) header_end_append [of 0 "b @ d" e' "concat pre"] by (simp add: http_header_end_def)
    have small: "e \<le> length (b @ d)"
      using header_end_bounds [of 0 "b @ d" e] Some e by (simp add: http_header_end_def)
    have tk: "take e (b @ concat (d # pre)) = take e (b @ d)"
      and dr: "drop e (b @ concat (d # pre)) = drop e (b @ d) @ concat pre"
      using small by (simp_all add: take_append [of _ "b @ d", simplified] drop_append [of _ "b @ d", simplified])
    have step: "write_http_forward_response_chunk d (ReadingHead b, w) =
      (Inr (), (progress m (drop e (b @ d)), wrote_to w (h @ body_sent m (drop e (b @ d)))))"
    proof (rule response_chunk_head [OF assms(1)])
      show "length (b @ d) \<le> HTTP_RESPONSE_HEADER_LIMIT" using Cons.prems(1) by simp
      show "http_header_end (b @ d) = Some e" using Some e by simp
      show "rewrite_response_head_for_proxy_close (take e (b @ d)) = Inr (h, m)"
        using Cons.prems(4) unfolding tk .
    qed
    show ?thesis
      using step relay_body [OF assms(1), of m "drop e (b @ d)" shut "map Chunk pre @ evs" h]
        body_result_chunks [of shut w h m "drop e (b @ d)" pre evs]
        body_result_complete [of m "drop e (b @ d)" shut w h "map Chunk pre @ evs"]
      by (cases "body_complete m (drop e (b @ d))")
        (simp_all add: is_done_def progress_done dr del: drop_append concat.simps)
  qed
next
  case Nil
  then show ?case by simp
qed




lemma no_empty_head: "http_header_end [] = None"
  by (simp add: http_header_end_def)


section \<open>Properties\<close>


lemma rewrite_interim:
  assumes "from_utf8 head = Some headers" and "parse_response_status (hd (split_crlf headers)) = Inr status"
    and "100 \<le> status" and "status < 200"
  shows "\<exists>h. rewrite_response_head_for_proxy_close head = Inr (h, NoBody)"
  using assms
  by (auto simp: rewrite_response_head_for_proxy_close_def response_status_has_no_body_def Let_def split: prod.splits)

text \<open>
  C39. An interim response ends the relay.  Once the head of a response with a status from 100 to 199 is complete, the
  client is sent that head and nothing else and its side is shut down, whatever arrives later: the final response
  is lost.
\<close>

theorem http_relay_stops_at_interim:
  assumes "accepts w = []" and "length (concat pre) \<le> HTTP_RESPONSE_HEADER_LIMIT"
    and "http_header_end (concat pre) = Some e" and "from_utf8 (take e (concat pre)) = Some headers"
    and "parse_response_status (hd (split_crlf headers)) = Inr status" and "100 \<le> status" and "status < 200"
  shows "\<exists>h. rewrite_response_head_for_proxy_close (take e (concat pre)) = Inr (h, NoBody) \<and>
    relay_http_forward_response shut (map Chunk pre @ evs) (relay_start w) = relay_shutdown shut (wrote_to w h)"
proof -
  obtain h where h: "rewrite_response_head_for_proxy_close (take e (concat pre)) = Inr (h, NoBody)"
    using rewrite_interim [OF assms(4-7)] by blast
  then show ?thesis
    using relay_head [OF assms(1), of "[]" pre e h NoBody shut evs] assms(2,3) no_empty_head
    by (simp add: relay_start_def body_result_complete)
qed

section \<open>Samples\<close>

definition sample_ok :: string where
  "sample_ok = head_text ''HTTP/1.1 200 OK'' [''content-length:2'']"

definition sample_continue :: string where
  "sample_continue = head_text ''HTTP/1.1 100 OK'' []"

lemma sample_response_lines: "one_line ''HTTP/1.1 200 OK''" "one_line ''HTTP/1.1 100 OK''" "one_line ''content-length:2''"
  by (rule one_line_no_cr, simp)+

lemma sample_response_ends:
  "http_header_end (as_bytes sample_ok @ body) = Some (length sample_ok)"
  "http_header_end (as_bytes sample_continue @ body) = Some (length sample_continue)"
  using head_text_end [of "''HTTP/1.1 200 OK''" "[''content-length:2'']" body] head_text_end [of "''HTTP/1.1 100 OK''" "[]" body]
    sample_response_lines by (simp_all add: sample_ok_def sample_continue_def)

lemma sample_response_split:
  "split_crlf sample_ok = [''HTTP/1.1 200 OK'', ''content-length:2'', ''connection: close'', [], []]"
  "split_crlf sample_continue = [''HTTP/1.1 100 OK'', ''connection: close'', [], []]"
  unfolding sample_ok_def sample_continue_def using head_text_lines sample_response_lines by simp_all

lemma sample_response_plain: "list_all plain_char ''HTTP/1.1200100OK''"
  by (simp add: plain_char_iff)

lemma sample_status:
  "parse_response_status ''HTTP/1.1 200 OK'' = Inr 200" "parse_response_status ''HTTP/1.1 100 OK'' = Inr 100"
proof -
  have num: "parse_u16 ''200'' = Some 200" "parse_u16 ''100'' = Some 100"
    by (simp_all add: parse_u16_def parse_unsigned_def digit_val_def)
  have words: "split_whitespace ''HTTP/1.1 200 OK'' = [''HTTP/1.1'', ''200'', ''OK'']"
    "split_whitespace ''HTTP/1.1 100 OK'' = [''HTTP/1.1'', ''100'', ''OK'']"
    using split_three [of "''HTTP/1.1''" "''200''" "''OK''"] split_three [of "''HTTP/1.1''" "''100''" "''OK''"]
      sample_response_plain by simp_all
  show "parse_response_status ''HTTP/1.1 200 OK'' = Inr 200" "parse_response_status ''HTTP/1.1 100 OK'' = Inr 100"
    by (simp_all add: parse_response_status_def words num next_or_def starts_with_def)
qed





lemma sample_sizes: "length sample_ok \<le> 100" "length sample_continue \<le> 100"
  by (simp_all add: sample_ok_def sample_continue_def head_text_def CRLF_def)


theorem http_relay_stops_at_interim_witness:
  "\<exists>h w. accepts w = [] \<and>
    relay_http_forward_response (Inr ()) [Chunk (as_bytes sample_continue), Chunk (as_bytes sample_ok)] (relay_start w) =
    RelayEnded (wrote_to w h)"
proof -
  let ?w = "\<lparr>written = [], accepts = [], flush_fault = False\<rparr>"
  have "str_ok sample_continue" by code_simp
  then have "\<exists>h. relay_http_forward_response (Inr ()) (map Chunk [as_bytes sample_continue] @ [Chunk (as_bytes sample_ok)])
      (relay_start ?w) = RelayEnded (wrote_to ?w h)"
    using http_relay_stops_at_interim [of ?w "[as_bytes sample_continue]" "length sample_continue" sample_continue 100
        "Inr ()" "[Chunk (as_bytes sample_ok)]"]
      sample_response_ends(2) [of "[]"] sample_sizes sample_response_split sample_status
    by (auto simp: HTTP_RESPONSE_HEADER_LIMIT_def relay_shutdown_def)
  then obtain h where "relay_http_forward_response (Inr ()) [Chunk (as_bytes sample_continue), Chunk (as_bytes sample_ok)]
      (relay_start ?w) = RelayEnded (wrote_to ?w h)"
    by auto
  then show ?thesis by (intro exI [of _ h] exI [of _ ?w]) simp
qed

end
