(* ===== verification/Stream_Header.thy ===== *)
theory Stream_Header
  imports Byte_IO Wire_Cursor
begin

text \<open>
  The QUIC-native flow header (\<^verbatim>\<open>quic_native/stream_header.rs\<close> and \<^verbatim>\<open>quic_native/flow.rs\<close>): the header
  a client writes at the start of every native stream, its encoder and decoder, and its transfer over
  a byte stream.  The decoder has a cursor of its own, which meets the contract of
  \<^verbatim>\<open>Wire_Cursor\<close>.  The length field of the header is 16 bits wide, while the encoder accepts bodies of
  up to 65536 bytes: the lemmas show that decoding inverts encoding except for that one size, for
  which the encoder succeeds and the header cannot be decoded.
\<close>

definition STREAM_HEADER_MAGIC :: "byte list" where "STREAM_HEADER_MAGIC = [0x51, 0x4E, 0x54, 0x31]"
definition STREAM_HEADER_VERSION :: u16 where "STREAM_HEADER_VERSION = 1"
definition MAX_STREAM_HEADER :: nat where "MAX_STREAM_HEADER = 64 * 1024"
definition STREAM_HEADER_PREFIX_LEN :: nat where "STREAM_HEADER_PREFIX_LEN = 8"

datatype TargetKind = TcpConnect | FixedTcp

record StreamTarget =
  st_kind :: TargetKind
  st_host :: string
  st_port :: u16

record StreamHeader =
  sh_route_id :: string
  sh_stream_id :: u64
  sh_target :: StreamTarget
  sh_egress_proxy :: "string option"
  sh_flags :: u32

datatype header_error =
    HeaderTruncated
  | BadMagic
  | BadVersion u16
  | HeaderTooLarge nat
  | HeaderPayloadTruncated
  | HeaderLengthOverflow
  | HeaderUtf8
  | HeaderTrailing nat
  | UnknownTargetKind u8
  | BadEgressMarker u8
  | HeaderStringTooLong
  | FlowIo io_error
  | FlowConsumed nat nat

section \<open>Encoding\<close>

fun to_wire :: "TargetKind \<Rightarrow> u8" where
  "to_wire TcpConnect = 1"
| "to_wire FixedTcp = 2"

definition from_wire :: "u8 \<Rightarrow> (header_error, TargetKind) result" where
  "from_wire v = (if v = 1 then Inr TcpConnect else if v = 2 then Inr FixedTcp else Inl (UnknownTargetKind v))"

text \<open>The encoder appends to a buffer it is given, and leaves in it what it has written when it fails.\<close>

definition buf_then ::
  "(header_error, unit) result \<times> byte list \<Rightarrow> (byte list \<Rightarrow> (header_error, unit) result \<times> byte list) \<Rightarrow>
    (header_error, unit) result \<times> byte list" where
  "buf_then r k = (case r of (Inl e, out) \<Rightarrow> (Inl e, out) | (Inr _, out) \<Rightarrow> k out)"

definition sh_write_string :: "byte list \<Rightarrow> string \<Rightarrow> (header_error, unit) result \<times> byte list" where
  "sh_write_string out value =
    (let bytes = as_bytes value in
     if length bytes > 65535 then (Inl HeaderStringTooLong, out)
     else (Inr (), out @ u16_to_be (word_of_nat (length bytes)) @ bytes))"

definition sh_encode_into :: "StreamHeader \<Rightarrow> byte list \<Rightarrow> (header_error, unit) result \<times> byte list" where
  "sh_encode_into h out =
    (let out = [];
         out = out @ STREAM_HEADER_MAGIC @ u16_to_be STREAM_HEADER_VERSION @ u16_to_be 0;
         body_start = length out;
         out = out @ u32_to_be (sh_flags h) @ u64_to_be (sh_stream_id h) @ [to_wire (st_kind (sh_target h))] in
     buf_then (sh_write_string out (sh_route_id h)) (\<lambda>out.
     buf_then (sh_write_string out (st_host (sh_target h))) (\<lambda>out.
     let out = out @ u16_to_be (st_port (sh_target h)) in
     buf_then (case sh_egress_proxy h of
         Some proxy \<Rightarrow> sh_write_string (out @ [1]) proxy
       | None \<Rightarrow> (Inr (), out @ [0])) (\<lambda>out.
     let body_len = length out - body_start in
     if body_len > MAX_STREAM_HEADER then (Inl (HeaderTooLarge body_len), out)
     else
       (let len_bytes = u16_to_be (word_of_nat body_len) in
        (Inr (), (out[6 := len_bytes ! 0])[7 := len_bytes ! 1]))))))"

definition sh_encoded_capacity_hint :: "StreamHeader \<Rightarrow> nat" where
  "sh_encoded_capacity_hint h =
    (let egress_len = (case sh_egress_proxy h of None \<Rightarrow> 0 | Some proxy \<Rightarrow> 2 + length proxy) in
     8 + 4 + 8 + 1 + 2 + length (sh_route_id h) + 2 + length (st_host (sh_target h)) + 2 + 1 + egress_len)"

definition sh_encode :: "StreamHeader \<Rightarrow> (header_error, byte list) result" where
  "sh_encode h = (case sh_encode_into h [] of (Inl e, _) \<Rightarrow> Inl e | (Inr _, out) \<Rightarrow> Inr out)"

section \<open>Decoding\<close>

record sh_cursor =
  shc_bytes :: "byte list"
  shc_pos :: nat

definition sh_cursor_new :: "byte list \<Rightarrow> sh_cursor" where
  "sh_cursor_new bytes = \<lparr>shc_bytes = bytes, shc_pos = 0\<rparr>"

definition sh_read_u8 :: "sh_cursor \<Rightarrow> (header_error, u8 \<times> sh_cursor) result" where
  "sh_read_u8 c =
    (if shc_pos c < length (shc_bytes c)
     then Inr (shc_bytes c ! shc_pos c, c\<lparr>shc_pos := shc_pos c + 1\<rparr>)
     else Inl HeaderPayloadTruncated)"

definition sh_read_bytes :: "nat \<Rightarrow> sh_cursor \<Rightarrow> (header_error, byte list \<times> sh_cursor) result" where
  "sh_read_bytes len c =
    and_then (ok_or HeaderLengthOverflow (checked_add (shc_pos c) len)) (\<lambda>end.
    and_then (ok_or HeaderPayloadTruncated (slice_get (shc_bytes c) (shc_pos c) end)) (\<lambda>bytes.
      Inr (bytes, c\<lparr>shc_pos := end\<rparr>)))"

definition sh_read_u16 :: "sh_cursor \<Rightarrow> (header_error, u16 \<times> sh_cursor) result" where
  "sh_read_u16 c = and_then (sh_read_bytes 2 c) (\<lambda>(bytes, c). Inr (u16_from_be bytes, c))"

definition sh_read_u32 :: "sh_cursor \<Rightarrow> (header_error, u32 \<times> sh_cursor) result" where
  "sh_read_u32 c = and_then (sh_read_bytes 4 c) (\<lambda>(bytes, c). Inr (u32_from_be bytes, c))"

definition sh_read_u64 :: "sh_cursor \<Rightarrow> (header_error, u64 \<times> sh_cursor) result" where
  "sh_read_u64 c = and_then (sh_read_bytes 8 c) (\<lambda>(bytes, c). Inr (u64_from_be bytes, c))"

definition sh_read_string :: "sh_cursor \<Rightarrow> (header_error, string \<times> sh_cursor) result" where
  "sh_read_string c =
    and_then (sh_read_u16 c) (\<lambda>(len, c).
    and_then (sh_read_bytes (unat len) c) (\<lambda>(bytes, c).
    and_then (ok_or HeaderUtf8 (from_utf8 bytes)) (\<lambda>s. Inr (s, c))))"

definition sh_ensure_empty :: "sh_cursor \<Rightarrow> (header_error, unit) result" where
  "sh_ensure_empty c =
    (if shc_pos c = length (shc_bytes c) then Inr ()
     else Inl (HeaderTrailing (length (shc_bytes c) - shc_pos c)))"

definition sh_read_egress :: "sh_cursor \<Rightarrow> (header_error, string option \<times> sh_cursor) result" where
  "sh_read_egress c =
    and_then (sh_read_u8 c) (\<lambda>(b, c).
      if b = 0 then Inr (None, c)
      else if b = 1 then and_then (sh_read_string c) (\<lambda>(proxy, c). Inr (Some proxy, c))
      else Inl (BadEgressMarker b))"

definition sh_decode_body :: "byte list \<Rightarrow> (header_error, StreamHeader) result" where
  "sh_decode_body body =
    and_then (sh_read_u32 (sh_cursor_new body)) (\<lambda>(flags, c).
    and_then (sh_read_u64 c) (\<lambda>(stream_id, c).
    and_then (sh_read_u8 c) (\<lambda>(k, c).
    and_then (from_wire k) (\<lambda>kind.
    and_then (sh_read_string c) (\<lambda>(route_id, c).
    and_then (sh_read_string c) (\<lambda>(host, c).
    and_then (sh_read_u16 c) (\<lambda>(port, c).
    and_then (sh_read_egress c) (\<lambda>(egress_proxy, c).
    and_then (sh_ensure_empty c) (\<lambda>_.
      Inr \<lparr>sh_route_id = route_id, sh_stream_id = stream_id,
           sh_target = \<lparr>st_kind = kind, st_host = host, st_port = port\<rparr>,
           sh_egress_proxy = egress_proxy, sh_flags = flags\<rparr>)))))))))"

definition sh_decode :: "byte list \<Rightarrow> (header_error, StreamHeader \<times> nat) result" where
  "sh_decode bytes =
    (if length bytes < 8 then Inl HeaderTruncated
     else if take 4 bytes \<noteq> STREAM_HEADER_MAGIC then Inl BadMagic
     else
       (let version = u16_from_be (take 2 (drop 4 bytes)) in
        if version \<noteq> STREAM_HEADER_VERSION then Inl (BadVersion version)
        else
          (let body_len = unat (u16_from_be (take 2 (drop 6 bytes))) in
           if body_len > MAX_STREAM_HEADER then Inl (HeaderTooLarge body_len)
           else
             (let end = 8 + body_len in
              and_then (ok_or HeaderPayloadTruncated (slice_get bytes 8 end)) (\<lambda>body.
              and_then (sh_decode_body body) (\<lambda>h. Inr (h, end)))))))"

section \<open>Headers on a flow\<close>

definition write_flow_header ::
  "StreamHeader \<Rightarrow> byte list \<Rightarrow> writer \<Rightarrow> (header_error, unit) result \<times> byte list \<times> writer" where
  "write_flow_header h buffer w =
    (case sh_encode_into h buffer of
       (Inl e, encoded) \<Rightarrow> (Inl e, encoded, w)
     | (Inr _, encoded) \<Rightarrow>
         (case write_all encoded w of
            (Inl e, w') \<Rightarrow> (Inl (FlowIo e), encoded, w')
          | (Inr _, w') \<Rightarrow>
              (case flush w' of
                 Inl e \<Rightarrow> (Inl (FlowIo e), encoded, w')
               | Inr _ \<Rightarrow> (Inr (), encoded, w'))))"

definition read_flow_header :: "reader \<Rightarrow> (header_error, StreamHeader \<times> reader) result" where
  "read_flow_header rd =
    (case read_exact STREAM_HEADER_PREFIX_LEN rd of
       Inl e \<Rightarrow> Inl (FlowIo e)
     | Inr (prefix, rd) \<Rightarrow>
         (let body_len = unat (u16_from_be (take 2 (drop 6 prefix))) in
          if body_len > MAX_STREAM_HEADER then Inl (HeaderTooLarge body_len)
          else case read_exact body_len rd of
            Inl e \<Rightarrow> Inl (FlowIo e)
          | Inr (body, rd) \<Rightarrow>
              (let encoded = prefix @ body in
               and_then (sh_decode encoded) (\<lambda>(h, consumed).
                 if consumed \<noteq> length encoded then Inl (FlowConsumed consumed (length encoded))
                 else Inr (h, rd)))))"

section \<open>The cursor meets its contract\<close>

definition shc_rest :: "sh_cursor \<Rightarrow> byte list" where
  "shc_rest c = drop (shc_pos c) (shc_bytes c)"

definition shc_adv :: "nat \<Rightarrow> sh_cursor \<Rightarrow> sh_cursor" where
  "shc_adv n c = c\<lparr>shc_pos := shc_pos c + n\<rparr>"

definition shc_wf :: "sh_cursor \<Rightarrow> bool" where
  "shc_wf c \<longleftrightarrow> shc_pos c \<le> length (shc_bytes c) \<and> length (shc_bytes c) < 2 ^ 63"

interpretation header_cursor: wire_cursor shc_rest shc_adv shc_wf
  sh_read_u8 sh_read_u16 sh_read_u32 sh_read_string sh_read_bytes sh_ensure_empty
  HeaderPayloadTruncated HeaderUtf8
proof
  fix c :: sh_cursor and n :: nat
  show "shc_wf c \<Longrightarrow> n \<le> length (shc_rest c) \<Longrightarrow> shc_wf (shc_adv n c)"
    by (auto simp: shc_wf_def shc_adv_def shc_rest_def)
  show "shc_rest (shc_adv n c) = drop n (shc_rest c)"
    by (simp add: shc_adv_def shc_rest_def add.commute)
  show "shc_wf c \<Longrightarrow> sh_read_u8 c =
      (case shc_rest c of [] \<Rightarrow> Inl HeaderPayloadTruncated | b # _ \<Rightarrow> Inr (b, shc_adv 1 c))"
    by (auto simp: sh_read_u8_def shc_rest_def shc_adv_def Cons_nth_drop_Suc [symmetric])
  show "shc_wf c \<Longrightarrow> n < 2 ^ 32 \<Longrightarrow> sh_read_bytes n c =
      (if n \<le> length (shc_rest c) then Inr (take n (shc_rest c), shc_adv n c)
       else Inl HeaderPayloadTruncated)"
    by (auto simp: sh_read_bytes_def checked_add_def usize_max_def slice_get_def shc_wf_def
        shc_rest_def shc_adv_def)
  show "sh_read_u16 c = and_then (sh_read_bytes 2 c) (\<lambda>(bs, c'). Inr (u16_from_be bs, c'))"
    by (simp add: sh_read_u16_def)
  show "sh_read_u32 c = and_then (sh_read_bytes 4 c) (\<lambda>(bs, c'). Inr (u32_from_be bs, c'))"
    by (simp add: sh_read_u32_def)
  show "sh_read_string c =
      and_then (sh_read_u16 c) (\<lambda>(n, c'). and_then (sh_read_bytes (unat n) c') (\<lambda>(bs, c'').
        and_then (ok_or HeaderUtf8 (from_utf8 bs)) (\<lambda>s. Inr (s, c''))))"
    by (simp add: sh_read_string_def)
  show "shc_wf c \<Longrightarrow> is_ok (sh_ensure_empty c) \<longleftrightarrow> shc_rest c = []"
    by (auto simp: sh_ensure_empty_def shc_rest_def shc_wf_def)
qed

section \<open>The shape of an encoded header\<close>

definition put_str :: "string \<Rightarrow> byte list" where
  "put_str s = u16_to_be (word_of_nat (length s)) @ as_bytes s"

definition sh_body :: "StreamHeader \<Rightarrow> byte list" where
  "sh_body h = u32_to_be (sh_flags h) @ u64_to_be (sh_stream_id h) @ [to_wire (st_kind (sh_target h))]
    @ put_str (sh_route_id h) @ put_str (st_host (sh_target h)) @ u16_to_be (st_port (sh_target h))
    @ (case sh_egress_proxy h of None \<Rightarrow> [0] | Some p \<Rightarrow> 1 # put_str p)"

definition sh_strings :: "StreamHeader \<Rightarrow> string list" where
  "sh_strings h = [sh_route_id h, st_host (sh_target h)] @ (case sh_egress_proxy h of None \<Rightarrow> [] | Some p \<Rightarrow> [p])"

text \<open>The type invariant of a header value.\<close>

definition header_ok :: "StreamHeader \<Rightarrow> bool" where
  "header_ok h \<longleftrightarrow> (\<forall>s\<in>set (sh_strings h). str_ok s)"

definition strings_fit :: "StreamHeader \<Rightarrow> bool" where
  "strings_fit h \<longleftrightarrow> (\<forall>s\<in>set (sh_strings h). length s \<le> 65535)"

definition body_len :: "StreamHeader \<Rightarrow> nat" where
  "body_len h = sh_encoded_capacity_hint h - 8"

lemma length_sh_body [simp]: "length (sh_body h) = body_len h"
  by (auto simp: sh_body_def body_len_def sh_encoded_capacity_hint_def put_str_def Let_def split: option.splits)

lemma sh_write_string_eq:
  "sh_write_string out s = (if length s \<le> 65535 then (Inr (), out @ put_str s) else (Inl HeaderStringTooLong, out))"
  by (simp add: sh_write_string_def put_str_def)

definition sh_prefix :: "nat \<Rightarrow> byte list" where
  "sh_prefix n = STREAM_HEADER_MAGIC @ u16_to_be STREAM_HEADER_VERSION @ u16_to_be (word_of_nat n)"

lemma length_sh_prefix [simp]: "length (sh_prefix n) = 8"
  by (simp add: sh_prefix_def STREAM_HEADER_MAGIC_def)

lemma overwrite_pair: "length xs = 2 \<Longrightarrow> length ys = 2 \<Longrightarrow> (xs[0 := ys ! 0])[Suc 0 := ys ! Suc 0] = ys"
  by (auto simp: length_Suc_conv numeral_2_eq_2)

text \<open>Patching bytes 6 and 7 fills in the length field.\<close>

lemma patch_length:
  "((sh_prefix 0 @ body)[6 := u16_to_be (word_of_nat n) ! 0])[7 := u16_to_be (word_of_nat n) ! 1] = sh_prefix n @ body"
  using overwrite_pair [of "u16_to_be 0" "u16_to_be (word_of_nat n)"]
  by (simp add: sh_prefix_def STREAM_HEADER_MAGIC_def list_update_append numeral_eq_Suc)

lemma sh_encode_into_ok:
  assumes "strings_fit h"
  shows "sh_encode_into h scratch =
    (if body_len h > MAX_STREAM_HEADER then (Inl (HeaderTooLarge (body_len h)), sh_prefix 0 @ sh_body h)
     else (Inr (), sh_prefix (body_len h) @ sh_body h))"
proof -
  let ?finish = "\<lambda>out. let n = length out - 8 in
    if n > MAX_STREAM_HEADER then (Inl (HeaderTooLarge n), out)
    else (Inr (), (out[6 := u16_to_be (word_of_nat n) ! 0])[7 := u16_to_be (word_of_nat n) ! 1])"
  have prefix: "[] @ STREAM_HEADER_MAGIC @ u16_to_be STREAM_HEADER_VERSION @ u16_to_be 0 = sh_prefix 0"
    by (simp add: sh_prefix_def)
  have "sh_encode_into h scratch = ?finish (sh_prefix 0 @ sh_body h)"
    unfolding sh_encode_into_def Let_def prefix using assms
    by (cases "sh_egress_proxy h")
      (auto simp: sh_write_string_eq strings_fit_def sh_strings_def sh_body_def buf_then_def)
  then show ?thesis
    by (simp add: Let_def patch_length [unfolded One_nat_def])
qed

lemma sh_encode_into_too_long:
  assumes "\<not> strings_fit h"
  shows "fst (sh_encode_into h scratch) = Inl HeaderStringTooLong"
  using assms
  by (cases "sh_egress_proxy h")
    (auto simp: sh_encode_into_def sh_write_string_eq strings_fit_def sh_strings_def buf_then_def Let_def)

lemmas header_reads = header_cursor.rd_u8 header_cursor.rd_u16_eq header_cursor.rd_u32_eq
  header_cursor.rd_string_eq header_cursor.rd_bytes header_cursor.at_end_eq header_cursor.rest_adv
  header_cursor.adv_wf

lemma sh_read_u64_eq: "shc_wf c \<Longrightarrow> sh_read_u64 c =
    (if 8 \<le> length (shc_rest c) then Inr (u64_from_be (take 8 (shc_rest c)), shc_adv 8 c)
     else Inl HeaderPayloadTruncated)"
  by (simp add: sh_read_u64_def header_cursor.rd_bytes)

lemma sh_cursor_new_simps [simp]:
  "length bs < 2 ^ 63 \<Longrightarrow> shc_wf (sh_cursor_new bs)" "shc_rest (sh_cursor_new bs) = bs"
  by (simp_all add: shc_wf_def sh_cursor_new_def shc_rest_def)

lemma sh_ensure_empty_Nil [simp]: "shc_wf c \<Longrightarrow> shc_rest c = [] \<Longrightarrow> sh_ensure_empty c = Inr ()"
  by (simp add: header_cursor.at_end_eq)

lemma from_wire_to_wire [simp]: "from_wire (to_wire k) = Inr k"
  by (cases k) (simp_all add: from_wire_def)

lemma sh_decode_body_sh_body:
  assumes "header_ok h" "strings_fit h"
  shows "sh_decode_body (sh_body h) = Inr h"
proof -
  have "length (sh_body h) < 2 ^ 63"
    using assms(2) by (auto simp: strings_fit_def sh_strings_def body_len_def sh_encoded_capacity_hint_def Let_def
        split: option.splits)
  moreover obtain r i k ho p e f where "h = \<lparr>sh_route_id = r, sh_stream_id = i,
      sh_target = \<lparr>st_kind = k, st_host = ho, st_port = p\<rparr>, sh_egress_proxy = e, sh_flags = f\<rparr>"
    by (metis StreamHeader.cases StreamTarget.cases)
  ultimately show ?thesis
    using assms
    by (cases e)
      (simp_all add: sh_decode_body_def sh_body_def put_str_def header_ok_def strings_fit_def sh_strings_def
        header_reads sh_read_u64_eq sh_read_egress_def Let_def)
qed

lemma sh_decode_prefix:
  assumes "n \<le> 65535" "n \<le> length bs"
  shows "sh_decode (sh_prefix n @ bs) = and_then (sh_decode_body (take n bs)) (\<lambda>h. Inr (h, 8 + n))"
  using assms
  by (simp add: sh_decode_def sh_prefix_def STREAM_HEADER_MAGIC_def MAX_STREAM_HEADER_def slice_get_def Let_def)

lemma header_len_bytes: "take 2 (drop 6 (sh_prefix n @ bs)) = u16_to_be (word_of_nat n)"
  by (simp add: sh_prefix_def STREAM_HEADER_MAGIC_def)

lemma sh_decode_wrapped: "sh_decode (sh_prefix 65536 @ bs) = Inl HeaderPayloadTruncated"
proof -
  have "sh_prefix 65536 = sh_prefix 0"
    by (simp add: sh_prefix_def u16_to_be_def)
  moreover have "sh_decode_body [] = Inl HeaderPayloadTruncated"
    by (simp add: sh_decode_body_def header_cursor.rd_u32_eq)
  ultimately show ?thesis
    using sh_decode_prefix [of 0 bs] by simp
qed

lemma body_len_pos: "20 \<le> body_len h"
  by (simp add: body_len_def sh_encoded_capacity_hint_def Let_def)

lemma sh_encode_Inr:
  "sh_encode_into h scratch = (Inr (), bs) \<longleftrightarrow>
    strings_fit h \<and> body_len h \<le> 65536 \<and> bs = sh_prefix (body_len h) @ sh_body h"
  using sh_encode_into_too_long [of h scratch]
  by (cases "strings_fit h") (auto simp: sh_encode_into_ok MAX_STREAM_HEADER_def)

lemma sh_encode_eq: "sh_encode h = Inr bs \<longleftrightarrow> sh_encode_into h [] = (Inr (), bs)"
  by (auto simp: sh_encode_def split: prod.splits sum.splits)

text \<open>Reading a header from a stream: the bytes it takes and what it leaves.\<close>

lemma read_flow_header_prefix:
  assumes "flat rd = sh_prefix n @ body @ rest" "n \<le> 65535" "length body = n"
    and "sh_decode_body body = Inr h"
  shows "\<exists>rd'. read_flow_header rd = Inr (h, rd') \<and> flat rd' = rest"
proof -
  obtain rd1 where rd1: "read_exact 8 rd = Inr (sh_prefix n, rd1)" "flat rd1 = body @ rest"
    using read_exact_enough [of 8 rd] assms(1) by auto
  obtain rd2 where rd2: "read_exact n rd1 = Inr (body, rd2)" "flat rd2 = rest"
    using read_exact_enough [of n rd1] rd1(2) assms(3) by auto
  have "take 2 (drop 6 (sh_prefix n)) = u16_to_be (word_of_nat n)"
    using header_len_bytes [of n "[]"] by simp
  moreover have "sh_decode (sh_prefix n @ body) = Inr (h, 8 + n)"
    using sh_decode_prefix [of n body] assms by simp
  ultimately show ?thesis
    using rd1 rd2 assms by (simp add: read_flow_header_def STREAM_HEADER_PREFIX_LEN_def MAX_STREAM_HEADER_def Let_def)
qed

lemma read_flow_header_wrapped:
  assumes "flat rd = sh_prefix 65536 @ rest"
  shows "read_flow_header rd = Inl HeaderPayloadTruncated"
proof -
  obtain rd1 where rd1: "read_exact 8 rd = Inr (sh_prefix 65536, rd1)"
    using read_exact_enough [of 8 rd] assms by auto
  obtain rd2 where rd2: "read_exact 0 rd1 = Inr ([], rd2)"
    using read_exact_enough [of 0 rd1] by auto
  have "unat (u16_from_be (take 2 (drop 6 (sh_prefix 65536)))) = 0"
    using header_len_bytes [of 65536 "[]"] by simp
  then show ?thesis
    using rd1 rd2 sh_decode_wrapped [of "[]"]
    by (simp add: read_flow_header_def STREAM_HEADER_PREFIX_LEN_def Let_def)
qed

text \<open>A header for the concrete instances below.\<close>

definition sample_header :: StreamHeader where
  "sample_header = \<lparr>sh_route_id = ''r'', sh_stream_id = 7,
    sh_target = \<lparr>st_kind = TcpConnect, st_host = ''h'', st_port = 443\<rparr>,
    sh_egress_proxy = Some ''p'', sh_flags = 0\<rparr>"

lemma sample_header_facts:
  "header_ok sample_header" "body_len sample_header = 25"
  "sh_encode_into sample_header [] = (Inr (), sh_prefix 25 @ sh_body sample_header)"
proof -
  show "header_ok sample_header"
    by (simp add: sample_header_def header_ok_def sh_strings_def exec_simps)
  show len: "body_len sample_header = 25"
    by (simp add: sample_header_def body_len_def sh_encoded_capacity_hint_def)
  show "sh_encode_into sample_header [] = (Inr (), sh_prefix 25 @ sh_body sample_header)"
    using len by (simp add: sh_encode_Inr strings_fit_def) (simp add: sample_header_def sh_strings_def)
qed

section \<open>Properties\<close>

text \<open>
  C4. Round trip of the QUIC-native flow header, and where it ends: a header that the encoder accepts
  is decoded to itself, consuming exactly its bytes, if and only if its body is not exactly 65536
  bytes long.
\<close>

theorem stream_header_round_trip_iff:
  assumes "header_ok h" "sh_encode h = Inr bs"
  shows "sh_decode bs = Inr (h, length bs) \<longleftrightarrow> body_len h \<noteq> 65536"
proof -
  have fits: "strings_fit h" "body_len h \<le> 65536" and bs: "bs = sh_prefix (body_len h) @ sh_body h"
    using assms(2) by (auto simp: sh_encode_eq sh_encode_Inr)
  have "body_len h \<noteq> 65536 \<Longrightarrow> sh_decode bs = Inr (h, length bs)"
    using fits sh_decode_prefix [of "body_len h" "sh_body h"] sh_decode_body_sh_body [OF assms(1) fits(1)] bs
    by simp
  moreover have "body_len h = 65536 \<Longrightarrow> sh_decode bs \<noteq> Inr (h, length bs)"
    using sh_decode_wrapped bs by simp
  ultimately show ?thesis
    by auto
qed

theorem stream_header_round_trip_iff_witness:
  "sh_decode (sh_prefix 25 @ sh_body sample_header) = Inr (sample_header, 33)"
  using stream_header_round_trip_iff [OF sample_header_facts(1), of "sh_prefix 25 @ sh_body sample_header"]
    sample_header_facts(2,3) by (simp add: sh_encode_eq)

text \<open>
  The boundary of the header size check: a header whose body is exactly 65536 bytes passes the
  encoder's limit, but its 16-bit length field wraps to 0 and the decoder rejects the encoded header as
  truncated.
\<close>

theorem stream_header_64k_undecodable:
  assumes "strings_fit h" "body_len h = MAX_STREAM_HEADER"
  shows "\<exists>bs. sh_encode h = Inr bs \<and> sh_decode bs = Inl HeaderPayloadTruncated"
  using assms sh_decode_wrapped by (simp add: sh_encode_eq sh_encode_Inr MAX_STREAM_HEADER_def)

theorem stream_header_64k_undecodable_witness:
  "\<exists>bs. sh_encode \<lparr>sh_route_id = replicate 65516 CHR ''a'', sh_stream_id = 1,
      sh_target = \<lparr>st_kind = FixedTcp, st_host = [], st_port = 80\<rparr>, sh_egress_proxy = None, sh_flags = 0\<rparr> = Inr bs
    \<and> sh_decode bs = Inl HeaderPayloadTruncated"
  by (rule stream_header_64k_undecodable)
    (simp_all add: strings_fit_def sh_strings_def body_len_def sh_encoded_capacity_hint_def MAX_STREAM_HEADER_def)

text \<open>
  C33. Flow headers over a transport: whenever the writer reports success, a reader at the start of the bytes
  written reads that header, however the bytes are cut into chunks, and leaves exactly the flow's payload bytes
  that follow, unless the header's body is exactly 65536 bytes long.  A header of that size is written without an
  error and its reader fails.
\<close>

theorem flow_header_round_trip:
  assumes "header_ok h"
    and "write_flow_header h buffer w = (Inr (), buffer', w')" "written w = []"
    and "flat rd = written w' @ payload"
  shows "if body_len h \<le> 65535 then \<exists>rd'. read_flow_header rd = Inr (h, rd') \<and> flat rd' = payload
    else body_len h = 65536 \<and> read_flow_header rd = Inl HeaderPayloadTruncated"
proof -
  obtain bs where bs: "sh_encode_into h buffer = (Inr (), bs)" and all: "write_all bs w = (Inr (), w')"
    using assms(2) by (auto simp: write_flow_header_def split: sum.splits prod.splits)
  then have rd: "flat rd = sh_prefix (body_len h) @ sh_body h @ payload" "strings_fit h" "body_len h \<le> 65536"
    using write_all_ok [OF all] assms(3,4) by (auto simp: sh_encode_Inr)
  show ?thesis
  proof (cases "body_len h \<le> 65535")
    case True
    then show ?thesis
      using rd read_flow_header_prefix [of rd "body_len h" "sh_body h"] sh_decode_body_sh_body assms(1) by simp
  next
    case False
    then have "body_len h = 65536"
      using rd(3) by simp
    then show ?thesis
      using rd(1) read_flow_header_wrapped by simp
  qed
qed

theorem flow_header_round_trip_witness:
  "\<exists>rd'. read_flow_header \<lparr>chunks = [sh_prefix 25, sh_body sample_header @ [42]], fault = False\<rparr> =
    Inr (sample_header, rd') \<and> flat rd' = [42]"
proof -
  let ?w = "\<lparr>written = [], accepts = [], flush_fault = False\<rparr>"
  let ?bs = "sh_prefix 25 @ sh_body sample_header"
  have "write_flow_header sample_header [] ?w = (Inr (), ?bs, ?w\<lparr>written := ?bs\<rparr>)"
    using sample_header_facts(3) by (simp add: write_flow_header_def write_all_ideal flush_def)
  from flow_header_round_trip [OF sample_header_facts(1) this,
      of "\<lparr>chunks = [sh_prefix 25, sh_body sample_header @ [42]], fault = False\<rparr>" "[42]"]
  show ?thesis
    by (simp add: flat_def sample_header_facts(2))
qed

end
