(* ===== verification/Ordered_Map.thy ===== *)
theory Ordered_Map
  imports SPX_Prelude "HOL-Library.List_Lexorder"
begin

text \<open>
  Ordered maps.  The daemon keeps its stores in \<^verbatim>\<open>BTreeMap\<close>s, and \<^verbatim>\<open>serde_json\<close> keeps the fields of an
  object in one: association lists with strictly increasing keys, so that iteration order is the order
  the program sees.  The contract the stores rely on is the locale \<open>keyed_store\<close>.
\<close>

type_synonym ('k, 'v) omap = "('k \<times> 'v) list"

fun om_insert :: "'k::linorder \<Rightarrow> 'v \<Rightarrow> ('k, 'v) omap \<Rightarrow> ('k, 'v) omap" where
  "om_insert k v [] = [(k, v)]"
| "om_insert k v ((k', v') # m) =
    (if k < k' then (k, v) # (k', v') # m
     else if k = k' then (k, v) # m
     else (k', v') # om_insert k v m)"

definition om_get :: "('k, 'v) omap \<Rightarrow> 'k \<Rightarrow> 'v option" where
  "om_get m k = map_of m k"

definition om_remove :: "'k \<Rightarrow> ('k, 'v) omap \<Rightarrow> ('k, 'v) omap" where
  "om_remove k m = filter (\<lambda>(k', _). k' \<noteq> k) m"

definition om_retain :: "('k \<Rightarrow> 'v \<Rightarrow> bool) \<Rightarrow> ('k, 'v) omap \<Rightarrow> ('k, 'v) omap" where
  "om_retain P m = filter (\<lambda>(k, v). P k v) m"

definition om_inv :: "('k::linorder, 'v) omap \<Rightarrow> bool" where
  "om_inv m \<longleftrightarrow> sorted_wrt (<) (map fst m)"

section \<open>The contract of a keyed store\<close>

locale keyed_store =
  fixes empty :: 's
    and lookup :: "'s \<Rightarrow> 'k \<Rightarrow> 'v option"
    and update :: "'k \<Rightarrow> 'v \<Rightarrow> 's \<Rightarrow> 's"
    and delete :: "'k \<Rightarrow> 's \<Rightarrow> 's"
    and inv :: "'s \<Rightarrow> bool"
  assumes inv_empty: "inv empty"
    and inv_update: "inv s \<Longrightarrow> inv (update k v s)"
    and inv_delete: "inv s \<Longrightarrow> inv (delete k s)"
    and lookup_empty: "lookup empty k = None"
    and lookup_update: "inv s \<Longrightarrow> lookup (update k v s) k' = (if k' = k then Some v else lookup s k')"
    and lookup_delete: "inv s \<Longrightarrow> lookup (delete k s) k' = (if k' = k then None else lookup s k')"
begin

lemma lookup_same: "inv s \<Longrightarrow> lookup (update k v s) k = Some v"
  by (simp add: lookup_update)

lemma lookup_other: "inv s \<Longrightarrow> k' \<noteq> k \<Longrightarrow> lookup (update k v s) k' = lookup s k'"
  by (simp add: lookup_update)

text \<open>After a sequence of updates a key holds its last value.\<close>

lemma inv_fold: "inv s \<Longrightarrow> inv (fold (\<lambda>(k, v). update k v) kvs s)"
  by (induction kvs arbitrary: s) (auto simp: inv_update)

lemma lookup_fold:
  "inv s \<Longrightarrow> lookup (fold (\<lambda>(k, v). update k v) kvs s) k =
    (case map_of (rev kvs) k of Some v \<Rightarrow> Some v | None \<Rightarrow> lookup s k)"
  by (induction kvs arbitrary: s)
    (auto simp: inv_update lookup_update map_add_def split: option.splits)

end

section \<open>Association lists with increasing keys meet the contract\<close>

lemma om_insert_keys: "fst ` set (om_insert k v m) = insert k (fst ` set m)"
  by (induction k v m rule: om_insert.induct) auto

lemma om_inv_Cons: "om_inv ((k, v) # m) \<longleftrightarrow> (\<forall>k'\<in>fst ` set m. k < k') \<and> om_inv m"
  by (simp add: om_inv_def)

lemma om_inv_insert: "om_inv m \<Longrightarrow> om_inv (om_insert k v m)"
proof (induction k v m rule: om_insert.induct)
  case (2 k v k' v' m)
  then show ?case
    by (auto simp: om_inv_Cons om_insert_keys)
qed (simp add: om_inv_def)

lemma om_get_insert: "om_get (om_insert k v m) k' = (if k' = k then Some v else om_get m k')"
  by (induction k v m rule: om_insert.induct) (auto simp: om_get_def)

lemma om_get_filter: "om_get (filter (\<lambda>(k, _). P k) m) k = (if P k then om_get m k else None)"
  by (induction m) (auto simp: om_get_def)

lemma om_inv_filter: "om_inv m \<Longrightarrow> om_inv (filter P m)"
proof (induction m)
  case (Cons a m)
  then show ?case
    by (cases a) (auto simp: om_inv_Cons)
qed simp

lemma om_inv_distinct: "om_inv m \<Longrightarrow> distinct (map fst m)"
  unfolding om_inv_def by (metis strict_sorted_iff)

interpretation om: keyed_store "[]" om_get om_insert om_remove om_inv
proof
  fix m :: "('k::linorder, 'v) omap" and k k' :: 'k and v :: 'v
  show "om_inv ([] :: ('k, 'v) omap)"
    by (simp add: om_inv_def)
  show "om_inv m \<Longrightarrow> om_inv (om_insert k v m)"
    by (rule om_inv_insert)
  show "om_inv m \<Longrightarrow> om_inv (om_remove k m)"
    by (simp add: om_remove_def om_inv_filter)
  show "om_get [] k = None"
    by (simp add: om_get_def)
  show "om_get (om_insert k v m) k' = (if k' = k then Some v else om_get m k')"
    by (rule om_get_insert)
  show "om_get (om_remove k m) k' = (if k' = k then None else om_get m k')"
    by (simp add: om_remove_def om_get_filter)
qed

lemma om_get_Some_iff: "om_inv m \<Longrightarrow> om_get m k = Some v \<longleftrightarrow> (k, v) \<in> set m"
  by (simp add: om_get_def om_inv_distinct)

lemma om_insert_set: "om_inv m \<Longrightarrow> set (om_insert k v m) = insert (k, v) {p \<in> set m. fst p \<noteq> k}"
proof -
  assume inv: "om_inv m"
  have "p \<in> set (om_insert k v m) \<longleftrightarrow> p \<in> insert (k, v) {p \<in> set m. fst p \<noteq> k}" for p
    using om_get_Some_iff [OF om_inv_insert [OF inv, of k v], of "fst p" "snd p"]
      om_get_Some_iff [OF inv, of "fst p" "snd p"] by (cases p) (auto simp: om_get_insert split: if_splits)
  then show ?thesis by blast
qed

lemma om_retain_get:
  "om_inv m \<Longrightarrow> om_get (om_retain P m) k =
    (case om_get m k of Some v \<Rightarrow> if P k v then Some v else None | None \<Rightarrow> None)"
proof (induction m)
  case (Cons a m)
  obtain k' v' where a: "a = (k', v')" by (cases a)
  have "om_get m k' = None"
    using Cons.prems by (auto simp: a om_inv_Cons om_get_def map_of_eq_None_iff)
  then show ?case
    using Cons by (auto simp: a om_inv_Cons om_retain_def om_get_def split: option.splits)
qed (simp add: om_retain_def om_get_def)

lemma om_inv_retain: "om_inv m \<Longrightarrow> om_inv (om_retain P m)"
  by (simp add: om_retain_def om_inv_filter)

lemma om_ext:
  assumes a: "om_inv a" and b: "om_inv b" and same: "\<And>k. om_get a k = om_get b k"
  shows "a = b"
proof (rule map_sorted_distinct_set_unique [of fst])
  have "set a = set b"
    using a b same by (auto simp flip: om_get_Some_iff)
  then show "set a = set b" "inj_on fst (set a \<union> set b)"
    using om_inv_distinct [OF b] by (simp_all add: distinct_map)
  show "sorted (map fst a)" "distinct (map fst a)" "sorted (map fst b)" "distinct (map fst b)"
    using a b by (simp_all add: om_inv_def strict_sorted_iff om_inv_distinct)
qed

lemma om_insert_same: "om_inv m \<Longrightarrow> om_get m k = Some v \<Longrightarrow> om_insert k v m = m"
  by (rule om_ext) (auto simp: om_inv_insert om_get_insert)

end
