(* ===== verification/Json.thy ===== *)
theory Json
  imports Ordered_Map Rust_Strings
begin

text \<open>
  JSON values as the program handles them (\<^verbatim>\<open>serde_json::Value\<close>): integers, strings, arrays and objects
  whose fields are kept in key order.
\<close>

datatype json =
    JNull
  | JBool bool
  | JNum int
  | JStr string
  | JArr "json list"
  | JObj "(string \<times> json) list"

definition om_from_list :: "('k::linorder \<times> 'v) list \<Rightarrow> ('k, 'v) omap" where
  "om_from_list kvs = fold (\<lambda>(k, v). om_insert k v) kvs []"

definition json_obj :: "(string \<times> json) list \<Rightarrow> json" where
  "json_obj kvs = JObj (om_from_list kvs)"

fun json_get :: "json \<Rightarrow> string \<Rightarrow> json option" where
  "json_get (JObj fields) k = om_get fields k"
| "json_get _ k = None"

fun as_str :: "json \<Rightarrow> string option" where
  "as_str (JStr s) = Some s"
| "as_str _ = None"

fun as_bool :: "json \<Rightarrow> bool option" where
  "as_bool (JBool b) = Some b"
| "as_bool _ = None"

fun as_u64 :: "json \<Rightarrow> u64 option" where
  "as_u64 (JNum n) = (if 0 \<le> n \<and> n < 2 ^ 64 then Some (word_of_int n) else None)"
| "as_u64 _ = None"

fun as_array :: "json \<Rightarrow> json list option" where
  "as_array (JArr xs) = Some xs"
| "as_array _ = None"

definition json_opt :: "('a \<Rightarrow> json) \<Rightarrow> 'a option \<Rightarrow> json" where
  "json_opt f x = (case x of None \<Rightarrow> JNull | Some y \<Rightarrow> f y)"

text \<open>A field that is left out of an object when it has no value.\<close>

definition skip_none :: "string \<Rightarrow> ('a \<Rightarrow> json) \<Rightarrow> 'a option \<Rightarrow> (string \<times> json) list" where
  "skip_none k f x = (case x of None \<Rightarrow> [] | Some y \<Rightarrow> [(k, f y)])"

fun json_wf :: "json \<Rightarrow> bool" and json_wf_fields :: "(string \<times> json) list \<Rightarrow> bool"
  and json_wf_list :: "json list \<Rightarrow> bool" where
  "json_wf (JObj fields) = (om_inv fields \<and> json_wf_fields fields)"
| "json_wf (JArr xs) = json_wf_list xs"
| "json_wf _ = True"
| "json_wf_fields [] = True"
| "json_wf_fields ((k, v) # fields) = (json_wf v \<and> json_wf_fields fields)"
| "json_wf_list [] = True"
| "json_wf_list (x # xs) = (json_wf x \<and> json_wf_list xs)"

lemma om_insert_last: "\<forall>k'\<in>fst ` set m. k' < k \<Longrightarrow> om_insert k v m = m @ [(k, v)]"
  by (induction k v m rule: om_insert.induct) auto

lemma fold_insert_sorted:
  "om_inv (acc @ kvs) \<Longrightarrow> fold (\<lambda>(k, v). om_insert k v) kvs acc = acc @ kvs"
proof (induction kvs arbitrary: acc)
  case (Cons a kvs)
  obtain k v where a: "a = (k, v)" by (cases a)
  have "\<forall>k'\<in>fst ` set acc. k' < k"
    using Cons.prems by (auto simp: om_inv_def sorted_wrt_append a)
  then show ?case
    using Cons by (simp add: a om_insert_last)
qed simp

text \<open>Collecting fields that are already in order changes nothing.\<close>

lemma om_from_list_sorted: "om_inv kvs \<Longrightarrow> om_from_list kvs = kvs"
  using fold_insert_sorted [of "[]" kvs] by (simp add: om_from_list_def)

lemma om_inv_from_list: "om_inv (om_from_list kvs)"
  using om.inv_fold [OF om.inv_empty] by (simp add: om_from_list_def)

lemma om_get_from_list: "om_get (om_from_list kvs) k = map_of (rev kvs) k"
  using om.lookup_fold [OF om.inv_empty, of kvs k]
  by (simp add: om_from_list_def om.lookup_empty split: option.splits)

lemma json_get_obj [simp]: "json_get (json_obj kvs) k = map_of (rev kvs) k"
  by (simp add: json_obj_def om_get_from_list)

end
