(* ===== verification/Redaction.thy ===== *)
theory Redaction
  imports Json
begin

text \<open>
  Redaction of reports (\<^verbatim>\<open>ssh-proxy-core/src/redaction.rs\<close>): every report that leaves the daemon goes
  through \<open>redact_value\<close>, which replaces the values of secret fields and cuts key and host files down
  to their base names.  The lemmas show what a redacted report can and cannot reveal.
\<close>

definition secret_key :: "string \<Rightarrow> bool" where
  "secret_key k =
    (let lower = to_ascii_lowercase k in
     str_contains lower ''token'' \<or> str_contains lower ''password'' \<or> str_contains lower ''passphrase''
     \<or> str_contains lower ''secret'' \<or> str_contains lower ''credential'')"

definition path_key :: "string \<Rightarrow> bool" where
  "path_key k =
    (let lower = to_ascii_lowercase k in
     str_contains lower ''identity'' \<or> str_contains lower ''known_hosts'')"

text \<open>\<^verbatim>\<open>Path::file_name\<close> on Unix paths: the last component, unless the path ends in \<^verbatim>\<open>..\<close> or has none.\<close>

definition file_name :: "string \<Rightarrow> string option" where
  "file_name path =
    (let parts = filter (\<lambda>p. p \<noteq> [] \<and> p \<noteq> ''.'') (split_char CHR ''/'' path) in
     if parts = [] then None
     else if last parts = ''..'' then None
     else Some (last parts))"

definition redacted_path :: "string \<Rightarrow> string" where
  "redacted_path path =
    (let file = (case file_name path of Some f \<Rightarrow> f | None \<Rightarrow> ''<path>'') in ''<redacted>/'' @ file)"

function redact_value :: "json \<Rightarrow> json"
  and redact_entries :: "(string \<times> json) list \<Rightarrow> (string \<times> json) list"
  and redact_values :: "json list \<Rightarrow> json list"
  and redact_pathish :: "json \<Rightarrow> json"
  and redact_pathishes :: "json list \<Rightarrow> json list" where
  "redact_value v =
    (case v of
       JObj object \<Rightarrow> JObj (om_from_list (redact_entries object))
     | JArr array \<Rightarrow> JArr (redact_values array)
     | other \<Rightarrow> other)"
| "redact_entries [] = []"
| "redact_entries ((key, value) # object) =
    (key,
     if secret_key key then JStr ''<redacted>''
     else if path_key key then redact_pathish value
     else redact_value value) # redact_entries object"
| "redact_values [] = []"
| "redact_values (v # vs) = redact_value v # redact_values vs"
| "redact_pathish v =
    (case v of
       JStr path \<Rightarrow> JStr (redacted_path path)
     | JArr values \<Rightarrow> JArr (redact_pathishes values)
     | _ \<Rightarrow> redact_value v)"
| "redact_pathishes [] = []"
| "redact_pathishes (v # vs) = redact_pathish v # redact_pathishes vs"
  by pat_completeness auto
termination
  by (relation "measure (\<lambda>x. case x of
      Inl (Inl v) \<Rightarrow> 2 * size v
    | Inl (Inr kvs) \<Rightarrow> 2 * size_list (size_prod (\<lambda>_. 0) size) kvs
    | Inr (Inl vs) \<Rightarrow> 2 * size_list size vs
    | Inr (Inr (Inl v)) \<Rightarrow> Suc (2 * size v)
    | Inr (Inr (Inr vs)) \<Rightarrow> Suc (2 * size_list size vs))") auto

definition redact_object :: "(string \<times> json) list \<Rightarrow> (string \<times> json) list" where
  "redact_object object = om_from_list (redact_entries object)"

declare redact_value.simps [simp del] redact_pathish.simps [simp del]

lemma redact_value_simps [simp]:
  "redact_value (JObj fields) = JObj (redact_object fields)"
  "redact_value (JArr vs) = JArr (redact_values vs)"
  "redact_value (JStr s) = JStr s" "redact_value (JNum n) = JNum n"
  "redact_value (JBool b) = JBool b" "redact_value JNull = JNull"
  by (simp_all add: redact_value.simps redact_object_def)

lemma redact_pathish_simps [simp]:
  "redact_pathish (JObj fields) = JObj (redact_object fields)"
  "redact_pathish (JArr vs) = JArr (redact_pathishes vs)"
  "redact_pathish (JStr s) = JStr (redacted_path s)" "redact_pathish (JNum n) = JNum n"
  "redact_pathish (JBool b) = JBool b" "redact_pathish JNull = JNull"
  by (simp_all add: redact_pathish.simps)

lemma redact_entries_keys [simp]: "map fst (redact_entries kvs) = map fst kvs"
  by (induction kvs) auto

lemma redact_object_eq: "om_inv kvs \<Longrightarrow> redact_object kvs = redact_entries kvs"
  by (simp add: redact_object_def om_from_list_sorted om_inv_def)

section \<open>Base names\<close>

lemma split_last_part: "CHR ''/'' \<notin> set f \<Longrightarrow> split_char CHR ''/'' (a @ CHR ''/'' # f) = split_char CHR ''/'' a @ [f]"
proof (induction a)
  case (Cons c a)
  then show ?case
    by (cases "split_char CHR ''/'' a") auto
qed (simp add: split_char_no_sep)

lemma file_name_append:
  "CHR ''/'' \<notin> set f \<Longrightarrow> f \<noteq> [] \<Longrightarrow> f \<noteq> ''.'' \<Longrightarrow> f \<noteq> ''..'' \<Longrightarrow> file_name (a @ CHR ''/'' # f) = Some f"
  by (simp add: file_name_def split_last_part)

lemma file_name_Some:
  assumes "file_name p = Some f"
  shows "CHR ''/'' \<notin> set f \<and> f \<noteq> [] \<and> f \<noteq> ''.'' \<and> f \<noteq> ''..''"
proof -
  let ?parts = "filter (\<lambda>q. q \<noteq> [] \<and> q \<noteq> ''.'') (split_char CHR ''/'' p)"
  have ne: "?parts \<noteq> []" and f: "f = last ?parts" "f \<noteq> ''..''"
    using assms by (auto simp: file_name_def Let_def split: if_splits)
  have "f \<in> set ?parts"
    using last_in_set [OF ne] f by simp
  then show ?thesis
    using f split_char_parts by auto
qed

text \<open>Redacting a path twice is redacting it once.\<close>

lemma redacted_path_idem: "redacted_path (redacted_path p) = redacted_path p"
proof -
  let ?f = "case file_name p of Some f \<Rightarrow> f | None \<Rightarrow> ''<path>''"
  have "CHR ''/'' \<notin> set ?f \<and> ?f \<noteq> [] \<and> ?f \<noteq> ''.'' \<and> ?f \<noteq> ''..''"
    using file_name_Some by (auto split: option.splits)
  then have "file_name (''<redacted>'' @ CHR ''/'' # ?f) = Some ?f"
    by (intro file_name_append) auto
  then show ?thesis
    by (simp add: redacted_path_def)
qed

section \<open>What a redacted report may reveal\<close>

text \<open>
  The public part of a report, described without the functions of the code.  A key mentions a word when the
  word occurs in it at some place, each letter in lower or upper case.
\<close>

definition same_letter :: "char \<Rightarrow> char \<Rightarrow> bool" where
  "same_letter c l \<longleftrightarrow> c = l \<or> (97 \<le> (of_char l :: nat) \<and> (of_char l :: nat) \<le> 122 \<and> of_char c + 32 = (of_char l :: nat))"

definition mentions :: "string \<Rightarrow> string \<Rightarrow> bool" where
  "mentions k w \<longleftrightarrow> list_ex (\<lambda>i. list_all2 same_letter (take (length w) (drop i k)) w) [0..<length k]"

definition secret_field :: "string \<Rightarrow> bool" where
  "secret_field k \<longleftrightarrow> list_ex (mentions k) [''token'', ''password'', ''passphrase'', ''secret'', ''credential'']"

definition location_field :: "string \<Rightarrow> bool" where
  "location_field k \<longleftrightarrow> list_ex (mentions k) [''identity'', ''known_hosts'']"

text \<open>
  What may be shown of a path: the name behind the last separator, after separators and \<^verbatim>\<open>.\<close> components at the end
  are dropped.  The path is read from its end.
\<close>

fun name_from_end :: "string \<Rightarrow> string" where
  "name_from_end [] = []"
| "name_from_end (c # r) =
    (if c = CHR ''/'' \<or> c = CHR ''.'' \<and> (r = [] \<or> hd r = CHR ''/'') then name_from_end r
     else takeWhile (\<lambda>x. x \<noteq> CHR ''/'') (c # r))"

definition shown_name :: "string \<Rightarrow> string" where
  "shown_name path =
    (let name = rev (name_from_end (rev path)) in if name = [] \<or> name = ''..'' then ''<path>'' else name)"

text \<open>
  Two reports look alike when they agree on everything but the values of secret fields and, in fields that hold
  locations, the directories.
\<close>

fun alike_value :: "json \<Rightarrow> json \<Rightarrow> bool"
  and alike_entries :: "(string \<times> json) list \<Rightarrow> (string \<times> json) list \<Rightarrow> bool"
  and alike_values :: "json list \<Rightarrow> json list \<Rightarrow> bool"
  and alike_path :: "json \<Rightarrow> json \<Rightarrow> bool"
  and alike_paths :: "json list \<Rightarrow> json list \<Rightarrow> bool" where
  "alike_value (JObj a) (JObj b) = alike_entries a b"
| "alike_value (JArr a) (JArr b) = alike_values a b"
| "alike_value v w = (v = w)"
| "alike_entries [] [] = True"
| "alike_entries ((k, v) # a) ((k', w) # b) =
    (k = k' \<and> (secret_field k \<or> (if location_field k then alike_path v w else alike_value v w)) \<and> alike_entries a b)"
| "alike_entries _ _ = False"
| "alike_values [] [] = True"
| "alike_values (v # a) (w # b) = (alike_value v w \<and> alike_values a b)"
| "alike_values _ _ = False"
| "alike_path (JStr p) (JStr q) = (shown_name p = shown_name q)"
| "alike_path (JArr a) (JArr b) = alike_paths a b"
| "alike_path (JObj a) (JObj b) = alike_entries a b"
| "alike_path v w = (v = w)"
| "alike_paths [] [] = True"
| "alike_paths (v # a) (w # b) = (alike_path v w \<and> alike_paths a b)"
| "alike_paths _ _ = False"

section \<open>The code follows the description\<close>

lemma same_letter_lower: "\<not> is_ascii_uppercase l \<Longrightarrow> same_letter c l \<longleftrightarrow> char_to_lower c = l"
proof -
  have "\<not> is_ascii_uppercase l \<Longrightarrow> same_letter c l \<Longrightarrow> char_to_lower c = l"
    by (auto simp: same_letter_def char_to_lower_def is_ascii_uppercase_def)
  moreover have "char_to_lower c = l \<Longrightarrow> same_letter c l"
    by (auto simp: same_letter_def char_to_lower_def is_ascii_uppercase_def split: if_splits)
  ultimately show "\<not> is_ascii_uppercase l \<Longrightarrow> same_letter c l \<longleftrightarrow> char_to_lower c = l" by blast
qed

lemma str_contains_at: "w \<noteq> [] \<Longrightarrow> str_contains s w \<longleftrightarrow> list_ex (\<lambda>i. take (length w) (drop i s) = w) [0..<length s]"
proof (induction s)
  case (Cons c s)
  have "list_ex P [0..<length (c # s)] \<longleftrightarrow> P 0 \<or> list_ex (\<lambda>i. P (Suc i)) [0..<length s]" for P
    by (simp add: upt_conv_Cons list_ex_iff image_Suc_atLeastLessThan [symmetric] del: upt_Suc image_Suc_atLeastLessThan)
  then show ?case
    using Cons by (simp add: starts_with_def del: upt_Suc)
qed simp

lemma mentions_iff:
  assumes "w \<noteq> []" "list_all (\<lambda>l. \<not> is_ascii_uppercase l) w"
  shows "mentions k w \<longleftrightarrow> str_contains (to_ascii_lowercase k) w"
proof -
  have "list_all2 same_letter s w \<longleftrightarrow> map char_to_lower s = w" for s
    using assms(2) by (induction w arbitrary: s) (auto simp: list_all2_Cons2 same_letter_lower map_eq_Cons_conv)
  then show ?thesis
    using assms(1) by (simp add: mentions_def to_ascii_lowercase_def str_contains_at take_map drop_map)
qed

lemma secret_field_iff: "secret_field k \<longleftrightarrow> secret_key k"
  by (simp add: secret_field_def secret_key_def mentions_iff is_ascii_uppercase_def Let_def)

lemma location_field_iff: "location_field k \<longleftrightarrow> path_key k"
  by (simp add: location_field_def path_key_def mentions_iff is_ascii_uppercase_def Let_def)

lemma name_from_end_component:
  assumes "CHR ''/'' \<notin> set f" "r = [] \<or> hd r = CHR ''/''"
  shows "name_from_end (rev f @ r) = (if f = [] \<or> f = ''.'' then name_from_end r else rev f)"
proof (cases f rule: rev_cases)
  case (snoc f' c)
  have "takeWhile (\<lambda>x. x \<noteq> CHR ''/'') r = []"
    using assms(2) by (cases r) auto
  moreover have "takeWhile (\<lambda>x. x \<noteq> CHR ''/'') (rev g @ r) = rev g @ takeWhile (\<lambda>x. x \<noteq> CHR ''/'') r"
    if "CHR ''/'' \<notin> set g" for g
    using that by (intro takeWhile_append2) auto
  ultimately show ?thesis
    using snoc assms by (cases f' rule: rev_cases) auto
qed simp

lemma shown_name_component:
  assumes "CHR ''/'' \<notin> set f"
  shows "shown_name (a @ CHR ''/'' # f)
    = (if f = [] \<or> f = ''.'' then shown_name a else if f = ''..'' then ''<path>'' else f)"
    and "shown_name f = (if f \<in> {[], ''.'', ''..''} then ''<path>'' else f)"
  using name_from_end_component [OF assms, of "CHR ''/'' # rev a"] name_from_end_component [OF assms, of "[]"]
  by (auto simp: shown_name_def)

lemma file_name_shows: "(case file_name p of None \<Rightarrow> ''<path>'' | Some f \<Rightarrow> f) = shown_name p"
proof (induction p rule: length_induct)
  case (1 p)
  show ?case
  proof (cases "CHR ''/'' \<in> set p")
    case True
    then obtain a f where p: "p = a @ CHR ''/'' # f" "CHR ''/'' \<notin> set f"
      using split_list_last by metis
    moreover have "(case file_name a of None \<Rightarrow> ''<path>'' | Some f \<Rightarrow> f) = shown_name a"
      using 1 p by simp
    ultimately show ?thesis
      by (auto simp: file_name_def split_last_part shown_name_component Let_def split: if_splits)
  next
    case False
    then show ?thesis
      by (auto simp: file_name_def split_char_no_sep shown_name_component Let_def)
  qed
qed

lemma redacted_path_shows: "redacted_path p = ''<redacted>/'' @ shown_name p"
  using file_name_shows [of p] by (auto simp: redacted_path_def split: option.splits)

lemma redact_value_scalar [simp]:
  "redact_value v = JNull \<longleftrightarrow> v = JNull" "JNull = redact_value v \<longleftrightarrow> v = JNull"
  "redact_value v = JBool b \<longleftrightarrow> v = JBool b" "JBool b = redact_value v \<longleftrightarrow> v = JBool b"
  "redact_value v = JNum n \<longleftrightarrow> v = JNum n" "JNum n = redact_value v \<longleftrightarrow> v = JNum n"
  "redact_value v = JStr s \<longleftrightarrow> v = JStr s" "JStr s = redact_value v \<longleftrightarrow> v = JStr s"
  by (cases v; auto)+

lemma redact_pathish_scalar [simp]:
  "redact_pathish v = JNull \<longleftrightarrow> v = JNull" "JNull = redact_pathish v \<longleftrightarrow> v = JNull"
  "redact_pathish v = JBool b \<longleftrightarrow> v = JBool b" "JBool b = redact_pathish v \<longleftrightarrow> v = JBool b"
  "redact_pathish v = JNum n \<longleftrightarrow> v = JNum n" "JNum n = redact_pathish v \<longleftrightarrow> v = JNum n"
  by (cases v; auto)+

lemma redact_shapes [simp]:
  "redact_entries kvs = [] \<longleftrightarrow> kvs = []" "[] = redact_entries kvs \<longleftrightarrow> kvs = []"
  "redact_values vs = [] \<longleftrightarrow> vs = []" "[] = redact_values vs \<longleftrightarrow> vs = []"
  "redact_pathishes vs = [] \<longleftrightarrow> vs = []" "[] = redact_pathishes vs \<longleftrightarrow> vs = []"
  by (cases kvs; cases vs; auto)+

lemma redact_alike:
  "json_wf v \<Longrightarrow> json_wf w \<Longrightarrow> redact_value v = redact_value w \<longleftrightarrow> alike_value v w"
  "json_wf_fields a \<Longrightarrow> json_wf_fields b \<Longrightarrow> redact_entries a = redact_entries b \<longleftrightarrow> alike_entries a b"
  "json_wf_list vs \<Longrightarrow> json_wf_list ws \<Longrightarrow> redact_values vs = redact_values ws \<longleftrightarrow> alike_values vs ws"
  "json_wf v' \<Longrightarrow> json_wf w' \<Longrightarrow> redact_pathish v' = redact_pathish w' \<longleftrightarrow> alike_path v' w'"
  "json_wf_list vs' \<Longrightarrow> json_wf_list ws' \<Longrightarrow> redact_pathishes vs' = redact_pathishes ws' \<longleftrightarrow> alike_paths vs' ws'"
  by (induction v w and a b and vs ws and v' w' and vs' ws'
      rule: alike_value_alike_entries_alike_values_alike_path_alike_paths.induct)
    (auto simp: redact_object_eq secret_field_iff location_field_iff redacted_path_shows)

fun json_all :: "(string \<Rightarrow> json \<Rightarrow> bool) \<Rightarrow> json \<Rightarrow> bool"
  and json_all_fields :: "(string \<Rightarrow> json \<Rightarrow> bool) \<Rightarrow> (string \<times> json) list \<Rightarrow> bool"
  and json_all_list :: "(string \<Rightarrow> json \<Rightarrow> bool) \<Rightarrow> json list \<Rightarrow> bool" where
  "json_all P (JObj fields) = json_all_fields P fields"
| "json_all P (JArr vs) = json_all_list P vs"
| "json_all P _ = True"
| "json_all_fields P [] = True"
| "json_all_fields P ((k, v) # fields) = (P k v \<and> json_all P v \<and> json_all_fields P fields)"
| "json_all_list P [] = True"
| "json_all_list P (v # vs) = (json_all P v \<and> json_all_list P vs)"

text \<open>No secret field, at any depth, has a value other than the placeholder.\<close>

definition secrets_hidden :: "json \<Rightarrow> bool" where
  "secrets_hidden = json_all (\<lambda>k v. secret_key k \<longrightarrow> v = JStr ''<redacted>'')"

lemma json_all_insert: "P k v \<Longrightarrow> json_all P v \<Longrightarrow> json_all_fields P m \<Longrightarrow> json_all_fields P (om_insert k v m)"
  by (induction k v m rule: om_insert.induct) auto

lemma json_all_from_list: "json_all_fields P kvs \<Longrightarrow> json_all_fields P (om_from_list kvs)"
proof -
  have "json_all_fields P kvs \<Longrightarrow> json_all_fields P m \<Longrightarrow>
      json_all_fields P (fold (\<lambda>(k, v). om_insert k v) kvs m)" for m
    by (induction kvs arbitrary: m) (auto simp: json_all_insert)
  then show "json_all_fields P kvs \<Longrightarrow> json_all_fields P (om_from_list kvs)"
    by (simp add: om_from_list_def)
qed

lemma redact_hides:
  fixes P defines "P \<equiv> \<lambda>k v. secret_key k \<longrightarrow> v = JStr ''<redacted>''"
  shows "json_all P (redact_value v)" "json_all_fields P (redact_entries kvs)" "json_all_list P (redact_values vs)"
    "json_all P (redact_pathish v')" "json_all_list P (redact_pathishes vs')"
proof (induction v and kvs and vs and v' and vs'
    rule: redact_value_redact_entries_redact_values_redact_pathish_redact_pathishes.induct)
  case (1 v)
  then show ?case
    by (cases v) (auto simp: redact_object_def intro!: json_all_from_list)
next
  case (6 v)
  then show ?case
    by (cases v) auto
qed (auto simp: P_def)

lemma redact_idem:
  "json_wf v \<Longrightarrow> redact_value (redact_value v) = redact_value v"
  "json_wf_fields kvs \<Longrightarrow> redact_entries (redact_entries kvs) = redact_entries kvs"
  "json_wf_list vs \<Longrightarrow> redact_values (redact_values vs) = redact_values vs"
  "json_wf v' \<Longrightarrow> redact_pathish (redact_pathish v') = redact_pathish v'"
  "json_wf_list vs' \<Longrightarrow> redact_pathishes (redact_pathishes vs') = redact_pathishes vs'"
proof (induction v and kvs and vs and v' and vs'
    rule: redact_value_redact_entries_redact_values_redact_pathish_redact_pathishes.induct)
  case (1 v)
  then show ?case
    by (cases v) (auto simp: redact_object_eq om_inv_def)
next
  case (6 v)
  then show ?case
    by (cases v) (auto simp: redacted_path_idem)
qed auto

section \<open>Properties\<close>

text \<open>
  C10. Redaction reveals exactly the public part of a report: two reports have the same redacted form if
  and only if they agree on everything except the values of fields whose key mentions, in any case, the words
  token, password, passphrase, secret or credential, and the directories of the paths in fields whose key
  mentions identity or known\_hosts, of which only the base name stays.  In particular no secret value
  influences what is published.  Paths are read as on Unix.
\<close>

theorem redaction_reveals_exactly_the_public_part:
  assumes "json_wf v" "json_wf w"
  shows "redact_value v = redact_value w \<longleftrightarrow> alike_value v w"
  using redact_alike(1) [OF assms] .

theorem redaction_reveals_exactly_the_public_part_witness:
  "redact_value (JObj [(''identity'', JStr ''/home/a/id''), (''remote_token'', JStr ''one'')]) =
    redact_value (JObj [(''identity'', JStr ''/root/id''), (''remote_token'', JStr ''two'')])"
proof -
  let ?v = "\<lambda>d t. JObj [(''identity'', JStr d), (''remote_token'', JStr t)]"
  have wf: "json_wf (?v d t)" for d t
    by (simp add: om_inv_def)
  have "alike_value (?v ''/home/a/id'' ''one'') (?v ''/root/id'' ''two'')"
    by code_simp
  then show ?thesis
    using redaction_reveals_exactly_the_public_part [OF wf wf] by blast
qed

text \<open>
  No secret survives: at every depth of a redacted value, each field with a secret key holds the
  placeholder.
\<close>

theorem redaction_hides_secrets: "secrets_hidden (redact_value v)"
  unfolding secrets_hidden_def by (rule redact_hides(1))

text \<open>Redacting a redacted value changes nothing, base names of paths included.\<close>

theorem redaction_idempotent:
  assumes "json_wf v"
  shows "redact_value (redact_value v) = redact_value v"
  using redact_idem(1) [OF assms] .

theorem redaction_idempotent_witness:
  "redact_value (redact_value (JObj [(''known_hosts'', JArr [JStr ''a/..''])])) =
    redact_value (JObj [(''known_hosts'', JArr [JStr ''a/..''])])"
  by (rule redaction_idempotent) (simp add: om_inv_def)

end
