(* ===== verification/Core_Model.thy ===== *)
theory Core_Model
  imports Json
begin

text \<open>
  The shared vocabulary of the daemon (\<^verbatim>\<open>ssh-proxy-core/src/model.rs\<close>, \<^verbatim>\<open>external.rs\<close>): TCP targets and the
  mode enumerations with their textual forms, and the reports of external actions.  Each type with a
  textual form is an instance of the contract \<^verbatim>\<open>textual\<close>.
\<close>

section \<open>TCP targets\<close>

record TcpTarget =
  tt_host :: string
  tt_port :: u16

datatype target_error = ExpectedBracketPort | ExpectedHostPort | EmptyHost | InvalidTargetPort string

definition tcp_target_show :: "TcpTarget \<Rightarrow> string" where
  "tcp_target_show t = tt_host t @ '':'' @ show_nat (unat (tt_port t))"

definition tcp_target_from_str :: "string \<Rightarrow> (target_error, TcpTarget) result" where
  "tcp_target_from_str value =
    (case strip_prefix value ''['' of
       Some rest \<Rightarrow>
         (case split_once rest '']:'' of
            None \<Rightarrow> Inl ExpectedBracketPort
          | Some (host, tail) \<Rightarrow>
              and_then (ok_or (InvalidTargetPort tail) (parse_u16 tail)) (\<lambda>port.
                Inr \<lparr>tt_host = host, tt_port = port\<rparr>))
     | None \<Rightarrow>
         (case rsplit_once_char value CHR '':'' of
            None \<Rightarrow> Inl ExpectedHostPort
          | Some (host, port) \<Rightarrow>
              if host = [] then Inl EmptyHost
              else and_then (ok_or (InvalidTargetPort port) (parse_u16 port)) (\<lambda>port.
                Inr \<lparr>tt_host = host, tt_port = port\<rparr>)))"

section \<open>Modes\<close>

datatype RemotePlatform = Auto | Unix | Windows
datatype TransportMode = Auto | SshNative | QuicNative | Quic | TlsTcp | PlainTcp | Exec | Tcp
datatype PersistenceMode = NoPersistence | Auto | Systemd | Nohup | Launchd | Schtasks
datatype RouteDirection = LocalUsesRemote | RemoteUsesLocal
datatype RouteConnectMode = Auto | Direct | ReverseLink
datatype WorkloadHint = Large | Concurrent | Mixed

fun remote_platform_show :: "RemotePlatform \<Rightarrow> string" where
  "remote_platform_show RemotePlatform.Auto = ''auto''"
| "remote_platform_show Unix = ''unix''"
| "remote_platform_show Windows = ''windows''"

fun transport_mode_show :: "TransportMode \<Rightarrow> string" where
  "transport_mode_show TransportMode.Auto = ''auto''"
| "transport_mode_show SshNative = ''ssh-native''"
| "transport_mode_show QuicNative = ''quic-native''"
| "transport_mode_show Quic = ''quic''"
| "transport_mode_show TlsTcp = ''tls-tcp''"
| "transport_mode_show PlainTcp = ''plain-tcp''"
| "transport_mode_show Exec = ''exec''"
| "transport_mode_show Tcp = ''tcp''"

fun persistence_mode_show :: "PersistenceMode \<Rightarrow> string" where
  "persistence_mode_show NoPersistence = ''none''"
| "persistence_mode_show PersistenceMode.Auto = ''auto''"
| "persistence_mode_show Systemd = ''systemd''"
| "persistence_mode_show Nohup = ''nohup''"
| "persistence_mode_show Launchd = ''launchd''"
| "persistence_mode_show Schtasks = ''schtasks''"

fun route_direction_show :: "RouteDirection \<Rightarrow> string" where
  "route_direction_show LocalUsesRemote = ''local-uses-remote''"
| "route_direction_show RemoteUsesLocal = ''remote-uses-local''"

fun route_connect_mode_show :: "RouteConnectMode \<Rightarrow> string" where
  "route_connect_mode_show RouteConnectMode.Auto = ''auto''"
| "route_connect_mode_show Direct = ''direct''"
| "route_connect_mode_show ReverseLink = ''reverse-link''"

fun workload_hint_show :: "WorkloadHint \<Rightarrow> string" where
  "workload_hint_show Large = ''large''"
| "workload_hint_show Concurrent = ''concurrent''"
| "workload_hint_show Mixed = ''mixed''"

text \<open>\<open>normalize\<close> maps snake case and camel case to kebab case; \<open>first\<close> marks the first character.\<close>

fun normalize_chars :: "bool \<Rightarrow> string \<Rightarrow> string" where
  "normalize_chars first [] = []"
| "normalize_chars first (c # s) =
    (if c = CHR ''_'' then [CHR ''-'']
     else if is_ascii_uppercase c then (if first then [] else [CHR ''-'']) @ [char_to_lower c]
     else [char_to_lower c]) @ normalize_chars False s"

definition normalize :: "string \<Rightarrow> string" where
  "normalize value = normalize_chars True value"

definition remote_platform_from_str :: "string \<Rightarrow> RemotePlatform option" where
  "remote_platform_from_str value =
    (let v = normalize value in
     if v = ''auto'' then Some RemotePlatform.Auto
     else if v \<in> set [''unix'', ''linux'', ''macos''] then Some Unix
     else if v = ''windows'' then Some Windows
     else None)"

definition transport_mode_from_str :: "string \<Rightarrow> TransportMode option" where
  "transport_mode_from_str value =
    (let v = normalize value in
     if v = ''auto'' then Some TransportMode.Auto
     else if v = ''ssh-native'' then Some SshNative
     else if v \<in> set [''quic-native'', ''native-quic''] then Some QuicNative
     else if v = ''quic'' then Some Quic
     else if v \<in> set [''tls-tcp'', ''tls''] then Some TlsTcp
     else if v \<in> set [''plain-tcp'', ''direct-tcp''] then Some PlainTcp
     else if v = ''exec'' then Some Exec
     else if v = ''tcp'' then Some Tcp
     else None)"

definition persistence_mode_from_str :: "string \<Rightarrow> PersistenceMode option" where
  "persistence_mode_from_str value =
    (let v = normalize value in
     if v = ''none'' then Some NoPersistence
     else if v = ''auto'' then Some PersistenceMode.Auto
     else if v = ''systemd'' then Some Systemd
     else if v = ''nohup'' then Some Nohup
     else if v = ''launchd'' then Some Launchd
     else if v = ''schtasks'' then Some Schtasks
     else None)"

definition route_direction_from_str :: "string \<Rightarrow> RouteDirection option" where
  "route_direction_from_str value =
    (let v = normalize value in
     if v = ''local-uses-remote'' then Some LocalUsesRemote
     else if v = ''remote-uses-local'' then Some RemoteUsesLocal
     else None)"

definition route_connect_mode_from_str :: "string \<Rightarrow> RouteConnectMode option" where
  "route_connect_mode_from_str value =
    (let v = normalize value in
     if v = ''auto'' then Some RouteConnectMode.Auto
     else if v = ''direct'' then Some Direct
     else if v = ''reverse-link'' then Some ReverseLink
     else None)"

definition workload_hint_from_str :: "string \<Rightarrow> WorkloadHint option" where
  "workload_hint_from_str value =
    (let v = normalize value in
     if v = ''large'' then Some Large
     else if v = ''concurrent'' then Some Concurrent
     else if v = ''mixed'' then Some Mixed
     else None)"

section \<open>External actions\<close>

datatype ExternalActionClass = RequiredProvider | FallbackProvider | DiagnosticOnly | SelfUpdate | EmergencyCompat

fun external_action_as_str :: "ExternalActionClass \<Rightarrow> string" where
  "external_action_as_str RequiredProvider = ''required_provider''"
| "external_action_as_str FallbackProvider = ''fallback_provider''"
| "external_action_as_str DiagnosticOnly = ''diagnostic_only''"
| "external_action_as_str SelfUpdate = ''self_update''"
| "external_action_as_str EmergencyCompat = ''emergency_compat''"

definition external_action_from_str :: "string \<Rightarrow> (string, ExternalActionClass) result" where
  "external_action_from_str value =
    (if value = ''required_provider'' then Inr RequiredProvider
     else if value = ''fallback_provider'' then Inr FallbackProvider
     else if value = ''diagnostic_only'' then Inr DiagnosticOnly
     else if value = ''self_update'' then Inr SelfUpdate
     else if value = ''emergency_compat'' then Inr EmergencyCompat
     else Inl (''unknown external action class `'' @ value @ ''`''))"

record ExternalActionReport =
  ea_class :: ExternalActionClass
  ea_execution_backend :: string
  ea_fallback_used :: bool
  ea_reason :: "string option"
  ea_repair_action :: "string option"

definition external_action_report_new :: "ExternalActionClass \<Rightarrow> string \<Rightarrow> bool \<Rightarrow> ExternalActionReport" where
  "external_action_report_new c backend fallback =
    \<lparr>ea_class = c, ea_execution_backend = backend, ea_fallback_used = fallback,
     ea_reason = None, ea_repair_action = None\<rparr>"

definition required_provider :: "string \<Rightarrow> ExternalActionReport" where
  "required_provider backend = external_action_report_new RequiredProvider backend False"

definition fallback_provider :: "string \<Rightarrow> ExternalActionReport" where
  "fallback_provider backend = external_action_report_new FallbackProvider backend True"

definition ea_with_reason :: "string \<Rightarrow> ExternalActionReport \<Rightarrow> ExternalActionReport" where
  "ea_with_reason reason r = r\<lparr>ea_reason := Some reason\<rparr>"

definition ea_with_repair_action :: "string \<Rightarrow> ExternalActionReport \<Rightarrow> ExternalActionReport" where
  "ea_with_repair_action action r = r\<lparr>ea_repair_action := Some action\<rparr>"

definition external_action_report_json :: "ExternalActionReport \<Rightarrow> json" where
  "external_action_report_json r =
    json_obj ([(''class'', JStr (external_action_as_str (ea_class r))),
      (''execution_backend'', JStr (ea_execution_backend r)),
      (''fallback_used'', JBool (ea_fallback_used r))]
      @ skip_none ''reason'' JStr (ea_reason r) @ skip_none ''repair_action'' JStr (ea_repair_action r))"

section \<open>Textual forms\<close>

interpretation remote_platform_text: textual remote_platform_show remote_platform_from_str
  by unfold_locales (case_tac x; hypsubst; code_simp)

interpretation transport_mode_text: textual transport_mode_show transport_mode_from_str
  by unfold_locales (case_tac x; hypsubst; code_simp)

interpretation persistence_mode_text: textual persistence_mode_show persistence_mode_from_str
  by unfold_locales (case_tac x; hypsubst; code_simp)

interpretation route_direction_text: textual route_direction_show route_direction_from_str
  by unfold_locales (case_tac x; hypsubst; code_simp)

interpretation route_connect_mode_text: textual route_connect_mode_show route_connect_mode_from_str
  by unfold_locales (case_tac x; hypsubst; code_simp)

interpretation workload_hint_text: textual workload_hint_show workload_hint_from_str
  by unfold_locales (case_tac x; hypsubst; code_simp)

lemma external_action_round_trip [simp]: "external_action_from_str (external_action_as_str c) = Inr c"
  by (cases c) (simp_all add: external_action_from_str_def)

interpretation external_action_text: textual external_action_as_str
  "\<lambda>s. case external_action_from_str s of Inl _ \<Rightarrow> None | Inr c \<Rightarrow> Some c"
  by unfold_locales simp

lemma tcp_target_show_parse:
  assumes "tt_host t \<noteq> []" "\<not> starts_with (tt_host t) ''[''"
  shows "tcp_target_from_str (tcp_target_show t) = Inr t"
proof -
  have "\<not> starts_with (tcp_target_show t) ''[''"
    using assms by (cases "tt_host t") (auto simp: tcp_target_show_def starts_with_def)
  moreover have "CHR '':'' \<notin> set (show_nat (unat (tt_port t)))"
    by (rule show_nat_no_char) simp
  then have "rsplit_once_char (tcp_target_show t) CHR '':'' = Some (tt_host t, show_nat (unat (tt_port t)))"
    by (simp add: tcp_target_show_def rsplit_once_char_append)
  ultimately show ?thesis
    using assms by (simp add: tcp_target_from_str_def strip_prefix_def)
qed

lemma split_once_Some: "split_once s p = Some (a, b) \<Longrightarrow> s = a @ p @ b"
  by (induction s p arbitrary: a b rule: split_once.induct)
    (auto simp: starts_with_iff split: if_splits)

lemma tcp_target_bracket_no_parse:
  assumes "starts_with (tt_host t) ''[''"
  shows "tcp_target_from_str (tcp_target_show t) \<noteq> Inr t"
proof
  assume ok: "tcp_target_from_str (tcp_target_show t) = Inr t"
  obtain h where h: "tt_host t = CHR ''['' # h"
    using assms by (auto simp: starts_with_iff)
  let ?port = "show_nat (unat (tt_port t))"
  obtain host tail port where tail: "split_once (h @ '':'' @ ?port) '']:'' = Some (host, tail)"
      and t: "t = \<lparr>tt_host = host, tt_port = port\<rparr>"
    using ok by (auto simp: tcp_target_from_str_def tcp_target_show_def h strip_prefix_def starts_with_def
        result_simps split: option.splits)
  have "host = CHR ''['' # h"
    using h t by simp
  then have eq: "h @ CHR '':'' # ?port = CHR ''['' # h @ '']:'' @ tail"
    using split_once_Some [OF tail] by simp
  then have "drop (Suc (length h)) (h @ CHR '':'' # ?port) = '']:'' @ tail"
    by simp
  then have "CHR '']'' \<in> set ?port"
    by simp
  moreover have "CHR '']'' \<notin> set ?port"
    by (rule show_nat_no_char) simp
  ultimately show False
    by blast
qed

section \<open>Properties\<close>

text \<open>
  A TCP target is printed and parsed back if and only if its host is non-empty and does not start
  with an opening bracket; for every other host the printed form is rejected or parsed to another
  target.
\<close>

theorem tcp_target_round_trip_iff:
  "tcp_target_from_str (tcp_target_show t) = Inr t \<longleftrightarrow> tt_host t \<noteq> [] \<and> \<not> starts_with (tt_host t) ''[''"
proof (cases "tt_host t = []")
  case True
  then have "rsplit_once_char (tcp_target_show t) CHR '':'' = Some ([], show_nat (unat (tt_port t)))"
    using rsplit_once_char_append [of "CHR '':''" "show_nat (unat (tt_port t))" "[]"] show_nat_no_char [of "CHR '':''"]
    by (simp add: tcp_target_show_def)
  with True show ?thesis
    by (simp add: tcp_target_from_str_def tcp_target_show_def strip_prefix_def starts_with_def)
next
  case False
  then show ?thesis
    using tcp_target_show_parse [of t] tcp_target_bracket_no_parse [of t] by auto
qed

text \<open>
  Every mode of the command line and of stored routes is parsed back from its printed form, so a
  stored route is restored with the modes it was saved with.
\<close>

theorem modes_round_trip:
  "remote_platform_from_str (remote_platform_show p) = Some p
    \<and> transport_mode_from_str (transport_mode_show t) = Some t
    \<and> persistence_mode_from_str (persistence_mode_show m) = Some m
    \<and> route_direction_from_str (route_direction_show d) = Some d
    \<and> route_connect_mode_from_str (route_connect_mode_show c) = Some c
    \<and> workload_hint_from_str (workload_hint_show h) = Some h"
  by (simp add: remote_platform_text.parse_show transport_mode_text.parse_show persistence_mode_text.parse_show
      route_direction_text.parse_show route_connect_mode_text.parse_show workload_hint_text.parse_show)

end
