(* ===== verification/Repair.thy ===== *)
theory Repair
  imports Json
begin

text \<open>
  Repair actions and status reports (\<^verbatim>\<open>ssh-proxy-core/src/repair.rs\<close>, \<^verbatim>\<open>report.rs\<close>): the action offered for
  each blocker the daemon can report, and the reports that carry it.
\<close>

record RepairAction =
  ra_id :: string
  ra_label :: string
  ra_kind :: string
  ra_command :: "string option"
  ra_interactive :: bool
  ra_requires_elevation :: bool
  ra_retry_after_ms :: "u64 option"
  ra_message :: "string option"

definition repair_action_new :: "string \<Rightarrow> string \<Rightarrow> string \<Rightarrow> RepairAction" where
  "repair_action_new i label kind =
    \<lparr>ra_id = i, ra_label = label, ra_kind = kind, ra_command = None, ra_interactive = False,
     ra_requires_elevation = False, ra_retry_after_ms = None, ra_message = None\<rparr>"

definition with_command :: "string \<Rightarrow> RepairAction \<Rightarrow> RepairAction" where
  "with_command c a = a\<lparr>ra_command := Some c\<rparr>"

definition with_interactive :: "bool \<Rightarrow> RepairAction \<Rightarrow> RepairAction" where
  "with_interactive elevation a = a\<lparr>ra_interactive := True, ra_requires_elevation := elevation\<rparr>"

definition with_retry :: "u64 \<Rightarrow> RepairAction \<Rightarrow> RepairAction" where
  "with_retry ms a = a\<lparr>ra_retry_after_ms := Some ms\<rparr>"

definition with_message :: "string \<Rightarrow> RepairAction \<Rightarrow> RepairAction" where
  "with_message m a = a\<lparr>ra_message := Some m\<rparr>"

definition elevated_install :: string where
  "elevated_install = ''ssh_proxy daemon install --scope system --elevate''"

definition action_for_blocker :: "string \<Rightarrow> RepairAction option" where
  "action_for_blocker blocker =
    (if blocker = ''daemon_unavailable'' then Some
       (with_message ''Install or start the system daemon, then retry the proxy session.''
       (with_retry 1000 (with_interactive True (with_command elevated_install
         (repair_action_new ''install_daemon'' ''Install ssh_proxy daemon'' ''daemon_install'')))))
     else if blocker = ''daemon_pipe_access_denied'' then Some
       (with_message ''Reinstall the daemon to repair the private control endpoint ACL.''
       (with_retry 1000 (with_interactive True (with_command elevated_install
         (repair_action_new ''repair_daemon_acl'' ''Repair daemon permissions'' ''daemon_reinstall'')))))
     else if blocker \<in> set [''node_control_token_required'', ''invalid_node_control_token''] then Some
       (with_message ''The running daemon is using stale token-based control; reinstall to migrate it.''
       (with_interactive True (with_command elevated_install
         (repair_action_new ''reinstall_stale_daemon'' ''Repair stale daemon configuration'' ''daemon_reinstall''))))
     else if blocker = ''requires_elevation'' then Some
       (with_message ''This action needs an interactive elevation prompt.''
       (with_interactive True (with_command elevated_install
         (repair_action_new ''run_elevated_install'' ''Run elevated install'' ''daemon_install''))))
     else if blocker = ''cancelled_by_user'' then Some
       (with_message ''The elevated install was cancelled before the daemon could be repaired.''
       (with_interactive True (with_command elevated_install
         (repair_action_new ''retry_daemon_install'' ''Retry daemon install'' ''daemon_install''))))
     else if blocker = ''route_already_running_different_spec'' then Some
       (with_message ''Stop or adopt the existing daemon-owned route, then retry.''
       (with_command ''ssh_proxy down --target <target> --json''
         (repair_action_new ''restart_conflicting_route'' ''Restart conflicting route'' ''route_repair'')))
     else if blocker \<in> set [''handoff_timeout'', ''remote_port_refused'', ''remote_port_not_ready''] then Some
       (with_message ''The daemon will retry once; collect a report if the remote port stays unavailable.''
       (with_retry 1000 (with_command ''ssh_proxy doctor --json --report''
         (repair_action_new ''retry_remote_handoff'' ''Retry remote handoff'' ''proxy_session_retry''))))
     else if blocker = ''ssh_auth_failed'' then Some
       (with_message ''Make the same identity available to the Windows OpenSSH agent/Pageant or use an unencrypted identity file.''
       (with_command ''ssh-add <identity-file>''
         (repair_action_new ''repair_ssh_auth'' ''Repair SSH authentication'' ''ssh_auth'')))
     else if blocker = ''ssh_config_unsupported'' then Some
       (with_message ''The Rust SSH path found an unsupported OpenSSH directive; external SSH must be explicitly allowed.''
         (repair_action_new ''use_emergency_external_ssh'' ''Use explicit external SSH compatibility'' ''emergency_compat''))
     else if blocker = ''remote_setup_failed'' then Some
       (with_message ''Rerun daemon-owned remote setup after checking the report.''
       (with_command ''ssh_proxy vscode apply-settings --json''
         (repair_action_new ''rerun_apply_settings'' ''Apply remote settings again'' ''remote_setup'')))
     else if blocker = ''remote_peer_install_failed'' then Some
       (with_message ''Collect a daemon report, then retry the daemon-owned remote peer install.''
       (with_retry 1000 (with_command ''ssh_proxy doctor --json --report --target <target>''
         (repair_action_new ''repair_remote_peer'' ''Repair remote peer'' ''remote_peer_repair''))))
     else None)"

definition json_u64 :: "u64 \<Rightarrow> json" where
  "json_u64 w = JNum (int (unat w))"

definition repair_action_json :: "RepairAction \<Rightarrow> json" where
  "repair_action_json a =
    json_obj ([(''id'', JStr (ra_id a)), (''label'', JStr (ra_label a)), (''kind'', JStr (ra_kind a))]
      @ skip_none ''command'' JStr (ra_command a)
      @ [(''interactive'', JBool (ra_interactive a)), (''requires_elevation'', JBool (ra_requires_elevation a))]
      @ skip_none ''retry_after_ms'' json_u64 (ra_retry_after_ms a)
      @ skip_none ''message'' JStr (ra_message a))"

definition action_value_for_blocker :: "string \<Rightarrow> json" where
  "action_value_for_blocker blocker = json_opt repair_action_json (action_for_blocker blocker)"

definition attach_repair_action :: "(string \<times> json) list \<Rightarrow> string \<Rightarrow> (string \<times> json) list" where
  "attach_repair_action object blocker =
    (case action_for_blocker blocker of
       None \<Rightarrow> object
     | Some a \<Rightarrow> om_insert ''repair_action'' (repair_action_json a) object)"

section \<open>Reports\<close>

datatype HealthStatus = Unknown | Starting | WaitingRetry | Healthy | Degraded | Failed | Cancelled
datatype DependencyClassification = Required | Optional | DiagnosticOnly | EmergencyCompat

record RepairActionRef =
  rr_id :: string
  rr_kind :: string
  rr_command :: "string option"
  rr_interactive :: bool
  rr_requires_elevation :: bool
  rr_retry_after_ms :: "u64 option"

definition repair_action_ref :: "RepairAction \<Rightarrow> RepairActionRef" where
  "repair_action_ref a =
    \<lparr>rr_id = ra_id a, rr_kind = ra_kind a, rr_command = ra_command a, rr_interactive = ra_interactive a,
     rr_requires_elevation = ra_requires_elevation a, rr_retry_after_ms = ra_retry_after_ms a\<rparr>"

record DependencyStatusReport =
  ds_name :: string
  ds_classification :: DependencyClassification
  ds_state :: HealthStatus
  ds_message :: "string option"
  ds_blocker :: "string option"
  ds_repair_action :: "RepairActionRef option"

definition dependency_required :: "string \<Rightarrow> HealthStatus \<Rightarrow> DependencyStatusReport" where
  "dependency_required name state =
    \<lparr>ds_name = name, ds_classification = Required, ds_state = state, ds_message = None,
     ds_blocker = None, ds_repair_action = None\<rparr>"

definition dependency_with_message :: "string \<Rightarrow> DependencyStatusReport \<Rightarrow> DependencyStatusReport" where
  "dependency_with_message msg r = r\<lparr>ds_message := Some msg\<rparr>"

definition dependency_with_blocker :: "string \<Rightarrow> DependencyStatusReport \<Rightarrow> DependencyStatusReport" where
  "dependency_with_blocker blocker r =
    r\<lparr>ds_repair_action := map_option repair_action_ref (action_for_blocker blocker), ds_blocker := Some blocker\<rparr>"

record RuntimeDecisionReport =
  rd_selected_transport :: string
  rd_source :: string
  rd_reason :: string
  rd_requires_external_ssh :: bool
  rd_endpoint :: "string option"
  rd_details :: "json option"

definition runtime_decision_new :: "string \<Rightarrow> string \<Rightarrow> string \<Rightarrow> RuntimeDecisionReport" where
  "runtime_decision_new transport source reason =
    \<lparr>rd_selected_transport = transport, rd_source = source, rd_reason = reason,
     rd_requires_external_ssh = False, rd_endpoint = None, rd_details = None\<rparr>"

definition decision_requires_external_ssh :: "bool \<Rightarrow> RuntimeDecisionReport \<Rightarrow> RuntimeDecisionReport" where
  "decision_requires_external_ssh v r = r\<lparr>rd_requires_external_ssh := v\<rparr>"

definition decision_with_endpoint :: "string \<Rightarrow> RuntimeDecisionReport \<Rightarrow> RuntimeDecisionReport" where
  "decision_with_endpoint e r = r\<lparr>rd_endpoint := Some e\<rparr>"

definition decision_with_details :: "json \<Rightarrow> RuntimeDecisionReport \<Rightarrow> RuntimeDecisionReport" where
  "decision_with_details d r = r\<lparr>rd_details := Some d\<rparr>"

section \<open>Properties\<close>

lemmas action_builders = repair_action_new_def with_command_def with_interactive_def with_retry_def with_message_def

definition offered_safely :: "RepairAction \<Rightarrow> bool" where
  "offered_safely a \<longleftrightarrow> (ra_interactive a \<longleftrightarrow> ra_requires_elevation a)
    \<and> (ra_requires_elevation a \<longleftrightarrow> ra_command a = Some elevated_install)
    \<and> ra_message a \<noteq> None \<and> ra_retry_after_ms a \<in> {None, Some 1000}"

lemma offered_safely_if:
  "(if P then Some x else r) = Some a \<Longrightarrow> (r = Some a \<Longrightarrow> offered_safely a) \<Longrightarrow> offered_safely x \<Longrightarrow> offered_safely a"
  by (auto split: if_splits)

lemma action_shape: "action_for_blocker b = Some a \<Longrightarrow> offered_safely a"
  unfolding action_for_blocker_def
  by ((erule offered_safely_if)+)
    (simp_all add: offered_safely_def action_builders elevated_install_def)

text \<open>
  Safety of the offered repairs: an action prompts the user exactly when it needs elevation, it
  needs elevation exactly when its command is the elevated daemon installation, it always explains
  itself, and a retry delay is always one second.
\<close>

theorem repair_actions_prompt_for_elevation:
  assumes "action_for_blocker b = Some a"
  shows "(ra_interactive a \<longleftrightarrow> ra_requires_elevation a)
    \<and> (ra_requires_elevation a \<longleftrightarrow> ra_command a = Some elevated_install)
    \<and> ra_message a \<noteq> None \<and> ra_retry_after_ms a \<in> {None, Some 1000}"
  using action_shape [OF assms] by (simp add: offered_safely_def)

theorem repair_actions_prompt_for_elevation_witness:
  "\<exists>a. action_for_blocker ''requires_elevation'' = Some a \<and> ra_interactive a \<and> ra_requires_elevation a"
proof -
  obtain a where a: "action_for_blocker ''requires_elevation'' = Some a" "ra_interactive a"
    by (simp add: action_for_blocker_def action_builders)
  then show ?thesis
    using repair_actions_prompt_for_elevation [OF a(1)] by blast
qed

end
