(* ===== verification/Private_Files.thy ===== *)
theory Private_Files
  imports Rust_Strings
begin

text \<open>
  Private files (\<^verbatim>\<open>ssh-proxy-config/src/io.rs\<close>): every store of the daemon is written through
  \<open>save_text_file_private\<close>, which writes a sibling temporary file and renames it over the target.  The
  file system is a map from paths to contents and permission bits; the outcome of each system call is
  part of the environment of the call, so a fault after any of them, or a crash at that point, is covered.
\<close>

unbundle bit_operations_syntax

section \<open>Files\<close>

record fpath =
  parent :: string
  file_name :: string

record inode =
  content :: string
  mode :: u32

type_synonym fsys = "fpath \<rightharpoonup> inode"

definition mode_private :: u32 where
  "mode_private = 0x180"

definition mode_shared :: u32 where
  "mode_shared = 0x1A4"

text \<open>No permission bit for the group or for others.\<close>

definition owner_only :: "u32 \<Rightarrow> bool" where
  "owner_only m \<longleftrightarrow> m AND 0x3F = 0"

datatype save_error =
    CreateDirFailed
  | CreateTempFailed
  | WriteTempFailed
  | SyncTempFailed
  | RemoveFailed
  | RenameFailed
  | PermissionsFailed

text \<open>
  What the operating system answers during one save.  A failing write leaves a prefix of the text behind.
\<close>

record save_env =
  unix :: bool
  windows :: bool
  pid :: nat
  stamp :: nat
  umask :: u32
  mkdir_ok :: bool
  create_ok :: bool
  write_stops :: "nat option"
  sync_ok :: bool
  remove_ok :: bool
  rename_ok :: bool
  chmod_ok :: bool

section \<open>The operations\<close>

definition temp_save_path :: "save_env \<Rightarrow> fpath \<Rightarrow> fpath" where
  "temp_save_path env path =
    path\<lparr>file_name := ''.'' @ file_name path @ ''.'' @ show_nat (pid env) @ ''.'' @ show_nat (stamp env) @ ''.tmp''\<rparr>"

definition create_private_file :: "save_env \<Rightarrow> fpath \<Rightarrow> fsys \<Rightarrow> (save_error, fsys) result" where
  "create_private_file env path fs =
    (if \<not> create_ok env \<or> fs path \<noteq> None then Inl CreateTempFailed
     else Inr (fs(path \<mapsto>
       \<lparr>content = [], mode = (if unix env then mode_private else 0x1B6) AND NOT (umask env)\<rparr>)))"

definition write_text :: "save_env \<Rightarrow> fpath \<Rightarrow> string \<Rightarrow> fsys \<Rightarrow> fsys \<times> (save_error, unit) result" where
  "write_text env path body fs =
    (case fs path of
       None \<Rightarrow> (fs, Inl WriteTempFailed)
     | Some f \<Rightarrow>
         (case write_stops env of
            None \<Rightarrow> (fs(path \<mapsto> f\<lparr>content := content f @ body\<rparr>), Inr ())
          | Some n \<Rightarrow> (fs(path \<mapsto> f\<lparr>content := content f @ take n body\<rparr>), Inl WriteTempFailed)))"

definition set_file_private :: "save_env \<Rightarrow> fpath \<Rightarrow> bool \<Rightarrow> fsys \<Rightarrow> fsys \<times> (save_error, unit) result" where
  "set_file_private env path secret fs =
    (if \<not> unix env then (fs, Inr ())
     else (case fs path of
         None \<Rightarrow> (fs, Inl PermissionsFailed)
       | Some f \<Rightarrow>
           if chmod_ok env then (fs(path \<mapsto> f\<lparr>mode := if secret then mode_private else mode_shared\<rparr>), Inr ())
           else (fs, Inl PermissionsFailed)))"

definition rename_file :: "save_env \<Rightarrow> fpath \<Rightarrow> fpath \<Rightarrow> fsys \<Rightarrow> fsys \<times> (save_error, unit) result" where
  "rename_file env from_path to_path fs =
    (case fs from_path of
       None \<Rightarrow> (fs, Inl RenameFailed)
     | Some f \<Rightarrow>
         if rename_ok env then ((fs(from_path := None))(to_path \<mapsto> f), Inr ()) else (fs, Inl RenameFailed))"

definition replace_file :: "save_env \<Rightarrow> fpath \<Rightarrow> fpath \<Rightarrow> fsys \<Rightarrow> fsys \<times> (save_error, unit) result" where
  "replace_file env temp target fs =
    (let removed =
       (if windows env \<and> fs target \<noteq> None
        then (if remove_ok env then (fs(target := None), Inr ()) else (fs, Inl RemoveFailed))
        else (fs, Inr ()))
     in case removed of
          (fs1, Inl e) \<Rightarrow> (fs1, Inl e)
        | (fs1, Inr _) \<Rightarrow>
            (case rename_file env temp target fs1 of
               (fs2, Inl e) \<Rightarrow> (fs2, Inl e)
             | (fs2, Inr _) \<Rightarrow> set_file_private env target True fs2))"

definition save_text_file_private ::
  "save_env \<Rightarrow> fpath \<Rightarrow> string \<Rightarrow> fsys \<Rightarrow> fsys \<times> (save_error, unit) result" where
  "save_text_file_private env path body fs =
    (if \<not> mkdir_ok env then (fs, Inl CreateDirFailed)
     else let temp = temp_save_path env path in
       case create_private_file env temp fs of
         Inl e \<Rightarrow> (fs, Inl e)
       | Inr fs1 \<Rightarrow>
           (case write_text env temp body fs1 of
              (fs2, Inl e) \<Rightarrow> (fs2, Inl e)
            | (fs2, Inr _) \<Rightarrow>
                if \<not> sync_ok env then (fs2, Inl SyncTempFailed)
                else replace_file env temp path fs2))"

lemmas save_defs = save_text_file_private_def replace_file_def rename_file_def set_file_private_def
  write_text_def create_private_file_def

section \<open>Saves are atomic and private\<close>

lemma temp_save_path_neq: "temp_save_path env path \<noteq> path"
proof
  assume "temp_save_path env path = path"
  then have "length (file_name (temp_save_path env path)) = length (file_name path)" by simp
  then show False by (simp add: temp_save_path_def)
qed

lemma owner_only_private: "owner_only mode_private" "owner_only (mode_private AND NOT u)"
proof -
  have zero: "mode_private AND 0x3F = 0" by (simp add: mode_private_def)
  then show "owner_only mode_private" by (simp add: owner_only_def)
  have "(mode_private AND NOT u) AND 0x3F = (mode_private AND 0x3F) AND NOT u"
    by (simp add: ac_simps)
  then show "owner_only (mode_private AND NOT u)"
    by (simp add: owner_only_def zero)
qed

text \<open>
  The files a save can leave behind: the target as it was or with the whole text, and the temporary file.
\<close>

lemma save_elsewhere:
  "q \<noteq> path \<Longrightarrow> q \<noteq> temp_save_path env path \<Longrightarrow>
    fst (save_text_file_private env path body fs) q = fs q"
  by (auto simp: save_defs Let_def split: option.splits)

lemma save_target_unix:
  "\<not> windows env \<Longrightarrow> unix env \<Longrightarrow>
    fst (save_text_file_private env path body fs) path = fs path \<or>
    (\<exists>m. fst (save_text_file_private env path body fs) path = Some \<lparr>content = body, mode = m\<rparr> \<and> owner_only m)"
  using temp_save_path_neq [of env path]
  by (auto simp: save_defs Let_def owner_only_private split: option.splits)

lemma save_temp_private:
  "unix env \<Longrightarrow> fst (save_text_file_private env path body fs) (temp_save_path env path) = fs (temp_save_path env path) \<or>
    (\<forall>f. fst (save_text_file_private env path body fs) (temp_save_path env path) = Some f \<longrightarrow> owner_only (mode f))"
  using temp_save_path_neq [of env path]
  by (auto simp: save_defs Let_def owner_only_private split: option.splits)

lemma save_ok:
  "snd (save_text_file_private env path body fs) = Inr () \<Longrightarrow>
    (\<exists>m. fst (save_text_file_private env path body fs) path = Some \<lparr>content = body, mode = m\<rparr> \<and>
      (unix env \<longrightarrow> m = mode_private)) \<and>
    fst (save_text_file_private env path body fs) (temp_save_path env path) = None"
  using temp_save_path_neq [of env path]
  by (auto simp: save_defs Let_def split: option.splits if_splits)

text \<open>
  C25. A save on a Unix system is atomic and private: whatever system call fails (or wherever the process
  stops), the target holds either what it held before or the complete new text; every file the save
  touches is accessible to its owner only; other files are unchanged; and when the save succeeds the
  target holds the text with mode 0600 and the temporary file is gone.
\<close>

theorem private_save_atomic:
  assumes "unix env" and "\<not> windows env"
    and save: "save_text_file_private env path body fs = (fs', res)"
  shows "(fs' path = fs path \<or> (\<exists>m. fs' path = Some \<lparr>content = body, mode = m\<rparr>)) \<and>
    (\<forall>q f. fs' q = Some f \<and> fs' q \<noteq> fs q \<longrightarrow> owner_only (mode f)) \<and>
    (\<forall>q. q \<notin> {path, temp_save_path env path} \<longrightarrow> fs' q = fs q) \<and>
    (res = Inr () \<longrightarrow> fs' path = Some \<lparr>content = body, mode = mode_private\<rparr> \<and>
      fs' (temp_save_path env path) = None)"
proof (intro conjI allI impI)
  have fs': "fs' = fst (save_text_file_private env path body fs)" by (simp add: save)
  note target = save_target_unix [OF assms(2,1), of path body fs, folded fs']
  note temp = save_temp_private [OF assms(1), of path body fs, folded fs']
  show "fs' path = fs path \<or> (\<exists>m. fs' path = Some \<lparr>content = body, mode = m\<rparr>)"
    using target by blast
  show elsewhere: "fs' q = fs q" if "q \<notin> {path, temp_save_path env path}" for q
    using that save_elsewhere [of q path env body fs] by (simp add: fs')
  show "owner_only (mode f)" if "fs' q = Some f \<and> fs' q \<noteq> fs q" for q f
  proof (cases "q \<in> {path, temp_save_path env path}")
    case True
    then show ?thesis using that target temp by fastforce
  qed (use that elsewhere in auto)
  assume "res = Inr ()"
  then show "fs' path = Some \<lparr>content = body, mode = mode_private\<rparr>" "fs' (temp_save_path env path) = None"
    using save_ok [of env path body fs] assms(1) by (auto simp: save)
qed

definition sample_env :: save_env where
  "sample_env = \<lparr>unix = True, windows = False, pid = 7, stamp = 9, umask = 0x12, mkdir_ok = True,
    create_ok = True, write_stops = None, sync_ok = True, remove_ok = True, rename_ok = True, chmod_ok = True\<rparr>"

definition sample_path :: fpath where
  "sample_path = \<lparr>parent = ''/var/lib/ssh_proxy'', file_name = ''jobs.json''\<rparr>"

theorem private_save_atomic_witness:
  "fst (save_text_file_private sample_env sample_path ''{}'' Map.empty) sample_path =
    Some \<lparr>content = ''{}'', mode = mode_private\<rparr>"
proof -
  have "snd (save_text_file_private sample_env sample_path ''{}'' Map.empty) = Inr ()"
    using temp_save_path_neq [of sample_env sample_path]
    by (simp add: save_defs Let_def sample_env_def)
  then show ?thesis
    using private_save_atomic [of sample_env sample_path "''{}''" Map.empty
        "fst (save_text_file_private sample_env sample_path ''{}'' Map.empty)" "Inr ()"]
    by (simp add: sample_env_def prod_eq_iff)
qed

end
