(* ===== verification/Jobs.thy ===== *)
theory Jobs
  imports Repair Private_Files
begin

text \<open>
  Daemon jobs (\<^verbatim>\<open>ssh-proxy-daemon/src/job.rs\<close>, \<^verbatim>\<open>ssh-proxy/src/node_daemon/jobs.rs\<close>): the record of a
  long-running operation, the bounded registry the daemon keeps of them and its file.  The clock
  (\<^verbatim>\<open>now_unix\<close>) is an argument of the operations that read it.  The JSON text of the store is written and
  read by \<^verbatim>\<open>serde_json\<close>, the parameters \<open>encode\<close> and \<open>decode\<close>.
\<close>

section \<open>Job records\<close>

datatype DaemonJobState = Queued | Running | WaitingRetry | Healthy | Failed | Cancelled

fun state_is_terminal :: "DaemonJobState \<Rightarrow> bool" where
  "state_is_terminal s = (s = Healthy \<or> s = Failed \<or> s = Cancelled)"

fun job_state_name :: "DaemonJobState \<Rightarrow> string" where
  "job_state_name Queued = ''queued''"
| "job_state_name Running = ''running''"
| "job_state_name WaitingRetry = ''waiting_retry''"
| "job_state_name Healthy = ''healthy''"
| "job_state_name Failed = ''failed''"
| "job_state_name Cancelled = ''cancelled''"

datatype DaemonJobPhase =
    PhQueued | Reconciling | ResolveTarget | ValidateLocalProxy | SelectRemotePort | EnsureLocalProxy
  | EnsurePeer | InspectPeerDescriptor | DependencyCheck | StageRemotePeer | WritePeerConfig
  | InstallPeerService | StartPeerService | PeerHealthProbe | RecordPeer | EnsureTransport | PlanRoute
  | StartRoute | WaitRouteReady | VerifyRemotePort | ApplyRemoteSettings | HealthMonitoring | StageUpdate
  | VerifyUpdate | SwitchBinary | RestartDaemon | Rollback | PhHealthy | PhFailed | PhCancelled

fun job_phase_name :: "DaemonJobPhase \<Rightarrow> string" where
  "job_phase_name PhQueued = ''queued''"
| "job_phase_name Reconciling = ''reconciling''"
| "job_phase_name ResolveTarget = ''resolve_target''"
| "job_phase_name ValidateLocalProxy = ''validate_local_proxy''"
| "job_phase_name SelectRemotePort = ''select_remote_port''"
| "job_phase_name EnsureLocalProxy = ''ensure_local_proxy''"
| "job_phase_name EnsurePeer = ''ensure_peer''"
| "job_phase_name InspectPeerDescriptor = ''inspect_peer_descriptor''"
| "job_phase_name DependencyCheck = ''dependency_check''"
| "job_phase_name StageRemotePeer = ''stage_remote_peer''"
| "job_phase_name WritePeerConfig = ''write_peer_config''"
| "job_phase_name InstallPeerService = ''install_peer_service''"
| "job_phase_name StartPeerService = ''start_peer_service''"
| "job_phase_name PeerHealthProbe = ''peer_health_probe''"
| "job_phase_name RecordPeer = ''record_peer''"
| "job_phase_name EnsureTransport = ''ensure_transport''"
| "job_phase_name PlanRoute = ''plan_route''"
| "job_phase_name StartRoute = ''start_route''"
| "job_phase_name WaitRouteReady = ''wait_route_ready''"
| "job_phase_name VerifyRemotePort = ''verify_remote_port''"
| "job_phase_name ApplyRemoteSettings = ''apply_remote_settings''"
| "job_phase_name HealthMonitoring = ''health_monitoring''"
| "job_phase_name StageUpdate = ''stage_update''"
| "job_phase_name VerifyUpdate = ''verify_update''"
| "job_phase_name SwitchBinary = ''switch_binary''"
| "job_phase_name RestartDaemon = ''restart_daemon''"
| "job_phase_name Rollback = ''rollback''"
| "job_phase_name PhHealthy = ''healthy''"
| "job_phase_name PhFailed = ''failed''"
| "job_phase_name PhCancelled = ''cancelled''"

record DaemonJobRecord =
  jr_id :: string
  jr_kind :: string
  jr_state :: DaemonJobState
  jr_phase :: DaemonJobPhase
  jr_progress :: u8
  jr_blocker :: "string option"
  jr_next_action :: "string option"
  jr_repair_action :: "RepairAction option"
  jr_last_error :: "string option"
  jr_retry_after_ms :: "u64 option"
  jr_recovery_attempts :: u32
  jr_target :: "string option"
  jr_workspace_id :: "string option"
  jr_route_id :: "string option"
  jr_remote_url :: "string option"
  jr_created_at_unix :: u64
  jr_updated_at_unix :: u64

definition job_new :: "u64 \<Rightarrow> string \<Rightarrow> string \<Rightarrow> DaemonJobRecord" where
  "job_new now i kind =
    \<lparr>jr_id = i, jr_kind = kind, jr_state = Queued, jr_phase = PhQueued, jr_progress = 0, jr_blocker = None,
     jr_next_action = None, jr_repair_action = None, jr_last_error = None, jr_retry_after_ms = None,
     jr_recovery_attempts = 0, jr_target = None, jr_workspace_id = None, jr_route_id = None,
     jr_remote_url = None, jr_created_at_unix = now, jr_updated_at_unix = now\<rparr>"

definition transition ::
  "u64 \<Rightarrow> DaemonJobState \<Rightarrow> DaemonJobPhase \<Rightarrow> u8 \<Rightarrow> DaemonJobRecord \<Rightarrow> DaemonJobRecord" where
  "transition now state phase progress job =
    job\<lparr>jr_state := state, jr_phase := phase, jr_progress := min progress 100, jr_updated_at_unix := now,
        jr_last_error := (if state \<noteq> Failed then None else jr_last_error job),
        jr_retry_after_ms := (if state \<noteq> WaitingRetry then None else jr_retry_after_ms job)\<rparr>"

definition with_target :: "string \<Rightarrow> DaemonJobRecord \<Rightarrow> DaemonJobRecord" where
  "with_target target job = job\<lparr>jr_target := Some target\<rparr>"

definition with_workspace :: "string option \<Rightarrow> DaemonJobRecord \<Rightarrow> DaemonJobRecord" where
  "with_workspace w job = job\<lparr>jr_workspace_id := w\<rparr>"

definition with_route :: "string \<Rightarrow> DaemonJobRecord \<Rightarrow> DaemonJobRecord" where
  "with_route r job = job\<lparr>jr_route_id := Some r\<rparr>"

definition with_remote_url :: "string option \<Rightarrow> DaemonJobRecord \<Rightarrow> DaemonJobRecord" where
  "with_remote_url u job = job\<lparr>jr_remote_url := u\<rparr>"

definition with_next_action :: "string \<Rightarrow> DaemonJobRecord \<Rightarrow> DaemonJobRecord" where
  "with_next_action a job = job\<lparr>jr_next_action := Some a\<rparr>"

definition with_retry_after_ms :: "u64 \<Rightarrow> DaemonJobRecord \<Rightarrow> DaemonJobRecord" where
  "with_retry_after_ms ms job = job\<lparr>jr_retry_after_ms := Some ms\<rparr>"

definition with_recovery_attempts :: "u32 \<Rightarrow> DaemonJobRecord \<Rightarrow> DaemonJobRecord" where
  "with_recovery_attempts n job = job\<lparr>jr_recovery_attempts := n\<rparr>"

definition job_failed :: "u64 \<Rightarrow> string \<Rightarrow> string option \<Rightarrow> DaemonJobRecord \<Rightarrow> DaemonJobRecord" where
  "job_failed now error blocker job =
    job\<lparr>jr_state := Failed, jr_phase := PhFailed, jr_progress := 100, jr_last_error := Some error,
        jr_repair_action := Option.bind blocker action_for_blocker, jr_blocker := blocker,
        jr_retry_after_ms := None, jr_updated_at_unix := now\<rparr>"

definition job_to_value :: "DaemonJobRecord \<Rightarrow> json" where
  "job_to_value job = json_obj
    ([(''id'', JStr (jr_id job)), (''kind'', JStr (jr_kind job)),
      (''state'', JStr (job_state_name (jr_state job))), (''phase'', JStr (job_phase_name (jr_phase job))),
      (''progress'', JNum (int (unat (jr_progress job))))]
     @ skip_none ''blocker'' JStr (jr_blocker job)
     @ skip_none ''next_action'' JStr (jr_next_action job)
     @ skip_none ''repair_action'' repair_action_json (jr_repair_action job)
     @ skip_none ''last_error'' JStr (jr_last_error job)
     @ skip_none ''retry_after_ms'' json_u64 (jr_retry_after_ms job)
     @ (if jr_recovery_attempts job = 0 then []
        else [(''recovery_attempts'', JNum (int (unat (jr_recovery_attempts job))))])
     @ skip_none ''target'' JStr (jr_target job)
     @ skip_none ''workspace_id'' JStr (jr_workspace_id job)
     @ skip_none ''route_id'' JStr (jr_route_id job)
     @ skip_none ''remote_url'' JStr (jr_remote_url job)
     @ [(''created_at_unix'', json_u64 (jr_created_at_unix job)),
        (''updated_at_unix'', json_u64 (jr_updated_at_unix job))])"

definition job_health :: "DaemonJobRecord \<Rightarrow> string" where
  "job_health job =
    (case jr_state job of
       Healthy \<Rightarrow> ''healthy''
     | Failed \<Rightarrow> ''failed''
     | Cancelled \<Rightarrow> ''cancelled''
     | Queued \<Rightarrow> ''starting''
     | Running \<Rightarrow> ''starting''
     | WaitingRetry \<Rightarrow> ''starting'')"

record DaemonJobEvent =
  ev_job_id :: string
  ev_state :: DaemonJobState
  ev_phase :: DaemonJobPhase
  ev_message :: string
  ev_created_at_unix :: u64

section \<open>The job store\<close>

definition JOB_STORE_VERSION :: u32 where
  "JOB_STORE_VERSION = 1"

definition MAX_EVENTS :: nat where
  "MAX_EVENTS = 256"

definition MAX_TERMINAL_JOBS :: nat where
  "MAX_TERMINAL_JOBS = 64"

record JobStore =
  js_version :: u32
  js_jobs :: "(string, DaemonJobRecord) omap"
  js_events :: "DaemonJobEvent list"

definition job_store_default :: JobStore where
  "job_store_default = \<lparr>js_version = JOB_STORE_VERSION, js_jobs = [], js_events = []\<rparr>"

definition push_event :: "u64 \<Rightarrow> DaemonJobRecord \<Rightarrow> string \<Rightarrow> JobStore \<Rightarrow> JobStore" where
  "push_event now record message store =
    (let events = js_events store @
       [\<lparr>ev_job_id = jr_id record, ev_state = jr_state record, ev_phase = jr_phase record,
         ev_message = message, ev_created_at_unix = now\<rparr>]
     in store\<lparr>js_events :=
          (if length events > MAX_EVENTS then drop (length events - MAX_EVENTS) events else events)\<rparr>)"

definition job_is_terminal :: "DaemonJobRecord \<Rightarrow> bool" where
  "job_is_terminal job = state_is_terminal (jr_state job)"

definition terminal_jobs :: "(string, DaemonJobRecord) omap \<Rightarrow> DaemonJobRecord list" where
  "terminal_jobs jobs = filter job_is_terminal (map snd jobs)"

definition prune_store :: "JobStore \<Rightarrow> JobStore" where
  "prune_store store =
    (let terminal = length (terminal_jobs (js_jobs store)) in
     if terminal \<le> MAX_TERMINAL_JOBS then store
     else let
       terminal_ids = map (\<lambda>job. (jr_updated_at_unix job, jr_id job)) (terminal_jobs (js_jobs store));
       sorted_ids = sort_key fst terminal_ids
     in store\<lparr>js_jobs :=
          fold (\<lambda>(_, i). om_remove i) (take (terminal - MAX_TERMINAL_JOBS) sorted_ids) (js_jobs store)\<rparr>)"

section \<open>The registry\<close>

datatype job_error = EncodeFailed | SaveFailed save_error

record JobRegistry =
  reg_path :: fpath
  reg_store :: JobStore

definition registry_load :: "(string \<Rightarrow> JobStore option) \<Rightarrow> bool \<Rightarrow> fpath \<Rightarrow> fsys \<Rightarrow> JobRegistry" where
  "registry_load decode readable path fs =
    \<lparr>reg_path = path,
     reg_store =
       (case fs path of
          None \<Rightarrow> job_store_default
        | Some f \<Rightarrow>
            if \<not> readable then job_store_default
            else (case decode (content f) of Some store \<Rightarrow> store | None \<Rightarrow> job_store_default))\<rparr>"

definition save_store ::
  "(JobStore \<Rightarrow> string option) \<Rightarrow> save_env \<Rightarrow> fpath \<Rightarrow> JobStore \<Rightarrow> fsys \<Rightarrow> fsys \<times> (job_error, unit) result" where
  "save_store encode env path store fs =
    (case encode store of
       None \<Rightarrow> (fs, Inl EncodeFailed)
     | Some body \<Rightarrow>
         (case save_text_file_private env path body fs of
            (fs', Inl e) \<Rightarrow> (fs', Inl (SaveFailed e))
          | (fs', Inr _) \<Rightarrow> (fs', Inr ())))"

definition upsert ::
  "(JobStore \<Rightarrow> string option) \<Rightarrow> save_env \<Rightarrow> u64 \<Rightarrow> DaemonJobRecord \<Rightarrow> string \<Rightarrow> JobRegistry \<times> fsys \<Rightarrow>
    (JobRegistry \<times> fsys) \<times> (job_error, DaemonJobRecord) result" where
  "upsert encode env now record message s =
    (case s of (reg, fs) \<Rightarrow>
      let store = reg_store reg;
        store = store\<lparr>js_jobs := om_insert (jr_id record) record (js_jobs store)\<rparr>;
        store = push_event now record message store;
        store = prune_store store
      in case save_store encode env (reg_path reg) store fs of
           (fs', Inl e) \<Rightarrow> ((reg\<lparr>reg_store := store\<rparr>, fs'), Inl e)
         | (fs', Inr _) \<Rightarrow> ((reg\<lparr>reg_store := store\<rparr>, fs'), Inr record))"

definition registry_get :: "JobRegistry \<Rightarrow> string \<Rightarrow> DaemonJobRecord option" where
  "registry_get reg i = om_get (js_jobs (reg_store reg)) i"

definition registry_list :: "JobRegistry \<Rightarrow> DaemonJobRecord list" where
  "registry_list reg = map snd (js_jobs (reg_store reg))"

definition registry_events :: "JobRegistry \<Rightarrow> string option \<Rightarrow> DaemonJobEvent list" where
  "registry_events reg job_id =
    filter (\<lambda>event. case job_id of None \<Rightarrow> True | Some i \<Rightarrow> ev_job_id event = i) (js_events (reg_store reg))"

definition jobs_value :: "JobRegistry \<Rightarrow> json" where
  "jobs_value reg = JArr (map job_to_value (registry_list reg))"

section \<open>The status block of the daemon\<close>

text \<open>The last of the records with the greatest time stamp, as \<^verbatim>\<open>max_by_key\<close> returns it.\<close>

fun latest_by_update :: "DaemonJobRecord list \<Rightarrow> DaemonJobRecord option" where
  "latest_by_update [] = None"
| "latest_by_update (job # jobs) =
    (case latest_by_update jobs of
       None \<Rightarrow> Some job
     | Some other \<Rightarrow>
         if jr_updated_at_unix job \<le> jr_updated_at_unix other then Some other else Some job)"

definition latest_update_job :: "DaemonJobRecord list \<Rightarrow> json" where
  "latest_update_job jobs =
    json_opt job_to_value (latest_by_update (filter (\<lambda>job. jr_kind job = ''self_update'') jobs))"

definition count_state :: "DaemonJobState list \<Rightarrow> DaemonJobRecord list \<Rightarrow> int" where
  "count_state states jobs = int (length (filter (\<lambda>job. jr_state job \<in> set states) jobs))"

definition jobs_summary :: "DaemonJobRecord list \<Rightarrow> json" where
  "jobs_summary jobs = json_obj
    [(''total'', JNum (int (length jobs))),
     (''queued'', JNum (count_state [Queued] jobs)),
     (''running'', JNum (count_state [Running, WaitingRetry] jobs)),
     (''healthy'', JNum (count_state [Healthy] jobs)),
     (''failed'', JNum (count_state [Failed] jobs))]"

definition privilege_boundary :: json where
  "privilege_boundary = json_obj
    [(''arbitrary_shell'', JBool False),
     (''allowlisted_jobs'', JArr (map JStr
       [''self_update'', ''remote_peer_update'', ''ensure_proxy_session'', ''apply_remote_settings'',
        ''route_lifecycle'']))]"

definition daemon_status_block :: "string \<Rightarrow> json \<Rightarrow> DaemonJobRecord list \<Rightarrow> json option \<Rightarrow> json" where
  "daemon_status_block pkg_version status jobs daemon_state =
    (let update_state =
       (case Option.bind daemon_state (\<lambda>state. json_get state ''update'') of
          Some update \<Rightarrow> update
        | None \<Rightarrow>
            (case Option.bind daemon_state (\<lambda>state. json_get state ''update_state'') of
               Some state \<Rightarrow> json_obj [(''state'', state), (''last_job'', latest_update_job jobs)]
             | None \<Rightarrow> json_obj [(''state'', JStr ''idle''), (''last_job'', latest_update_job jobs)]))
     in json_obj
       [(''api'', JStr ''v0.3''),
        (''version'', JStr pkg_version),
        (''endpoint'', case json_get status ''control'' of Some c \<Rightarrow> c | None \<Rightarrow> JNull),
        (''scope'', JStr ''daemon''),
        (''privilege'', privilege_boundary),
        (''health'', JStr (if Option.bind (json_get status ''ok'') as_bool = Some True
          then ''healthy'' else ''degraded'')),
        (''jobs_summary'', jobs_summary jobs),
        (''update_state'', update_state)])"

section \<open>The store keeps its bounds\<close>

text \<open>The keys of a store are increasing and are the ids of its records.\<close>

definition store_wf :: "JobStore \<Rightarrow> bool" where
  "store_wf store \<longleftrightarrow> om_inv (js_jobs store) \<and> (\<forall>(k, job) \<in> set (js_jobs store). jr_id job = k)"

definition pruned_ids :: "JobStore \<Rightarrow> string list" where
  "pruned_ids store = map snd (take (length (terminal_jobs (js_jobs store)) - MAX_TERMINAL_JOBS)
    (sort_key fst (map (\<lambda>job. (jr_updated_at_unix job, jr_id job)) (terminal_jobs (js_jobs store)))))"

lemma fold_om_remove: "fold (\<lambda>(_, i). om_remove i) ps m = filter (\<lambda>(k, _). k \<notin> snd ` set ps) m"
proof (induction ps arbitrary: m)
  case (Cons p ps)
  have "filter (\<lambda>(k, _). k \<notin> snd ` set ps) (om_remove (snd p) m) =
    filter (\<lambda>(k, _). k \<notin> snd ` set (p # ps)) m"
    by (auto simp: om_remove_def intro!: filter_cong)
  then show ?case using Cons by (simp add: case_prod_unfold)
qed (simp add: case_prod_unfold)

lemma prune_store_eq:
  "prune_store store = store\<lparr>js_jobs := filter (\<lambda>(k, _). k \<notin> set (pruned_ids store)) (js_jobs store)\<rparr>"
  by (cases store) (auto simp: prune_store_def pruned_ids_def Let_def fold_om_remove image_image filter_True)

lemma store_wf_ids: "store_wf store \<Longrightarrow> map jr_id (map snd (js_jobs store)) = map fst (js_jobs store)"
  by (auto simp: store_wf_def)

lemma terminal_ids_distinct: "store_wf store \<Longrightarrow> distinct (map jr_id (terminal_jobs (js_jobs store)))"
  using store_wf_ids [of store] om_inv_distinct [of "js_jobs store"]
  by (metis distinct_map_filter store_wf_def terminal_jobs_def)

lemma pruned_ids_length:
  "length (pruned_ids store) = length (terminal_jobs (js_jobs store)) - MAX_TERMINAL_JOBS"
  by (simp add: pruned_ids_def)

definition ranked :: "DaemonJobRecord list \<Rightarrow> (u64 \<times> string) list" where
  "ranked jobs = sort_key fst (map (\<lambda>job. (jr_updated_at_unix job, jr_id job)) jobs)"

lemma pruned_ids_ranked:
  "pruned_ids store = map snd (take (length (terminal_jobs (js_jobs store)) - MAX_TERMINAL_JOBS)
    (ranked (terminal_jobs (js_jobs store))))"
  by (simp add: pruned_ids_def ranked_def)

lemma ranked_props [simp]:
  "set (ranked jobs) = (\<lambda>job. (jr_updated_at_unix job, jr_id job)) ` set jobs"
  "length (ranked jobs) = length jobs"
  "sorted (map fst (ranked jobs))"
  by (simp_all add: ranked_def)

lemma ranked_distinct: "distinct (map jr_id jobs) \<Longrightarrow> distinct (map snd (ranked jobs))"
  by (auto simp: ranked_def distinct_map inj_on_def)

lemma pruned_ids_distinct: "store_wf store \<Longrightarrow> distinct (pruned_ids store)"
  using ranked_distinct [OF terminal_ids_distinct] distinct_take
  by (simp add: pruned_ids_ranked take_map [symmetric])

lemma pruned_ids_terminal: "set (pruned_ids store) \<subseteq> jr_id ` set (terminal_jobs (js_jobs store))"
  by (auto simp: pruned_ids_ranked dest!: in_set_takeD)

lemma terminal_jobs_filter:
  "store_wf store \<Longrightarrow> terminal_jobs (filter (\<lambda>(k, _). k \<notin> R) (js_jobs store)) =
    filter (\<lambda>job. jr_id job \<notin> R) (terminal_jobs (js_jobs store))"
  unfolding store_wf_def terminal_jobs_def
  by (induction "js_jobs store")
    (auto simp: filter_map comp_def intro!: filter_cong arg_cong [of _ _ "map snd"])

lemma length_filter_ids:
  assumes "distinct (map f xs)" and "distinct ys" and "set ys \<subseteq> f ` set xs"
  shows "length (filter (\<lambda>x. f x \<notin> set ys) xs) = length xs - length ys"
proof -
  have "length (filter (\<lambda>x. f x \<in> set ys) xs) = length (filter (\<lambda>y. y \<in> set ys) (map f xs))"
    by (simp add: filter_map comp_def)
  also have "\<dots> = card (set (filter (\<lambda>y. y \<in> set ys) (map f xs)))"
    using assms(1) by (metis distinct_card distinct_filter)
  also have "set (filter (\<lambda>y. y \<in> set ys) (map f xs)) = set ys"
    using assms(3) by auto
  also have "card (set ys) = length ys"
    using assms(2) by (rule distinct_card)
  finally show ?thesis
    using sum_length_filter_compl [of "\<lambda>x. f x \<in> set ys" xs] by simp
qed

lemma prune_terminal_count:
  assumes "store_wf store"
  shows "length (terminal_jobs (js_jobs (prune_store store))) =
    min MAX_TERMINAL_JOBS (length (terminal_jobs (js_jobs store)))"
  using length_filter_ids [OF terminal_ids_distinct [OF assms] pruned_ids_distinct [OF assms] pruned_ids_terminal]
  by (simp add: prune_store_eq terminal_jobs_filter [OF assms] pruned_ids_length)

lemma store_wf_prune: "store_wf store \<Longrightarrow> store_wf (prune_store store)"
  by (auto simp: store_wf_def prune_store_eq om_inv_filter)

lemma store_wf_insert:
  "store_wf store \<Longrightarrow> store_wf (store\<lparr>js_jobs := om_insert (jr_id job) job (js_jobs store)\<rparr>)"
  by (auto simp: store_wf_def om_inv_insert om_insert_set)

lemma push_event_jobs [simp]: "js_jobs (push_event now job message store) = js_jobs store"
  by (simp add: push_event_def Let_def)

lemma store_wf_push [simp]: "store_wf (push_event now job message store) = store_wf store"
  by (simp add: store_wf_def)

lemma push_event_bound:
  "length (js_events (push_event now job message store)) \<le> MAX_EVENTS"
  by (simp add: push_event_def Let_def MAX_EVENTS_def)

lemma prune_events [simp]: "js_events (prune_store store) = js_events store"
  by (simp add: prune_store_eq)

lemma om_get_prune:
  "om_get (js_jobs (prune_store store)) i =
    (if i \<in> set (pruned_ids store) then None else om_get (js_jobs store) i)"
  by (simp add: prune_store_eq om_get_filter)

lemma store_wf_get: "store_wf store \<Longrightarrow> om_get (js_jobs store) i = Some job \<Longrightarrow> jr_id job = i"
  by (auto simp: store_wf_def om_get_Some_iff)

lemma terminal_job_of_get:
  "store_wf store \<Longrightarrow> om_get (js_jobs store) i = Some job \<Longrightarrow>
    job \<in> set (terminal_jobs (js_jobs store)) \<longleftrightarrow> job_is_terminal job"
  by (force simp: store_wf_def om_get_Some_iff terminal_jobs_def)

lemma pruned_is_terminal:
  assumes "store_wf store" and "om_get (js_jobs store) i = Some job" and "i \<in> set (pruned_ids store)"
  shows "job_is_terminal job"
proof -
  obtain job' where job': "job' \<in> set (terminal_jobs (js_jobs store))" "jr_id job' = i"
    using assms(3) pruned_ids_terminal by blast
  then have "(i, job') \<in> set (js_jobs store)" and "job_is_terminal job'"
    using assms(1) by (auto simp: store_wf_def terminal_jobs_def)
  then show ?thesis
    using assms(1,2) by (metis om_get_Some_iff option.inject store_wf_def)
qed

lemma pruned_are_oldest:
  assumes wf: "store_wf store"
    and old: "om_get (js_jobs store) i = Some job" "i \<in> set (pruned_ids store)"
    and kept: "om_get (js_jobs store) k = Some job'" "k \<notin> set (pruned_ids store)" "job_is_terminal job'"
  shows "jr_updated_at_unix job \<le> jr_updated_at_unix job'"
proof -
  let ?T = "terminal_jobs (js_jobs store)" and ?n = "length (terminal_jobs (js_jobs store)) - MAX_TERMINAL_JOBS"
  have ids: "jr_id job = i" "jr_id job' = k"
    using wf old kept by (auto dest: store_wf_get)
  have job: "job \<in> set ?T" and job': "job' \<in> set ?T"
    using pruned_is_terminal [OF wf old] terminal_job_of_get [OF wf] old(1) kept(1,3) by auto
  obtain u where u: "(u, i) \<in> set (take ?n (ranked ?T))"
    using old(2) by (auto simp: pruned_ids_ranked)
  have "u = jr_updated_at_unix job"
  proof -
    have "(jr_updated_at_unix job, i) \<in> set (ranked ?T)" using job ids by auto
    moreover have "(u, i) \<in> set (ranked ?T)" using u by (rule in_set_takeD)
    ultimately show ?thesis
      using ranked_distinct [OF terminal_ids_distinct [OF wf]]
      by (auto simp: distinct_map dest: inj_onD [where x = "(u, i)" and y = "(jr_updated_at_unix job, i)"] simp del: ranked_props)
  qed
  moreover have "(jr_updated_at_unix job', k) \<in> set (drop ?n (ranked ?T))"
  proof -
    have "(jr_updated_at_unix job', k) \<in> set (take ?n (ranked ?T) @ drop ?n (ranked ?T))"
      using job' ids by auto
    then show ?thesis
      using kept(2) by (force simp: pruned_ids_ranked simp del: append_take_drop_id)
  qed
  moreover have "sorted (map fst (take ?n (ranked ?T)) @ map fst (drop ?n (ranked ?T)))"
    using ranked_props(3) [of ?T] by (metis append_take_drop_id map_append)
  ultimately show ?thesis
    using u by (force simp: sorted_append)
qed

section \<open>Upserts\<close>

definition upsert_store :: "u64 \<Rightarrow> DaemonJobRecord \<Rightarrow> string \<Rightarrow> JobStore \<Rightarrow> JobStore" where
  "upsert_store now entry message store = prune_store (push_event now entry message
    (store\<lparr>js_jobs := om_insert (jr_id entry) entry (js_jobs store)\<rparr>))"

lemma upsert_eq:
  "upsert encode env now entry message (reg, fs) =
    (let store = upsert_store now entry message (reg_store reg) in
     case save_store encode env (reg_path reg) store fs of
       (fs', Inl e) \<Rightarrow> ((reg\<lparr>reg_store := store\<rparr>, fs'), Inl e)
     | (fs', Inr _) \<Rightarrow> ((reg\<lparr>reg_store := store\<rparr>, fs'), Inr entry))"
  by (simp add: upsert_def upsert_store_def Let_def)

lemma upsert_result:
  assumes "upsert encode env now entry message (reg, fs) = ((reg', fs'), res)"
  shows "reg_path reg' = reg_path reg"
    and "reg_store reg' = upsert_store now entry message (reg_store reg)"
    and "fs' = fst (save_store encode env (reg_path reg) (reg_store reg') fs)"
    and "res = Inr r \<Longrightarrow> r = entry \<and> snd (save_store encode env (reg_path reg) (reg_store reg') fs) = Inr ()"
  using assms by (auto simp: upsert_eq Let_def split: prod.splits sum.splits)

lemma upsert_split:
  "upsert encode env now entry message s =
    ((fst (fst (upsert encode env now entry message s)), snd (fst (upsert encode env now entry message s))),
     snd (upsert encode env now entry message s))"
  by simp

lemma upsert_saved:
  "encode (upsert_store now entry message (reg_store reg)) = Some body \<Longrightarrow>
    snd (save_text_file_private env (reg_path reg) body fs) = Inr () \<Longrightarrow>
    snd (upsert encode env now entry message (reg, fs)) = Inr entry"
  by (cases "save_text_file_private env (reg_path reg) body fs")
    (simp add: upsert_eq save_store_def Let_def)

definition store_bounded :: "JobStore \<Rightarrow> bool" where
  "store_bounded store \<longleftrightarrow> store_wf store \<and> length (js_events store) \<le> MAX_EVENTS \<and>
    length (terminal_jobs (js_jobs store)) \<le> MAX_TERMINAL_JOBS"

lemma upsert_store_bounded: "store_wf store \<Longrightarrow> store_bounded (upsert_store now entry message store)"
  unfolding store_bounded_def upsert_store_def
  by (simp add: store_wf_prune store_wf_insert prune_terminal_count push_event_bound)

lemma default_bounded: "store_bounded job_store_default"
  by (simp add: store_bounded_def store_wf_def job_store_default_def om.inv_empty terminal_jobs_def)

lemma save_store_file:
  assumes "unix env" and "\<not> windows env"
  shows "fst (save_store encode env path store fs) path = fs path \<or>
    (\<exists>body m. fst (save_store encode env path store fs) path = Some \<lparr>content = body, mode = m\<rparr> \<and> encode store = Some body)"
proof (cases "encode store")
  case (Some body)
  have "fst (save_store encode env path store fs) = fst (save_text_file_private env path body fs)"
    by (simp add: save_store_def Some split: prod.splits sum.splits)
  then show ?thesis
    using save_target_unix [OF assms(2,1), of path body fs] Some by auto
qed (simp add: save_store_def)

lemma save_store_ok:
  assumes "snd (save_store encode env path store fs) = Inr ()"
  shows "\<exists>body m. fst (save_store encode env path store fs) path = Some \<lparr>content = body, mode = m\<rparr> \<and>
    encode store = Some body"
proof -
  obtain body where body: "encode store = Some body"
    and saved: "snd (save_text_file_private env path body fs) = Inr ()"
    and fs': "fst (save_store encode env path store fs) = fst (save_text_file_private env path body fs)"
    using assms by (auto simp: save_store_def split: option.splits prod.splits sum.splits)
  then show ?thesis
    using save_ok [OF saved] by auto
qed

text \<open>The life of a registry: booted without a file, upserts whose save may fail anywhere, restarts.\<close>

inductive registry_run ::
  "(JobStore \<Rightarrow> string option) \<Rightarrow> (string \<Rightarrow> JobStore option) \<Rightarrow> JobRegistry \<times> fsys \<Rightarrow> bool"
  for encode :: "JobStore \<Rightarrow> string option" and decode :: "string \<Rightarrow> JobStore option" where
  boot: "fs path = None \<Longrightarrow> registry_run encode decode (registry_load decode readable path fs, fs)"
| upserted: "registry_run encode decode s \<Longrightarrow> unix env \<Longrightarrow> \<not> windows env \<Longrightarrow>
    upsert encode env now job message s = (s', res) \<Longrightarrow> registry_run encode decode s'"
| restarted: "registry_run encode decode (reg, fs) \<Longrightarrow>
    registry_run encode decode (registry_load decode readable (reg_path reg) fs, fs)"

definition run_inv :: "(JobStore \<Rightarrow> string option) \<Rightarrow> JobRegistry \<times> fsys \<Rightarrow> bool" where
  "run_inv encode s \<longleftrightarrow> store_bounded (reg_store (fst s)) \<and>
    (\<forall>f. snd s (reg_path (fst s)) = Some f \<longrightarrow> (\<exists>store. encode store = Some (content f) \<and> store_bounded store))"

lemma run_inv_upsert:
  assumes inv: "run_inv encode (reg, fs)" and "unix env" "\<not> windows env"
    and up: "upsert encode env now entry message (reg, fs) = ((reg', fs'), res)"
  shows "run_inv encode (reg', fs')"
proof -
  note r = upsert_result(1-3) [OF up]
  have bounded: "store_bounded (reg_store reg')"
    using inv upsert_store_bounded by (simp add: r(2) run_inv_def store_bounded_def)
  moreover have "fs' (reg_path reg) = fs (reg_path reg) \<or>
    (\<exists>body m. fs' (reg_path reg) = Some \<lparr>content = body, mode = m\<rparr> \<and> encode (reg_store reg') = Some body)"
    unfolding r(3) by (rule save_store_file [OF assms(2,3)])
  ultimately show ?thesis
    using inv unfolding run_inv_def fst_conv snd_conv r(1)
    by (metis inode.select_convs(1) option.inject)
qed

lemma run_inv_load:
  assumes "\<And>store body. encode store = Some body \<Longrightarrow> decode body = Some store"
    and "\<forall>f. fs path = Some f \<longrightarrow> (\<exists>store. encode store = Some (content f) \<and> store_bounded store)"
  shows "run_inv encode (registry_load decode readable path fs, fs)"
  using assms by (fastforce simp: run_inv_def registry_load_def default_bounded split: option.splits)

lemma registry_run_inv:
  assumes "registry_run encode decode s"
    and "\<And>store body. encode store = Some body \<Longrightarrow> decode body = Some store"
  shows "run_inv encode s"
  using assms
proof (induction s rule: registry_run.induct)
  case (upserted s env now job message s' res)
  then show ?case
    by (cases s; cases s') (use run_inv_upsert in blast)
next
  case (restarted reg fs readable)
  then have "\<forall>f. fs (reg_path reg) = Some f \<longrightarrow> (\<exists>store. encode store = Some (content f) \<and> store_bounded store)"
    by (simp add: run_inv_def)
  then show ?case by (intro run_inv_load) (use restarted.prems in auto)
qed (simp add: run_inv_load)

text \<open>
  C12. Whatever sequence of upserts, failed or interrupted saves and restarts the daemon goes through, its
  job registry stays well formed and bounded: at most 256 events and at most 64 finished jobs, in
  memory and after reloading the file.  The hypothesis on the text is the round trip of the JSON codec.
\<close>

theorem job_registry_bounded:
  assumes "registry_run encode decode (reg, fs)"
    and "\<And>store body. encode store = Some body \<Longrightarrow> decode body = Some store"
  shows "store_wf (reg_store reg) \<and> length (js_events (reg_store reg)) \<le> 256 \<and>
    length (filter job_is_terminal (registry_list reg)) \<le> 64"
  using registry_run_inv [OF assms]
  by (simp add: run_inv_def store_bounded_def registry_list_def terminal_jobs_def MAX_EVENTS_def MAX_TERMINAL_JOBS_def)

definition sample_codec :: "JobStore \<Rightarrow> JobStore \<Rightarrow> string option" where
  "sample_codec chosen store = (if store = chosen then Some ''store'' else None)"

definition sample_run :: "JobRegistry \<times> fsys" where
  "sample_run = fst (upsert (sample_codec job_store_default) sample_env 5 (job_new 5 ''j1'' ''self_update'') ''queued''
    (registry_load (\<lambda>_. Some job_store_default) True sample_path Map.empty, Map.empty))"

theorem job_registry_bounded_witness:
  "store_wf (reg_store (fst sample_run)) \<and> length (js_events (reg_store (fst sample_run))) \<le> 256 \<and>
    length (filter job_is_terminal (registry_list (fst sample_run))) \<le> 64"
proof (rule job_registry_bounded)
  show "registry_run (sample_codec job_store_default) (\<lambda>_. Some job_store_default) (fst sample_run, snd sample_run)"
    unfolding sample_run_def prod.collapse
    by (rule registry_run.upserted [OF registry_run.boot, where env = sample_env])
      (auto simp: sample_env_def prod_eq_iff)
  show "Some job_store_default = Some store" if "sample_codec job_store_default store = Some body" for store body
    using that by (simp add: sample_codec_def split: if_splits)
qed

text \<open>
  C27. What an upsert does to the registry, whether or not its save succeeds: an unfinished record is
  found again under its id; every other unfinished job is kept as it was; nothing else is invented; and
  the jobs that are dropped are finished and at most as recent as every finished job that is kept.
\<close>

theorem upsert_keeps_active_jobs:
  assumes wf: "store_wf (reg_store reg)"
    and up: "upsert encode env now entry message (reg, fs) = ((reg', fs'), res)"
  shows "(\<not> job_is_terminal entry \<longrightarrow> registry_get reg' (jr_id entry) = Some entry) \<and>
    (\<forall>i job. i \<noteq> jr_id entry \<and> registry_get reg i = Some job \<and> \<not> job_is_terminal job \<longrightarrow>
      registry_get reg' i = Some job) \<and>
    (\<forall>i job. registry_get reg' i = Some job \<longrightarrow>
      (i, job) = (jr_id entry, entry) \<or> i \<noteq> jr_id entry \<and> registry_get reg i = Some job) \<and>
    (\<forall>i job k job'. i \<noteq> jr_id entry \<and> registry_get reg i = Some job \<and> registry_get reg' i = None \<and>
      registry_get reg' k = Some job' \<and> job_is_terminal job' \<longrightarrow>
      job_is_terminal job \<and> jr_updated_at_unix job \<le> jr_updated_at_unix job')"
proof -
  define s where "s = push_event now entry message
    ((reg_store reg)\<lparr>js_jobs := om_insert (jr_id entry) entry (js_jobs (reg_store reg))\<rparr>)"
  have swf: "store_wf s" by (simp add: s_def store_wf_insert wf)
  have old: "om_get (js_jobs s) i = (if i = jr_id entry then Some entry else registry_get reg i)" for i
    by (simp add: s_def om_get_insert registry_get_def)
  have new: "registry_get reg' i = (if i \<in> set (pruned_ids s) then None else om_get (js_jobs s) i)" for i
    by (simp add: registry_get_def upsert_result(2) [OF up] upsert_store_def om_get_prune s_def)
  show ?thesis
  proof (intro conjI allI impI; (elim conjE)?)
    show "registry_get reg' (jr_id entry) = Some entry" if "\<not> job_is_terminal entry"
      using that pruned_is_terminal [OF swf, of "jr_id entry" entry] by (auto simp: new old)
    show "registry_get reg' i = Some job"
      if "i \<noteq> jr_id entry" "registry_get reg i = Some job" "\<not> job_is_terminal job" for i job
      using that pruned_is_terminal [OF swf, of i job] by (auto simp: new old)
    show "(i, job) = (jr_id entry, entry) \<or> i \<noteq> jr_id entry \<and> registry_get reg i = Some job"
      if "registry_get reg' i = Some job" for i job
      using that by (auto simp: new old split: if_splits)
    fix i job k job'
    assume i: "i \<noteq> jr_id entry" "registry_get reg i = Some job" "registry_get reg' i = None"
      and k: "registry_get reg' k = Some job'" "job_is_terminal job'"
    have get_i: "om_get (js_jobs s) i = Some job" and gone: "i \<in> set (pruned_ids s)"
      using i unfolding new old by (simp_all split: if_splits)
    have get_k: "om_get (js_jobs s) k = Some job'" and kept: "k \<notin> set (pruned_ids s)"
      using k(1) unfolding new by (simp_all split: if_splits)
    show "job_is_terminal job"
      by (rule pruned_is_terminal [OF swf get_i gone])
    show "jr_updated_at_unix job \<le> jr_updated_at_unix job'"
      by (rule pruned_are_oldest [OF swf get_i gone get_k kept k(2)])
  qed
qed

lemma registry_eqI: "reg_path a = reg_path b \<Longrightarrow> reg_store a = reg_store b \<Longrightarrow> (a :: JobRegistry) = b"
  by (cases a; cases b) simp

lemma sample_start:
  "reg_store (registry_load decode True sample_path Map.empty) = job_store_default"
  "reg_path (registry_load decode True sample_path Map.empty) = sample_path"
  by (simp_all add: registry_load_def)

lemma sample_run_store:
  "reg_store (fst sample_run) = upsert_store 5 (job_new 5 ''j1'' ''self_update'') ''queued'' job_store_default"
  "reg_path (fst sample_run) = sample_path"
  unfolding sample_run_def
  by (simp_all only: upsert_result(1,2) [OF upsert_split] sample_start)

theorem upsert_keeps_active_jobs_witness:
  "registry_get (fst sample_run) ''j1'' = Some (job_new 5 ''j1'' ''self_update'')"
proof -
  let ?job = "job_new 5 ''j1'' ''self_update''"
  have wf: "store_wf (reg_store (registry_load (\<lambda>_. Some job_store_default) True sample_path Map.empty))"
    using default_bounded unfolding sample_start store_bounded_def by simp
  have "\<not> job_is_terminal ?job" "jr_id ?job = ''j1''"
    by (simp_all add: job_new_def job_is_terminal_def)
  then show ?thesis
    unfolding sample_run_def
    using upsert_keeps_active_jobs [OF wf upsert_split, of ?job] by metis
qed

text \<open>
  C34. A job whose upsert was reported as saved survives a restart: loading the file afterwards gives the
  registry as it was, under the round trip of the JSON codec for that store.
\<close>

theorem saved_jobs_survive_restart:
  assumes "upsert encode env now entry message (reg, fs) = ((reg', fs'), Inr r)"
    and "\<And>body. encode (reg_store reg') = Some body \<Longrightarrow> decode body = Some (reg_store reg')"
  shows "registry_load decode True (reg_path reg) fs' = reg'"
proof -
  note r = upsert_result [OF assms(1)]
  obtain body m where "fs' (reg_path reg) = Some \<lparr>content = body, mode = m\<rparr>" "encode (reg_store reg') = Some body"
    using save_store_ok [of encode env "reg_path reg" "reg_store reg'" fs] r(3) r(4) [OF refl] by auto
  then show ?thesis
    using assms(2) r(1) by (simp add: registry_load_def)
qed

theorem saved_jobs_survive_restart_witness:
  "registry_load (\<lambda>_. Some (reg_store (fst sample_run))) True sample_path
    (snd (fst (upsert (sample_codec (reg_store (fst sample_run))) sample_env 5 (job_new 5 ''j1'' ''self_update'') ''queued''
      (registry_load (\<lambda>_. None) True sample_path Map.empty, Map.empty)))) = fst sample_run"
proof -
  let ?job = "job_new 5 ''j1'' ''self_update''"
  let ?reg = "registry_load (\<lambda>_. None) True sample_path Map.empty"
  let ?c = "sample_codec (reg_store (fst sample_run))"
  let ?u = "upsert ?c sample_env 5 ?job ''queued'' (?reg, Map.empty)"
  have "snd (save_text_file_private sample_env (reg_path ?reg) ''store'' Map.empty) = Inr ()"
    using temp_save_path_neq [of sample_env sample_path]
    by (simp add: save_defs Let_def sample_env_def sample_start)
  then have saved: "snd ?u = Inr ?job"
    by (intro upsert_saved [where body = "''store''"]) (simp_all add: sample_codec_def sample_run_store sample_start)
  have reg': "fst (fst ?u) = fst sample_run"
    using upsert_result(1,2) [OF upsert_split, of ?c sample_env 5 ?job "''queued''" ?reg Map.empty]
    by (intro registry_eqI) (simp_all only: sample_run_store sample_start)
  have up: "?u = ((fst sample_run, snd (fst ?u)), Inr ?job)"
    using upsert_split [of ?c sample_env 5 ?job "''queued''" "(?reg, Map.empty)"] unfolding saved reg' .
  show ?thesis
    using saved_jobs_survive_restart [OF up, of "\<lambda>_. Some (reg_store (fst sample_run))"]
    unfolding sample_start by simp
qed

end
