(* ===== verification/Version_Compat.thy ===== *)
theory Version_Compat
  imports Json
begin

text \<open>
  Version and feature negotiation between peers (\<^verbatim>\<open>protocol_core/version.rs\<close>): the compatibility report
  shown to the user, the classification that decides what the daemon does, and the comparison of
  dotted release versions.  The central fact is that the report and the classification agree.
\<close>

definition CONTROL_API_VERSION :: u16 where "CONTROL_API_VERSION = 1"
definition PEER_PROTOCOL_VERSION :: u16 where "PEER_PROTOCOL_VERSION = 1"

datatype ControlApiVersion = ControlApiVersion u16
datatype PeerProtocolVersion = PeerProtocolVersion u16

definition control_current :: ControlApiVersion where
  "control_current = ControlApiVersion CONTROL_API_VERSION"

fun control_value :: "ControlApiVersion \<Rightarrow> u16" where
  "control_value (ControlApiVersion v) = v"

definition is_supported_by :: "ControlApiVersion \<Rightarrow> ControlApiVersion \<Rightarrow> bool" where
  "is_supported_by v supported \<longleftrightarrow> control_value v \<le> control_value supported"

definition peer_current :: PeerProtocolVersion where
  "peer_current = PeerProtocolVersion PEER_PROTOCOL_VERSION"

fun peer_value :: "PeerProtocolVersion \<Rightarrow> u16" where
  "peer_value (PeerProtocolVersion v) = v"

definition matches_required :: "PeerProtocolVersion \<Rightarrow> PeerProtocolVersion \<Rightarrow> bool" where
  "matches_required v required \<longleftrightarrow> peer_value v = peer_value required"

record FeatureSet =
  fs_features :: "string list"
  fs_feature_bits :: "(string \<times> json) list"

definition feature_set_new :: "string list \<Rightarrow> FeatureSet" where
  "feature_set_new features =
    \<lparr>fs_features = features, fs_feature_bits = om_from_list (map (\<lambda>f. (f, JBool True)) features)\<rparr>"

definition feature_set_from_parts :: "string list \<Rightarrow> (string \<times> json) list \<Rightarrow> FeatureSet" where
  "feature_set_from_parts features bits = \<lparr>fs_features = features, fs_feature_bits = bits\<rparr>"

definition missing_from :: "FeatureSet \<Rightarrow> FeatureSet \<Rightarrow> string list" where
  "missing_from self remote = filter (\<lambda>f. f \<notin> set (fs_features remote)) (fs_features self)"

definition common_with :: "FeatureSet \<Rightarrow> FeatureSet \<Rightarrow> string list" where
  "common_with self remote = filter (\<lambda>f. f \<in> set (fs_features remote)) (fs_features self)"

definition supports_all :: "FeatureSet \<Rightarrow> FeatureSet \<Rightarrow> bool" where
  "supports_all self required \<longleftrightarrow> missing_from required self = []"

datatype VersionCompatibility = Compatible | UpgradeLocal | UpgradeRemote | Incompatible string

record ProtocolCompatibilityReport =
  cr_checks :: "json list"
  cr_compatible :: bool
  cr_missing_features :: "string list"
  cr_common_features :: "string list"

definition json_u16 :: "u16 \<Rightarrow> json" where
  "json_u16 w = JNum (int (unat w))"

definition json_strs :: "string list \<Rightarrow> json" where
  "json_strs ss = JArr (map JStr ss)"

definition version_check :: "string \<Rightarrow> bool \<Rightarrow> u16 \<Rightarrow> json \<Rightarrow> string \<Rightarrow> string \<Rightarrow> json" where
  "version_check name ok local remote severity message =
    json_obj [(''name'', JStr name), (''ok'', JBool ok), (''local'', json_u16 local), (''remote'', remote),
      (''severity'', JStr severity), (''message'', JStr message)]"

definition control_api_check :: "u16 \<Rightarrow> u16 option \<Rightarrow> json" where
  "control_api_check local remote =
    (case remote of
       Some r \<Rightarrow>
         if r \<le> local then version_check ''control_api_version'' True local (json_u16 r) ''info''
           ''remote control API is supported''
         else version_check ''control_api_version'' False local (json_u16 r) ''error''
           ''remote control API is newer than this binary supports''
     | None \<Rightarrow> version_check ''control_api_version'' False local JNull ''error''
         ''remote descriptor does not advertise a control API version'')"

definition peer_protocol_check :: "u16 \<Rightarrow> u16 option \<Rightarrow> json" where
  "peer_protocol_check local remote =
    (case remote of
       Some r \<Rightarrow>
         if r = local then version_check ''peer_protocol_version'' True local (json_u16 r) ''info''
           ''remote peer data protocol matches''
         else if r > local then version_check ''peer_protocol_version'' False local (json_u16 r) ''error''
           ''remote peer data protocol is newer than this binary supports''
         else version_check ''peer_protocol_version'' False local (json_u16 r) ''error''
           ''remote peer data protocol is older than this binary requires''
     | None \<Rightarrow> version_check ''peer_protocol_version'' False local JNull ''error''
         ''remote descriptor does not advertise a peer data protocol version'')"

definition feature_check :: "string list \<Rightarrow> string list \<Rightarrow> string list \<Rightarrow> json" where
  "feature_check local remote missing =
    (if missing = [] then
       json_obj [(''name'', JStr ''features''), (''ok'', JBool True), (''local'', json_strs local),
         (''remote'', json_strs remote), (''severity'', JStr ''info''),
         (''message'', JStr ''remote advertises all locally required data-plane features'')]
     else
       json_obj [(''name'', JStr ''features''), (''ok'', JBool False), (''local'', json_strs local),
         (''remote'', json_strs remote), (''severity'', JStr ''error''),
         (''message'', JStr ''remote is missing required data-plane features''),
         (''missing'', json_strs missing)])"

definition check_passes :: "json \<Rightarrow> bool" where
  "check_passes check \<longleftrightarrow> Option.bind (json_get check ''severity'') as_str \<noteq> Some ''error''"

definition protocol_compatibility_report ::
  "u16 \<Rightarrow> u16 option \<Rightarrow> u16 \<Rightarrow> u16 option \<Rightarrow> string list \<Rightarrow> string list \<Rightarrow> ProtocolCompatibilityReport" where
  "protocol_compatibility_report local_control remote_control local_peer remote_peer local_features remote_features =
    (let local_set = feature_set_new local_features;
         remote_set = feature_set_new remote_features;
         missing = missing_from local_set remote_set;
         common = common_with local_set remote_set;
         checks = [control_api_check local_control remote_control,
                   peer_protocol_check local_peer remote_peer,
                   feature_check local_features remote_features missing] in
     \<lparr>cr_checks = checks, cr_compatible = list_all check_passes checks,
      cr_missing_features = missing, cr_common_features = common\<rparr>)"

definition classify_protocol_compatibility ::
  "ControlApiVersion \<Rightarrow> ControlApiVersion option \<Rightarrow> PeerProtocolVersion \<Rightarrow> PeerProtocolVersion option
    \<Rightarrow> FeatureSet \<Rightarrow> FeatureSet \<Rightarrow> VersionCompatibility" where
  "classify_protocol_compatibility local_control remote_control local_peer remote_peer local_features remote_features =
    (if (case remote_control of None \<Rightarrow> False | Some r \<Rightarrow> \<not> is_supported_by r local_control) then UpgradeLocal
     else if (case remote_peer of None \<Rightarrow> False | Some r \<Rightarrow> peer_value r > peer_value local_peer) then UpgradeLocal
     else if remote_control = None \<or> remote_peer = None then UpgradeRemote
     else if (case remote_peer of None \<Rightarrow> False | Some r \<Rightarrow> \<not> matches_required r local_peer) then UpgradeRemote
     else
       (let missing = missing_from local_features remote_features in
        if missing \<noteq> [] then Incompatible (''remote is missing required features: '' @ str_join '', '' missing)
        else Compatible))"

section \<open>Dotted versions\<close>

datatype ordering = Less | Equal | Greater

fun cmp_parts :: "u64 list \<Rightarrow> u64 list \<Rightarrow> ordering" where
  "cmp_parts [] [] = Equal"
| "cmp_parts [] (_ # _) = Less"
| "cmp_parts (_ # _) [] = Greater"
| "cmp_parts (a # as) (b # bs) = (if a < b then Less else if b < a then Greater else cmp_parts as bs)"

fun collect_parts :: "string list \<Rightarrow> u64 list option" where
  "collect_parts [] = Some []"
| "collect_parts (s # ss) =
    (case parse_u64 s of
       None \<Rightarrow> None
     | Some n \<Rightarrow> map_option (\<lambda>ns. n # ns) (collect_parts ss))"

definition parse_dotted_version :: "string \<Rightarrow> u64 list option" where
  "parse_dotted_version value =
    (let core = (case split_once value ''-'' of Some (core, _) \<Rightarrow> core | None \<Rightarrow> value) in
     case collect_parts (split_char CHR ''.'' core) of
       None \<Rightarrow> None
     | Some parts \<Rightarrow> if parts \<noteq> [] then Some parts else None)"

definition compare_dotted_versions :: "string \<Rightarrow> string \<Rightarrow> ordering option" where
  "compare_dotted_versions left right =
    (case parse_dotted_version left of
       None \<Rightarrow> None
     | Some l \<Rightarrow> (case parse_dotted_version right of
         None \<Rightarrow> None
       | Some r \<Rightarrow> Some (cmp_parts l r)))"

section \<open>Properties\<close>

lemma check_passes_version: "check_passes (version_check n ok l r sev msg) \<longleftrightarrow> sev \<noteq> ''error''"
  by (simp add: check_passes_def version_check_def)

lemma control_check_passes: "check_passes (control_api_check l r) \<longleftrightarrow> (\<exists>v. r = Some v \<and> v \<le> l)"
  by (auto simp: control_api_check_def check_passes_version split: option.splits)

lemma peer_check_passes: "check_passes (peer_protocol_check l r) \<longleftrightarrow> r = Some l"
  by (auto simp: peer_protocol_check_def check_passes_version split: option.splits)

lemma feature_check_passes: "check_passes (feature_check l r missing) \<longleftrightarrow> missing = []"
  by (simp add: feature_check_def check_passes_def)

lemma report_compatible_iff:
  "cr_compatible (protocol_compatibility_report lc rc lp rp lf rf) \<longleftrightarrow>
    (\<exists>v. rc = Some v \<and> v \<le> lc) \<and> rp = Some lp \<and> set lf \<subseteq> set rf"
  by (auto simp: protocol_compatibility_report_def Let_def control_check_passes peer_check_passes
      feature_check_passes missing_from_def feature_set_new_def filter_empty_conv)

lemma classify_compatible_iff:
  "classify_protocol_compatibility (ControlApiVersion lc) (map_option ControlApiVersion rc)
      (PeerProtocolVersion lp) (map_option PeerProtocolVersion rp) lf rf = Compatible \<longleftrightarrow>
    (\<exists>v. rc = Some v \<and> v \<le> lc) \<and> rp = Some lp \<and> set (fs_features lf) \<subseteq> set (fs_features rf)"
  by (auto simp: classify_protocol_compatibility_def is_supported_by_def matches_required_def missing_from_def
      filter_empty_conv Let_def split: option.splits if_splits)

text \<open>
  C17. The compatibility report and the classification agree: a remote peer is reported as compatible
  exactly when the daemon classifies it as compatible, which is exactly when it advertises a control
  API no newer than ours, the same peer protocol and all of our features.
\<close>

theorem compatibility_report_agrees_with_classification:
  "cr_compatible (protocol_compatibility_report lc rc lp rp lf rf) =
      (classify_protocol_compatibility (ControlApiVersion lc) (map_option ControlApiVersion rc)
        (PeerProtocolVersion lp) (map_option PeerProtocolVersion rp)
        (feature_set_new lf) (feature_set_new rf) = Compatible)
    \<and> cr_compatible (protocol_compatibility_report lc rc lp rp lf rf) =
      ((\<exists>v. rc = Some v \<and> v \<le> lc) \<and> rp = Some lp \<and> set lf \<subseteq> set rf)"
  unfolding classify_compatible_iff report_compatible_iff by (simp add: feature_set_new_def)

lemma cmp_parts_antisym:
  "cmp_parts b a = (case cmp_parts a b of Less \<Rightarrow> Greater | Equal \<Rightarrow> Equal | Greater \<Rightarrow> Less)"
  by (induction a b rule: cmp_parts.induct) auto

lemma cmp_parts_Equal: "cmp_parts a b = Equal \<longleftrightarrow> a = b"
  by (induction a b rule: cmp_parts.induct) auto

lemma cmp_parts_trans: "cmp_parts a b = Less \<Longrightarrow> cmp_parts b c = Less \<Longrightarrow> cmp_parts a c = Less"
proof (induction a b arbitrary: c rule: cmp_parts.induct)
  case (2 b bs)
  then show ?case by (cases c) auto
next
  case (4 a as b bs)
  then show ?case by (cases c) (auto split: if_splits)
qed auto

text \<open>
  Release versions are totally ordered by their numeric parts: whenever three versions parse, their
  comparison is antisymmetric and transitive, and equal exactly on equal parts; a pre-release suffix
  is ignored.
\<close>

theorem dotted_versions_ordered:
  assumes "parse_dotted_version a = Some x" "parse_dotted_version b = Some y" "parse_dotted_version c = Some z"
  shows "compare_dotted_versions b a =
      map_option (\<lambda>r. case r of Less \<Rightarrow> Greater | Equal \<Rightarrow> Equal | Greater \<Rightarrow> Less) (compare_dotted_versions a b)
    \<and> (compare_dotted_versions a b = Some Equal \<longleftrightarrow> x = y)
    \<and> (compare_dotted_versions a b = Some Less \<and> compare_dotted_versions b c = Some Less
        \<longrightarrow> compare_dotted_versions a c = Some Less)"
  using assms cmp_parts_antisym [of y x] cmp_parts_Equal [of x y] cmp_parts_trans [of x y z]
  by (simp add: compare_dotted_versions_def)

theorem dotted_versions_ordered_witness:
  "compare_dotted_versions ''0.9.12'' ''0.10.0'' = Some Less \<and> compare_dotted_versions ''0.10.0'' ''0.9.12'' = Some Greater"
proof -
  have p: "parse_dotted_version ''0.9.12'' = Some [0, 9, 12]" "parse_dotted_version ''0.10.0'' = Some [0, 10, 0]"
    by (simp_all add: parse_dotted_version_def parse_u64_def parse_unsigned_def digit_val_def starts_with_def)
  then have "compare_dotted_versions ''0.9.12'' ''0.10.0'' = Some Less"
    by (simp add: compare_dotted_versions_def)
  then show ?thesis
    using dotted_versions_ordered [OF p p(2)] by simp
qed

end
