(* ===== verification/Control_Commands.thy ===== *)
theory Control_Commands
  imports Rust_Strings
begin

text \<open>
  The commands of the daemon's control protocol (\<^verbatim>\<open>protocol_core/control.rs\<close> in the protocol crate and
  \<^verbatim>\<open>control.rs\<close> in the daemon crate): parsing of a command word, its canonical name, the payload it
  carries, and the request kind the daemon dispatches on.  The two crates keep separate tables of the
  command words; the lemmas show that the tables agree.
\<close>

section \<open>Commands\<close>

datatype DaemonControlCommand =
    Status | Descriptor | Links | Shutdown | Nodes | Jobs | JobStatus | JobEvents | EnsureProxySession |
    ProxySessionStatus | ProxySessionDown | DaemonUpdate | ApplyRemoteSettings | NodeEnsure | NodeStart |
    NodeStop | NodeRestart | Connect | Disconnect | RouteStart | RoutePlan | RouteIntent | RouteStop |
    RouteRestart | RouteList | PeerList | RemotePeerEnsure | RemotePeerStatus | RemotePeerRepair |
    RemotePeerUpdate | TokenRotate | PeerBootstrap | PeerEnsure | PeerUpdate | PeerRefresh | PeerDiff |
    PeerReconcile | PeerCheckVersion | PeerRotateToken | PeerForget | Report | Unknown string

datatype DaemonControlPayloadShape =
    Empty | Profile | Id | RouteStart | RouteArgs | PeerBootstrap | Report | ProxySession | RemoteSettings |
    DaemonUpdate | JobEvents | Unknown

definition replace_char :: "char \<Rightarrow> char \<Rightarrow> string \<Rightarrow> string" where
  "replace_char a b s = map (\<lambda>c. if c = a then b else c) s"

definition normalize_command :: "string \<Rightarrow> string" where
  "normalize_command value = replace_char CHR ''-'' CHR ''_'' (to_ascii_lowercase (trim value))"

text \<open>The arms of the match in \<^verbatim>\<open>DaemonControlCommand::parse\<close>.\<close>

definition command_table :: "(string \<times> DaemonControlCommand) list" where
  "command_table = [
    ('''', DaemonControlCommand.Status), (''status'', DaemonControlCommand.Status),
    (''descriptor'', DaemonControlCommand.Descriptor), (''describe'', DaemonControlCommand.Descriptor),
    (''links'', DaemonControlCommand.Links), (''shutdown'', DaemonControlCommand.Shutdown),
    (''nodes'', DaemonControlCommand.Nodes), (''node_list'', DaemonControlCommand.Nodes),
    (''jobs'', DaemonControlCommand.Jobs), (''job_list'', DaemonControlCommand.Jobs),
    (''job_status'', DaemonControlCommand.JobStatus), (''job_events'', DaemonControlCommand.JobEvents),
    (''ensure_proxy_session'', DaemonControlCommand.EnsureProxySession),
    (''proxy_session_status'', DaemonControlCommand.ProxySessionStatus),
    (''proxy_session_down'', DaemonControlCommand.ProxySessionDown),
    (''daemon_update'', DaemonControlCommand.DaemonUpdate),
    (''apply_remote_settings'', DaemonControlCommand.ApplyRemoteSettings),
    (''node_ensure'', DaemonControlCommand.NodeEnsure), (''node_start'', DaemonControlCommand.NodeStart),
    (''node_stop'', DaemonControlCommand.NodeStop), (''node_restart'', DaemonControlCommand.NodeRestart),
    (''connect'', DaemonControlCommand.Connect), (''disconnect'', DaemonControlCommand.Disconnect),
    (''route_start'', DaemonControlCommand.RouteStart), (''route_plan'', DaemonControlCommand.RoutePlan),
    (''route_intent'', DaemonControlCommand.RouteIntent), (''route_stop'', DaemonControlCommand.RouteStop),
    (''route_restart'', DaemonControlCommand.RouteRestart), (''route_list'', DaemonControlCommand.RouteList),
    (''routes'', DaemonControlCommand.RouteList), (''peer_list'', DaemonControlCommand.PeerList),
    (''peers'', DaemonControlCommand.PeerList),
    (''remote_peer_ensure'', DaemonControlCommand.RemotePeerEnsure),
    (''remote_peer_status'', DaemonControlCommand.RemotePeerStatus),
    (''remote_peer_repair'', DaemonControlCommand.RemotePeerRepair),
    (''remote_peer_update'', DaemonControlCommand.RemotePeerUpdate),
    (''token_rotate'', DaemonControlCommand.TokenRotate),
    (''peer_bootstrap'', DaemonControlCommand.PeerBootstrap),
    (''peer_ensure'', DaemonControlCommand.PeerEnsure), (''peer_update'', DaemonControlCommand.PeerUpdate),
    (''peer_refresh'', DaemonControlCommand.PeerRefresh), (''peer_diff'', DaemonControlCommand.PeerDiff),
    (''peer_reconcile'', DaemonControlCommand.PeerReconcile),
    (''peer_check_version'', DaemonControlCommand.PeerCheckVersion),
    (''peer_rotate_token'', DaemonControlCommand.PeerRotateToken),
    (''peer_forget'', DaemonControlCommand.PeerForget), (''report'', DaemonControlCommand.Report)]"

definition command_parse :: "string \<Rightarrow> DaemonControlCommand" where
  "command_parse value =
    (let lower = to_ascii_lowercase (trim value);
         normalized = normalize_command lower in
     case map_of command_table normalized of
       Some c \<Rightarrow> c
     | None \<Rightarrow> DaemonControlCommand.Unknown lower)"

fun canonical_name :: "DaemonControlCommand \<Rightarrow> string" where
  "canonical_name DaemonControlCommand.Status = ''status''"
| "canonical_name DaemonControlCommand.Descriptor = ''descriptor''"
| "canonical_name DaemonControlCommand.Links = ''links''"
| "canonical_name DaemonControlCommand.Shutdown = ''shutdown''"
| "canonical_name DaemonControlCommand.Nodes = ''nodes''"
| "canonical_name DaemonControlCommand.Jobs = ''jobs''"
| "canonical_name DaemonControlCommand.JobStatus = ''job_status''"
| "canonical_name DaemonControlCommand.JobEvents = ''job_events''"
| "canonical_name DaemonControlCommand.EnsureProxySession = ''ensure_proxy_session''"
| "canonical_name DaemonControlCommand.ProxySessionStatus = ''proxy_session_status''"
| "canonical_name DaemonControlCommand.ProxySessionDown = ''proxy_session_down''"
| "canonical_name DaemonControlCommand.DaemonUpdate = ''daemon_update''"
| "canonical_name DaemonControlCommand.ApplyRemoteSettings = ''apply_remote_settings''"
| "canonical_name DaemonControlCommand.NodeEnsure = ''node_ensure''"
| "canonical_name DaemonControlCommand.NodeStart = ''node_start''"
| "canonical_name DaemonControlCommand.NodeStop = ''node_stop''"
| "canonical_name DaemonControlCommand.NodeRestart = ''node_restart''"
| "canonical_name DaemonControlCommand.Connect = ''connect''"
| "canonical_name DaemonControlCommand.Disconnect = ''disconnect''"
| "canonical_name DaemonControlCommand.RouteStart = ''route_start''"
| "canonical_name DaemonControlCommand.RoutePlan = ''route_plan''"
| "canonical_name DaemonControlCommand.RouteIntent = ''route_intent''"
| "canonical_name DaemonControlCommand.RouteStop = ''route_stop''"
| "canonical_name DaemonControlCommand.RouteRestart = ''route_restart''"
| "canonical_name DaemonControlCommand.RouteList = ''route_list''"
| "canonical_name DaemonControlCommand.PeerList = ''peer_list''"
| "canonical_name DaemonControlCommand.RemotePeerEnsure = ''remote_peer_ensure''"
| "canonical_name DaemonControlCommand.RemotePeerStatus = ''remote_peer_status''"
| "canonical_name DaemonControlCommand.RemotePeerRepair = ''remote_peer_repair''"
| "canonical_name DaemonControlCommand.RemotePeerUpdate = ''remote_peer_update''"
| "canonical_name DaemonControlCommand.TokenRotate = ''token_rotate''"
| "canonical_name DaemonControlCommand.PeerBootstrap = ''peer_bootstrap''"
| "canonical_name DaemonControlCommand.PeerEnsure = ''peer_ensure''"
| "canonical_name DaemonControlCommand.PeerUpdate = ''peer_update''"
| "canonical_name DaemonControlCommand.PeerRefresh = ''peer_refresh''"
| "canonical_name DaemonControlCommand.PeerDiff = ''peer_diff''"
| "canonical_name DaemonControlCommand.PeerReconcile = ''peer_reconcile''"
| "canonical_name DaemonControlCommand.PeerCheckVersion = ''peer_check_version''"
| "canonical_name DaemonControlCommand.PeerRotateToken = ''peer_rotate_token''"
| "canonical_name DaemonControlCommand.PeerForget = ''peer_forget''"
| "canonical_name DaemonControlCommand.Report = ''report''"
| "canonical_name (DaemonControlCommand.Unknown value) = value"

fun command_is_unknown :: "DaemonControlCommand \<Rightarrow> bool" where
  "command_is_unknown (DaemonControlCommand.Unknown _) = True"
| "command_is_unknown _ = False"

fun payload_shape :: "DaemonControlCommand \<Rightarrow> DaemonControlPayloadShape" where
  "payload_shape DaemonControlCommand.Status = DaemonControlPayloadShape.Empty"
| "payload_shape DaemonControlCommand.Descriptor = DaemonControlPayloadShape.Empty"
| "payload_shape DaemonControlCommand.Links = DaemonControlPayloadShape.Empty"
| "payload_shape DaemonControlCommand.Shutdown = DaemonControlPayloadShape.Empty"
| "payload_shape DaemonControlCommand.Nodes = DaemonControlPayloadShape.Empty"
| "payload_shape DaemonControlCommand.Jobs = DaemonControlPayloadShape.Empty"
| "payload_shape DaemonControlCommand.JobStatus = DaemonControlPayloadShape.Id"
| "payload_shape DaemonControlCommand.JobEvents = DaemonControlPayloadShape.JobEvents"
| "payload_shape DaemonControlCommand.EnsureProxySession = DaemonControlPayloadShape.ProxySession"
| "payload_shape DaemonControlCommand.ProxySessionStatus = DaemonControlPayloadShape.ProxySession"
| "payload_shape DaemonControlCommand.ProxySessionDown = DaemonControlPayloadShape.ProxySession"
| "payload_shape DaemonControlCommand.DaemonUpdate = DaemonControlPayloadShape.DaemonUpdate"
| "payload_shape DaemonControlCommand.ApplyRemoteSettings = DaemonControlPayloadShape.RemoteSettings"
| "payload_shape DaemonControlCommand.NodeEnsure = DaemonControlPayloadShape.Empty"
| "payload_shape DaemonControlCommand.NodeStart = DaemonControlPayloadShape.Id"
| "payload_shape DaemonControlCommand.NodeStop = DaemonControlPayloadShape.Id"
| "payload_shape DaemonControlCommand.NodeRestart = DaemonControlPayloadShape.Id"
| "payload_shape DaemonControlCommand.Connect = DaemonControlPayloadShape.Profile"
| "payload_shape DaemonControlCommand.Disconnect = DaemonControlPayloadShape.Profile"
| "payload_shape DaemonControlCommand.RouteStart = DaemonControlPayloadShape.RouteStart"
| "payload_shape DaemonControlCommand.RoutePlan = DaemonControlPayloadShape.RouteArgs"
| "payload_shape DaemonControlCommand.RouteIntent = DaemonControlPayloadShape.RouteArgs"
| "payload_shape DaemonControlCommand.RouteStop = DaemonControlPayloadShape.Id"
| "payload_shape DaemonControlCommand.RouteRestart = DaemonControlPayloadShape.Id"
| "payload_shape DaemonControlCommand.RouteList = DaemonControlPayloadShape.Empty"
| "payload_shape DaemonControlCommand.PeerList = DaemonControlPayloadShape.Empty"
| "payload_shape DaemonControlCommand.RemotePeerEnsure = DaemonControlPayloadShape.PeerBootstrap"
| "payload_shape DaemonControlCommand.RemotePeerStatus = DaemonControlPayloadShape.PeerBootstrap"
| "payload_shape DaemonControlCommand.RemotePeerRepair = DaemonControlPayloadShape.PeerBootstrap"
| "payload_shape DaemonControlCommand.RemotePeerUpdate = DaemonControlPayloadShape.PeerBootstrap"
| "payload_shape DaemonControlCommand.TokenRotate = DaemonControlPayloadShape.Empty"
| "payload_shape DaemonControlCommand.PeerBootstrap = DaemonControlPayloadShape.PeerBootstrap"
| "payload_shape DaemonControlCommand.PeerEnsure = DaemonControlPayloadShape.PeerBootstrap"
| "payload_shape DaemonControlCommand.PeerUpdate = DaemonControlPayloadShape.PeerBootstrap"
| "payload_shape DaemonControlCommand.PeerRefresh = DaemonControlPayloadShape.PeerBootstrap"
| "payload_shape DaemonControlCommand.PeerDiff = DaemonControlPayloadShape.PeerBootstrap"
| "payload_shape DaemonControlCommand.PeerReconcile = DaemonControlPayloadShape.PeerBootstrap"
| "payload_shape DaemonControlCommand.PeerCheckVersion = DaemonControlPayloadShape.PeerBootstrap"
| "payload_shape DaemonControlCommand.PeerRotateToken = DaemonControlPayloadShape.PeerBootstrap"
| "payload_shape DaemonControlCommand.PeerForget = DaemonControlPayloadShape.Id"
| "payload_shape DaemonControlCommand.Report = DaemonControlPayloadShape.Report"
| "payload_shape (DaemonControlCommand.Unknown _) = DaemonControlPayloadShape.Unknown"

section \<open>Requests\<close>

datatype NodeRequestKind =
    Connect | Disconnect | Status | Descriptor | Links | Shutdown | Nodes | Jobs | JobStatus | JobEvents |
    NodeEnsure | NodeStart | NodeStop | NodeRestart | RouteIntent | RoutePlan | RouteStart | RouteStop |
    RouteRestart | RouteList | PeerList | TokenRotate | RemotePeerEnsure | RemotePeerStatus |
    RemotePeerRepair | RemotePeerUpdate | PeerBootstrap | PeerEnsure | PeerUpdate | PeerRefresh | PeerDiff |
    PeerReconcile | PeerCheckVersion | PeerRotateToken | PeerForget | Report | EnsureProxySession |
    ProxySessionStatus | ProxySessionDown | ApplyRemoteSettings | DaemonUpdate | Unknown

text \<open>The arms of the match in \<^verbatim>\<open>NodeRequestKind::from_command\<close>.\<close>

definition kind_table :: "(string \<times> NodeRequestKind) list" where
  "kind_table = [
    (''connect'', NodeRequestKind.Connect), (''disconnect'', NodeRequestKind.Disconnect),
    ('''', NodeRequestKind.Status), (''status'', NodeRequestKind.Status),
    (''descriptor'', NodeRequestKind.Descriptor), (''describe'', NodeRequestKind.Descriptor),
    (''links'', NodeRequestKind.Links), (''shutdown'', NodeRequestKind.Shutdown),
    (''nodes'', NodeRequestKind.Nodes), (''node_list'', NodeRequestKind.Nodes),
    (''jobs'', NodeRequestKind.Jobs), (''job_list'', NodeRequestKind.Jobs),
    (''job_status'', NodeRequestKind.JobStatus), (''job_events'', NodeRequestKind.JobEvents),
    (''node_ensure'', NodeRequestKind.NodeEnsure), (''node_start'', NodeRequestKind.NodeStart),
    (''node_stop'', NodeRequestKind.NodeStop), (''node_restart'', NodeRequestKind.NodeRestart),
    (''route_intent'', NodeRequestKind.RouteIntent), (''route_plan'', NodeRequestKind.RoutePlan),
    (''route_start'', NodeRequestKind.RouteStart), (''route_stop'', NodeRequestKind.RouteStop),
    (''route_restart'', NodeRequestKind.RouteRestart), (''route_list'', NodeRequestKind.RouteList),
    (''routes'', NodeRequestKind.RouteList), (''peer_list'', NodeRequestKind.PeerList),
    (''peers'', NodeRequestKind.PeerList), (''token_rotate'', NodeRequestKind.TokenRotate),
    (''remote_peer_ensure'', NodeRequestKind.RemotePeerEnsure),
    (''remote_peer_status'', NodeRequestKind.RemotePeerStatus),
    (''remote_peer_repair'', NodeRequestKind.RemotePeerRepair),
    (''remote_peer_update'', NodeRequestKind.RemotePeerUpdate),
    (''peer_bootstrap'', NodeRequestKind.PeerBootstrap), (''peer_ensure'', NodeRequestKind.PeerEnsure),
    (''peer_update'', NodeRequestKind.PeerUpdate), (''peer_refresh'', NodeRequestKind.PeerRefresh),
    (''peer_diff'', NodeRequestKind.PeerDiff), (''peer_reconcile'', NodeRequestKind.PeerReconcile),
    (''peer_check_version'', NodeRequestKind.PeerCheckVersion),
    (''peer_rotate_token'', NodeRequestKind.PeerRotateToken), (''peer_forget'', NodeRequestKind.PeerForget),
    (''report'', NodeRequestKind.Report), (''ensure_proxy_session'', NodeRequestKind.EnsureProxySession),
    (''proxy_session_status'', NodeRequestKind.ProxySessionStatus),
    (''proxy_session_down'', NodeRequestKind.ProxySessionDown),
    (''apply_remote_settings'', NodeRequestKind.ApplyRemoteSettings),
    (''daemon_update'', NodeRequestKind.DaemonUpdate)]"

text \<open>The daemon crate has its own copy of the normalization.\<close>

definition daemon_normalize_command :: "string \<Rightarrow> string" where
  "daemon_normalize_command command = replace_char CHR ''-'' CHR ''_'' (to_ascii_lowercase (trim command))"

definition kind_from_command :: "string \<Rightarrow> NodeRequestKind" where
  "kind_from_command command =
    (case map_of kind_table (daemon_normalize_command command) of
       Some k \<Rightarrow> k
     | None \<Rightarrow> NodeRequestKind.Unknown)"

record NodeRequestView =
  rv_kind :: NodeRequestKind
  rv_command :: string
  rv_api_version :: "u16 option"
  rv_id :: "string option"
  rv_alias :: "string option"

datatype NodeRequestPayload =
    Empty
  | Profile "string option"
  | Id "string option"
  | RouteStart "string option" "string option" "bool option" bool bool "string option"
  | RouteArgs bool
  | PeerBootstrap bool
  | Report "string option" bool
  | ProxySession "string option" bool
  | RemoteSettings "string option" "string option" "string option"
  | DaemonUpdate "string option"
  | JobEvents "string option"
  | Unknown

fun empty_for_shape :: "DaemonControlPayloadShape \<Rightarrow> NodeRequestPayload" where
  "empty_for_shape DaemonControlPayloadShape.Empty = NodeRequestPayload.Empty"
| "empty_for_shape DaemonControlPayloadShape.Profile = NodeRequestPayload.Profile None"
| "empty_for_shape DaemonControlPayloadShape.Id = NodeRequestPayload.Id None"
| "empty_for_shape DaemonControlPayloadShape.RouteStart = NodeRequestPayload.RouteStart None None None False False None"
| "empty_for_shape DaemonControlPayloadShape.RouteArgs = NodeRequestPayload.RouteArgs False"
| "empty_for_shape DaemonControlPayloadShape.PeerBootstrap = NodeRequestPayload.PeerBootstrap False"
| "empty_for_shape DaemonControlPayloadShape.Report = NodeRequestPayload.Report None False"
| "empty_for_shape DaemonControlPayloadShape.ProxySession = NodeRequestPayload.ProxySession None False"
| "empty_for_shape DaemonControlPayloadShape.RemoteSettings = NodeRequestPayload.RemoteSettings None None None"
| "empty_for_shape DaemonControlPayloadShape.DaemonUpdate = NodeRequestPayload.DaemonUpdate None"
| "empty_for_shape DaemonControlPayloadShape.JobEvents = NodeRequestPayload.JobEvents None"
| "empty_for_shape DaemonControlPayloadShape.Unknown = NodeRequestPayload.Unknown"

record NodeRequestIntent =
  ri_kind :: NodeRequestKind
  ri_command :: string
  ri_api_version :: "u16 option"
  ri_id :: "string option"
  ri_alias :: "string option"
  ri_payload :: NodeRequestPayload

definition intent_new ::
  "string \<Rightarrow> u16 option \<Rightarrow> string option \<Rightarrow> string option \<Rightarrow> NodeRequestPayload \<Rightarrow> NodeRequestIntent" where
  "intent_new command api_version i alias payload =
    (let command = canonical_name (command_parse command) in
     \<lparr>ri_kind = kind_from_command command, ri_command = command, ri_api_version = api_version,
      ri_id = i, ri_alias = alias, ri_payload = payload\<rparr>)"

definition intent_view :: "NodeRequestIntent \<Rightarrow> NodeRequestView" where
  "intent_view r = \<lparr>rv_kind = ri_kind r, rv_command = ri_command r, rv_api_version = ri_api_version r,
    rv_id = ri_id r, rv_alias = ri_alias r\<rparr>"

section \<open>The tables agree\<close>

text \<open>The request kind that belongs to a command.\<close>

fun kind_of :: "DaemonControlCommand \<Rightarrow> NodeRequestKind" where
  "kind_of DaemonControlCommand.Status = NodeRequestKind.Status"
| "kind_of DaemonControlCommand.Descriptor = NodeRequestKind.Descriptor"
| "kind_of DaemonControlCommand.Links = NodeRequestKind.Links"
| "kind_of DaemonControlCommand.Shutdown = NodeRequestKind.Shutdown"
| "kind_of DaemonControlCommand.Nodes = NodeRequestKind.Nodes"
| "kind_of DaemonControlCommand.Jobs = NodeRequestKind.Jobs"
| "kind_of DaemonControlCommand.JobStatus = NodeRequestKind.JobStatus"
| "kind_of DaemonControlCommand.JobEvents = NodeRequestKind.JobEvents"
| "kind_of DaemonControlCommand.EnsureProxySession = NodeRequestKind.EnsureProxySession"
| "kind_of DaemonControlCommand.ProxySessionStatus = NodeRequestKind.ProxySessionStatus"
| "kind_of DaemonControlCommand.ProxySessionDown = NodeRequestKind.ProxySessionDown"
| "kind_of DaemonControlCommand.DaemonUpdate = NodeRequestKind.DaemonUpdate"
| "kind_of DaemonControlCommand.ApplyRemoteSettings = NodeRequestKind.ApplyRemoteSettings"
| "kind_of DaemonControlCommand.NodeEnsure = NodeRequestKind.NodeEnsure"
| "kind_of DaemonControlCommand.NodeStart = NodeRequestKind.NodeStart"
| "kind_of DaemonControlCommand.NodeStop = NodeRequestKind.NodeStop"
| "kind_of DaemonControlCommand.NodeRestart = NodeRequestKind.NodeRestart"
| "kind_of DaemonControlCommand.Connect = NodeRequestKind.Connect"
| "kind_of DaemonControlCommand.Disconnect = NodeRequestKind.Disconnect"
| "kind_of DaemonControlCommand.RouteStart = NodeRequestKind.RouteStart"
| "kind_of DaemonControlCommand.RoutePlan = NodeRequestKind.RoutePlan"
| "kind_of DaemonControlCommand.RouteIntent = NodeRequestKind.RouteIntent"
| "kind_of DaemonControlCommand.RouteStop = NodeRequestKind.RouteStop"
| "kind_of DaemonControlCommand.RouteRestart = NodeRequestKind.RouteRestart"
| "kind_of DaemonControlCommand.RouteList = NodeRequestKind.RouteList"
| "kind_of DaemonControlCommand.PeerList = NodeRequestKind.PeerList"
| "kind_of DaemonControlCommand.RemotePeerEnsure = NodeRequestKind.RemotePeerEnsure"
| "kind_of DaemonControlCommand.RemotePeerStatus = NodeRequestKind.RemotePeerStatus"
| "kind_of DaemonControlCommand.RemotePeerRepair = NodeRequestKind.RemotePeerRepair"
| "kind_of DaemonControlCommand.RemotePeerUpdate = NodeRequestKind.RemotePeerUpdate"
| "kind_of DaemonControlCommand.TokenRotate = NodeRequestKind.TokenRotate"
| "kind_of DaemonControlCommand.PeerBootstrap = NodeRequestKind.PeerBootstrap"
| "kind_of DaemonControlCommand.PeerEnsure = NodeRequestKind.PeerEnsure"
| "kind_of DaemonControlCommand.PeerUpdate = NodeRequestKind.PeerUpdate"
| "kind_of DaemonControlCommand.PeerRefresh = NodeRequestKind.PeerRefresh"
| "kind_of DaemonControlCommand.PeerDiff = NodeRequestKind.PeerDiff"
| "kind_of DaemonControlCommand.PeerReconcile = NodeRequestKind.PeerReconcile"
| "kind_of DaemonControlCommand.PeerCheckVersion = NodeRequestKind.PeerCheckVersion"
| "kind_of DaemonControlCommand.PeerRotateToken = NodeRequestKind.PeerRotateToken"
| "kind_of DaemonControlCommand.PeerForget = NodeRequestKind.PeerForget"
| "kind_of DaemonControlCommand.Report = NodeRequestKind.Report"
| "kind_of (DaemonControlCommand.Unknown _) = NodeRequestKind.Unknown"

text \<open>Command words: lower-case letters and underscores, which normalization leaves alone.\<close>

definition word_char :: "char \<Rightarrow> bool" where
  "word_char c \<longleftrightarrow> (97 \<le> (of_char c :: nat) \<and> (of_char c :: nat) \<le> 122) \<or> c = CHR ''_''"

lemma word_char_facts:
  assumes "word_char c"
  shows "char_to_lower c = c" "c \<noteq> CHR ''-''"
  using assms by (auto simp: word_char_def char_to_lower_def is_ascii_uppercase_def)

lemma whitespace_not_word: "\<forall>w\<in>set whitespace. \<forall>c\<in>set w. \<not> word_char c"
  by code_simp

lemma trimmed_word:
  assumes "\<forall>c\<in>set s. word_char c" "\<forall>w\<in>set ws. \<forall>c\<in>set w. \<not> word_char c"
  shows "trimmed_of ws s"
  unfolding trimmed_of_def
proof (intro ballI impI notI)
  fix w assume w: "w \<in> set ws" "w \<noteq> []" "starts_with s w"
  then obtain t where "s = w @ t"
    by (auto simp: starts_with_iff)
  then show False
    using assms w(1,2) by (cases w) auto
qed

lemma normalize_word:
  assumes "\<forall>c\<in>set s. word_char c"
  shows "normalize_command s = s"
proof -
  have "trim s = s"
    using assms whitespace_not_word by (intro trim_fixed trimmed_word) auto
  moreover have "to_ascii_lowercase s = s" "replace_char CHR ''-'' CHR ''_'' s = s"
    using assms word_char_facts by (auto simp: to_ascii_lowercase_def replace_char_def map_idI)
  ultimately show ?thesis
    by (simp add: normalize_command_def)
qed

lemma normalize_lower [simp]:
  "normalize_command (to_ascii_lowercase (trim v)) = normalize_command v"
  by (simp add: normalize_command_def)

lemma daemon_normalize_eq: "daemon_normalize_command = normalize_command"
  by (simp add: fun_eq_iff normalize_command_def daemon_normalize_command_def)

lemma kind_table_entries: "\<forall>(s, c)\<in>set command_table. map_of kind_table s = Some (kind_of c)"
  by code_simp

lemma kind_table_keys: "\<forall>s\<in>set (map fst kind_table). map_of command_table s \<noteq> None"
  by code_simp

lemma canonical_entries: "\<forall>c\<in>snd ` set command_table. map_of command_table (canonical_name c) = Some c"
  by code_simp

lemma canonical_words: "\<forall>c\<in>snd ` set command_table. \<forall>ch\<in>set (canonical_name c). word_char ch"
  by code_simp

lemma known_in_table: "\<not> command_is_unknown c \<Longrightarrow> c \<in> snd ` set command_table"
  unfolding command_table_def by (cases c) simp_all

lemma tables_agree: "map_of kind_table s = map_option kind_of (map_of command_table s)"
proof (cases "map_of command_table s")
  case None
  then have "s \<notin> set (map fst kind_table)"
    using kind_table_keys by blast
  then show ?thesis
    using None by (metis map_of_eq_None_iff list.set_map option.map(1))
next
  case (Some c)
  then show ?thesis
    using kind_table_entries map_of_SomeD [OF Some] by auto
qed

lemma table_in_range: "map_of command_table s = Some c \<Longrightarrow> c \<in> snd ` set command_table"
  by (force dest: map_of_SomeD)

lemma parse_known:
  assumes "c \<in> snd ` set command_table"
  shows "command_parse (canonical_name c) = c" "kind_from_command (canonical_name c) = kind_of c"
proof -
  have "normalize_command (canonical_name c) = canonical_name c"
    using canonical_words assms by (intro normalize_word) blast
  moreover have "map_of command_table (canonical_name c) = Some c"
    using canonical_entries assms by blast
  ultimately show "command_parse (canonical_name c) = c" "kind_from_command (canonical_name c) = kind_of c"
    by (simp_all add: command_parse_def kind_from_command_def daemon_normalize_eq tables_agree)
qed

section \<open>Properties\<close>

text \<open>
  Command words are stable under parsing: the canonical name of any parsed command parses to the
  same command, whatever the spelling of the original (case, dashes, surrounding white space), and
  every known command is reachable by its canonical name.
\<close>

theorem command_parse_canonical:
  "command_parse (canonical_name (command_parse v)) = command_parse v
    \<and> (command_is_unknown c \<or> command_parse (canonical_name c) = c)"
proof
  show "command_parse (canonical_name (command_parse v)) = command_parse v"
  proof (cases "map_of command_table (normalize_command v)")
    case None
    then show ?thesis
      by (simp add: command_parse_def)
  next
    case (Some c)
    then have "command_parse v = c"
      by (simp add: command_parse_def)
    then show ?thesis
      using parse_known(1) [OF table_in_range [OF Some]] by simp
  qed
  show "command_is_unknown c \<or> command_parse (canonical_name c) = c"
    using parse_known(1) known_in_table by blast
qed

text \<open>
  The daemon dispatches a request on the command the protocol crate parsed: the kind of a request
  built from any command word is the kind of the parsed command, so the two tables of command words,
  kept in different crates, never disagree; unknown words become unknown requests.
\<close>

theorem request_kind_agrees_with_command:
  "ri_kind (intent_new command api i alias payload) = kind_of (command_parse command)
    \<and> kind_from_command command = kind_of (command_parse command)"
proof (cases "map_of command_table (normalize_command command)")
  case None
  then show ?thesis
    by (simp add: intent_new_def command_parse_def kind_from_command_def daemon_normalize_eq tables_agree)
next
  case (Some c)
  then have "command_parse command = c" "kind_from_command command = kind_of c"
    by (simp_all add: command_parse_def kind_from_command_def daemon_normalize_eq tables_agree)
  then show ?thesis
    using parse_known(2) [OF table_in_range [OF Some]] by (simp add: intent_new_def)
qed

end
