(* ===== verification/Route_Decision.thy ===== *)
theory Route_Decision
  imports Core_Model Ip_Addr
begin

text \<open>
  The policies of the route crate: which transport a route uses (\<^verbatim>\<open>ssh-proxy-route/src/decision.rs\<close>), how large its
  pools are (\<^verbatim>\<open>policy.rs\<close>) and how a remote machine reaches the local daemon (\<^verbatim>\<open>remote_use.rs\<close>).
\<close>

section \<open>Socket addresses\<close>

text \<open>\<^verbatim>\<open>std::net::SocketAddr\<close>, without the flow label and the scope identifier of IPv6 addresses.\<close>

record SocketAddr =
  sa_ip :: ip_addr
  sa_port :: u16

definition socket_show :: "SocketAddr \<Rightarrow> string" where
  "socket_show a =
    (case sa_ip a of
       V4 _ \<Rightarrow> ip_display (sa_ip a)
     | V6 _ \<Rightarrow> ''['' @ ip_display (sa_ip a) @ '']'') @ '':'' @ show_nat (unat (sa_port a))"

definition is_loopback :: "ip_addr \<Rightarrow> bool" where
  "is_loopback a =
    (case a of
       V4 octets \<Rightarrow> take 1 octets = [127]
     | V6 octets \<Rightarrow> octets = replicate 15 0 @ [1])"

section \<open>Selecting a transport\<close>

datatype decision_error = InvalidRemoteTransport string

record TransportSelection =
  ts_transport :: TransportMode
  ts_source :: string
  ts_reason :: string

record ConnectionDecision =
  cd_selected_transport :: string
  cd_source :: string
  cd_reason :: string
  cd_endpoint :: "string option"
  cd_requires_external_ssh :: bool

record PeerReadinessInput =
  has_remote_path :: bool
  has_control_endpoint :: bool
  has_transport :: bool
  has_tls_transport :: bool
  has_quic_transport :: bool

record TransportSelectionPolicyInput =
  requested_transport :: TransportMode
  profile_remote_transport :: "string option"
  defaults_remote_transport :: "string option"
  remote_quic :: "SocketAddr option"
  remote_tls :: "SocketAddr option"
  allow_plain_tcp :: bool
  cli_allow_plain_tcp :: bool
  profile_allow_plain_tcp :: "bool option"
  defaults_allow_plain_tcp :: "bool option"
  tcp_target_present :: bool
  remote_side_listens :: bool
  peer_ready :: bool

definition persistent_peer_ready :: "PeerReadinessInput \<Rightarrow> bool" where
  "persistent_peer_ready input \<longleftrightarrow> has_remote_path input \<and> has_control_endpoint input \<and>
    (has_transport input \<or> has_tls_transport input \<or> has_quic_transport input)"

definition opt_or :: "'a option \<Rightarrow> 'a option \<Rightarrow> 'a option" where
  "opt_or a b = (case a of None \<Rightarrow> b | Some x \<Rightarrow> Some x)"

definition direct_endpoint_for_peer :: "SocketAddr option \<Rightarrow> SocketAddr option \<Rightarrow> SocketAddr option \<Rightarrow> SocketAddr option" where
  "direct_endpoint_for_peer transport tls_transport quic_transport = opt_or (opt_or tls_transport quic_transport) transport"

fun remote_transport_name :: "TransportMode \<Rightarrow> string" where
  "remote_transport_name TransportMode.Auto = ''auto''"
| "remote_transport_name SshNative = ''ssh-native''"
| "remote_transport_name QuicNative = ''quic-native''"
| "remote_transport_name Quic = ''quic''"
| "remote_transport_name TlsTcp = ''tls-tcp''"
| "remote_transport_name PlainTcp = ''plain-tcp''"
| "remote_transport_name Exec = ''ssh-exec''"
| "remote_transport_name Tcp = ''ssh-direct-tcpip''"

definition decision_from_transport :: "TransportMode \<Rightarrow> string \<Rightarrow> string \<Rightarrow> ConnectionDecision" where
  "decision_from_transport transport source reason =
    \<lparr>cd_selected_transport = remote_transport_name transport, cd_source = source, cd_reason = reason,
     cd_endpoint = None, cd_requires_external_ssh = (transport = Exec)\<rparr>"

definition connection_with_endpoint :: "string \<Rightarrow> ConnectionDecision \<Rightarrow> ConnectionDecision" where
  "connection_with_endpoint endpoint d = d\<lparr>cd_endpoint := Some endpoint\<rparr>"

definition parse_transport_mode :: "string \<Rightarrow> (decision_error, TransportMode) result" where
  "parse_transport_mode value =
    (let v = to_ascii_lowercase value in
     if v = ''auto'' then Inr TransportMode.Auto
     else if v \<in> set [''quic-native'', ''quic_native'', ''native-quic'', ''native_quic''] then Inr QuicNative
     else if v \<in> set [''ssh-native'', ''ssh_native'', ''native-ssh'', ''native_ssh''] then Inr SshNative
     else if v = ''quic'' then Inr Quic
     else if v \<in> set [''tls-tcp'', ''tls_tcp'', ''tls''] then Inr TlsTcp
     else if v \<in> set [''plain-tcp'', ''plain_tcp'', ''tcp-plain'', ''direct-tcp'', ''direct_tcp''] then Inr PlainTcp
     else if v = ''exec'' then Inr Exec
     else if v = ''tcp'' then Inr Tcp
     else Inl (InvalidRemoteTransport v))"

definition plain_tcp_auto_source :: "TransportSelectionPolicyInput \<Rightarrow> string option" where
  "plain_tcp_auto_source input =
    (if cli_allow_plain_tcp input then Some ''cli''
     else if profile_allow_plain_tcp input = Some True then Some ''profile''
     else if defaults_allow_plain_tcp input = Some True then Some ''benchmark-tuned default''
     else None)"

definition plain_tcp_selection_reason :: "string \<Rightarrow> string" where
  "plain_tcp_selection_reason source =
    ''plain TCP peer transport is enabled by '' @ source @ ''; use only for lab or private trusted links''"

definition unwrap_or :: "'a option \<Rightarrow> 'a \<Rightarrow> 'a" where
  "unwrap_or x d = (case x of None \<Rightarrow> d | Some y \<Rightarrow> y)"

definition select :: "TransportMode \<Rightarrow> string \<Rightarrow> string \<Rightarrow> (decision_error, TransportSelection) result" where
  "select transport source reason = Inr \<lparr>ts_transport = transport, ts_source = source, ts_reason = reason\<rparr>"

text \<open>What is left once neither the command line, the profile, an endpoint nor the defaults decide.\<close>

definition fallback_selection :: "TransportSelectionPolicyInput \<Rightarrow> (decision_error, TransportSelection) result" where
  "fallback_selection input =
    (if allow_plain_tcp input then
       let source = unwrap_or (plain_tcp_auto_source input) ''cli'' in
       select PlainTcp source (plain_tcp_selection_reason source)
     else if peer_ready input then
       select Tcp ''peer-default''
         ''persistent remote peer is recorded; using SPX over Rust SSH direct-tcpip to the peer transport''
     else
       let workload =
         (if tcp_target_present input then ''fixed --tcp-target route''
          else if remote_side_listens input then ''remote-owned proxy route''
          else ''SOCKS/HTTP proxy route'') in
       select SshNative ''topology''
         (''no reachable direct peer transport is configured for this '' @ workload @
          ''; using ssh-native direct-tcpip as the SSH-only simple egress default''))"

definition defaults_selection :: "TransportSelectionPolicyInput \<Rightarrow> (decision_error, TransportSelection) result" where
  "defaults_selection input =
    (case defaults_remote_transport input of
       None \<Rightarrow> fallback_selection input
     | Some value \<Rightarrow> and_then (parse_transport_mode value) (\<lambda>transport.
         if transport = TransportMode.Auto then fallback_selection input
         else if transport = PlainTcp then
           if allow_plain_tcp input then
             let source = unwrap_or (plain_tcp_auto_source input) ''benchmark-tuned default'' in
             select transport source (plain_tcp_selection_reason source)
           else fallback_selection input
         else select transport ''defaults'' ''selected by [defaults].remote_transport''))"

definition endpoint_selection :: "TransportSelectionPolicyInput \<Rightarrow> (decision_error, TransportSelection) result" where
  "endpoint_selection input =
    (case remote_tls input of
       Some addr \<Rightarrow> select TlsTcp ''topology''
         (''direct TLS/TCP peer endpoint '' @ socket_show addr @
          '' is configured; TLS is the production direct default'')
     | None \<Rightarrow>
         (case remote_quic input of
            Some addr \<Rightarrow> select Quic ''topology''
              (''direct QUIC peer endpoint '' @ socket_show addr @
               '' is configured; framed QUIC is selected while quic-native remains opt-in'')
          | None \<Rightarrow> defaults_selection input))"

definition transport_selection_policy ::
  "TransportSelectionPolicyInput \<Rightarrow> (decision_error, TransportSelection) result" where
  "transport_selection_policy input =
    (if requested_transport input \<noteq> TransportMode.Auto then
       select (requested_transport input) ''cli''
         (''selected by --remote-transport '' @ remote_transport_name (requested_transport input))
     else case profile_remote_transport input of
       None \<Rightarrow> endpoint_selection input
     | Some value \<Rightarrow> and_then (parse_transport_mode value) (\<lambda>transport.
         if transport \<noteq> TransportMode.Auto
         then select transport ''profile'' ''selected by target profile remote_transport''
         else endpoint_selection input))"

section \<open>How a transport is reported\<close>

fun direct_transport_policy :: "TransportMode \<Rightarrow> json" where
  "direct_transport_policy TlsTcp = JStr ''production_direct''"
| "direct_transport_policy PlainTcp = JStr ''lab_baseline''"
| "direct_transport_policy Quic = JStr ''experimental''"
| "direct_transport_policy QuicNative = JStr ''experimental''"
| "direct_transport_policy _ = JNull"

definition quic_policy_reason :: string where
  "quic_policy_reason =
    ''QUIC direct transport remains experimental until throughput and recovery behavior close the gap with TLS/TCP SPX''"

fun direct_transport_policy_reason :: "TransportMode \<Rightarrow> json" where
  "direct_transport_policy_reason TlsTcp = JStr
    ''TLS/TCP SPX is the production direct baseline because it keeps the stable SPX data plane while adding peer encryption and certificate identity''"
| "direct_transport_policy_reason PlainTcp = JStr
    ''Plain TCP SPX is a lab or explicitly trusted baseline only; it is not selected as the production default because the data path is not encrypted''"
| "direct_transport_policy_reason Quic = JStr quic_policy_reason"
| "direct_transport_policy_reason QuicNative = JStr quic_policy_reason"
| "direct_transport_policy_reason _ = JNull"

definition tls_peer_auth_mode :: "TransportMode \<Rightarrow> bool \<Rightarrow> bool \<Rightarrow> json" where
  "tls_peer_auth_mode transport has_client_cert has_client_key =
    (if transport \<noteq> TlsTcp then JNull
     else if has_client_cert \<and> has_client_key then JStr ''mutual_tls''
     else if \<not> has_client_cert \<and> \<not> has_client_key then JStr ''server_auth''
     else JStr ''invalid_client_auth_config'')"

fun ssh_mode_name :: "TransportMode \<Rightarrow> json" where
  "ssh_mode_name SshNative = JStr ''native-direct-tcpip''"
| "ssh_mode_name Tcp = JStr ''spx-over-ssh-direct''"
| "ssh_mode_name Exec = JStr ''ssh-exec-helper''"
| "ssh_mode_name _ = JNull"

fun ssh_mode_reason :: "TransportMode \<Rightarrow> json" where
  "ssh_mode_reason SshNative = JStr
    ''ssh-native opens russh direct-tcpip channels to each requested target; use it for simple SSH-only local egress because it avoids remote daemon and SPX framed data-plane overhead''"
| "ssh_mode_reason Tcp = JStr
    ''spx-over-ssh-direct opens SSH direct-tcpip to the remote daemon transport and keeps SPX daemon semantics; use it when remote daemon policy, token auth, route restore, or SPX UDP behavior is required''"
| "ssh_mode_reason Exec = JStr
    ''ssh-exec-helper starts a temporary remote helper over SSH; keep it as a compatibility path when no persistent remote daemon transport is available''"
| "ssh_mode_reason _ = JNull"

definition ssh_data_plane_reason :: "TransportMode \<Rightarrow> string option \<Rightarrow> json" where
  "ssh_data_plane_reason transport selection_source =
    (if selection_source \<in> set [Some ''cli'', Some ''profile'']
     then (if transport \<in> set [SshNative, Tcp, Exec] then JStr ''explicit_user_choice'' else JNull)
     else case transport of
       SshNative \<Rightarrow> JStr ''simple_egress''
     | Tcp \<Rightarrow> JStr ''daemon_policy_required''
     | Exec \<Rightarrow> JStr ''ssh_exec_compatibility''
     | _ \<Rightarrow> JNull)"

section \<open>Pool sizes\<close>

record RoutePoolSizingInput =
  has_tcp_target :: bool
  command_transport_pool_size :: "u64 option"
  profile_transport_pool_size :: "u64 option"
  default_transport_pool_size :: "u64 option"
  command_ssh_session_pool_size :: "u64 option"
  profile_ssh_session_pool_size :: "u64 option"
  default_ssh_session_pool_size :: "u64 option"
  command_workload_hint :: "WorkloadHint option"
  profile_workload_hint :: "WorkloadHint option"
  default_workload_hint :: "WorkloadHint option"

record RouteTransportPoolPolicy =
  tp_size :: u64
  tp_source :: string
  tp_reason :: string
  tp_pool_policy :: string
  tp_workload_hint :: WorkloadHint

record RouteSshSessionPoolPolicy =
  sp_size :: u64
  sp_source :: string
  sp_reason :: string
  sp_warning :: "string option"

definition pool_reason :: "string \<Rightarrow> u64 \<Rightarrow> u64 \<Rightarrow> string" where
  "pool_reason source requested effective =
    (if requested = effective then ''loaded from '' @ source
     else ''loaded from '' @ source @ ''; clamped to minimum 1'')"

fun pool_policy_name :: "WorkloadHint \<Rightarrow> string" where
  "pool_policy_name Large = ''large''"
| "pool_policy_name Concurrent = ''concurrent''"
| "pool_policy_name Mixed = ''mixed''"

definition workload_hint_policy :: "RoutePoolSizingInput \<Rightarrow> WorkloadHint" where
  "workload_hint_policy input =
    unwrap_or (opt_or (opt_or (command_workload_hint input) (profile_workload_hint input)) (default_workload_hint input))
      (if has_tcp_target input then Large else Concurrent)"

definition implicit_transport_pool_size :: "RoutePoolSizingInput \<Rightarrow> WorkloadHint \<Rightarrow> u64" where
  "implicit_transport_pool_size input hint =
    (if hint = Large then 1 else if has_tcp_target input then 1 else 4)"

definition implicit_transport_pool_reason :: "RoutePoolSizingInput \<Rightarrow> WorkloadHint \<Rightarrow> string" where
  "implicit_transport_pool_reason input hint =
    (if has_tcp_target input then
       (if hint = Large then ''pool_policy=large: implicit single-worker default for fixed --tcp-target routes''
        else ''pool_policy='' @ pool_policy_name hint @
          '': fixed --tcp-target routes stay at pool=1 unless --transport-pool-size is explicit'')
     else case hint of
       Large \<Rightarrow> ''pool_policy=large: single-worker default favors one large transfer''
     | Concurrent \<Rightarrow> ''pool_policy=concurrent: implicit pool=4 default for multi-flow SOCKS/HTTP proxy routes''
     | Mixed \<Rightarrow> ''pool_policy=mixed: implicit pool=4 default balances large and concurrent proxy traffic'')"

definition explicit_transport_pool :: "RoutePoolSizingInput \<Rightarrow> string \<Rightarrow> string \<Rightarrow> u64 \<Rightarrow> RouteTransportPoolPolicy" where
  "explicit_transport_pool input source name value =
    (let effective = max value 1 in
     \<lparr>tp_size = effective, tp_source = source, tp_reason = pool_reason name value effective, tp_pool_policy = ''explicit'',
      tp_workload_hint = workload_hint_policy input\<rparr>)"

definition plan_transport_pool :: "RoutePoolSizingInput \<Rightarrow> RouteTransportPoolPolicy" where
  "plan_transport_pool input =
    (case command_transport_pool_size input of
       Some value \<Rightarrow> explicit_transport_pool input ''command-line'' ''--transport-pool-size'' value
     | None \<Rightarrow>
    (case profile_transport_pool_size input of
       Some value \<Rightarrow> explicit_transport_pool input ''profile'' ''target profile transport_pool_size'' value
     | None \<Rightarrow>
    (case default_transport_pool_size input of
       Some value \<Rightarrow> explicit_transport_pool input ''defaults'' ''[defaults].transport_pool_size'' value
     | None \<Rightarrow>
       let hint = workload_hint_policy input in
       \<lparr>tp_size = implicit_transport_pool_size input hint, tp_source = ''implicit'',
        tp_reason = implicit_transport_pool_reason input hint, tp_pool_policy = pool_policy_name hint,
        tp_workload_hint = hint\<rparr>)))"

definition ssh_session_pool_warning :: "u64 \<Rightarrow> string option" where
  "ssh_session_pool_warning effective =
    (if effective > 2 then Some
       ''ssh-native session pools above 2 can lose to handshake and scheduling overhead; benchmark before relying on this explicit value''
     else None)"

definition implicit_ssh_session_pool_size :: "RoutePoolSizingInput \<Rightarrow> u64" where
  "implicit_ssh_session_pool_size input = (if has_tcp_target input then 1 else 2)"

definition implicit_ssh_session_pool_reason :: "RoutePoolSizingInput \<Rightarrow> string" where
  "implicit_ssh_session_pool_reason input =
    (if has_tcp_target input then ''implicit ssh-native single-session default for fixed --tcp-target routes''
     else ''implicit ssh-native two-session default for multi-flow SOCKS/HTTP proxy routes'')"

definition explicit_ssh_session_pool :: "string \<Rightarrow> string \<Rightarrow> u64 \<Rightarrow> RouteSshSessionPoolPolicy" where
  "explicit_ssh_session_pool source name value =
    (let effective = max value 1 in
     \<lparr>sp_size = effective, sp_source = source, sp_reason = pool_reason name value effective,
      sp_warning = ssh_session_pool_warning effective\<rparr>)"

definition default_ssh_session_pool :: "u64 \<Rightarrow> RouteSshSessionPoolPolicy" where
  "default_ssh_session_pool value =
    (let requested = max value 1; effective = min requested 2 in
     \<lparr>sp_size = effective, sp_source = ''defaults'',
      sp_reason =
        (if requested = effective then pool_reason ''[defaults].ssh_session_pool_size'' value effective
         else ''loaded from [defaults].ssh_session_pool_size='' @ show_nat (unat value) @
           ''; capped to pool=2 because only command-line/profile benchmark experiments may exceed the implicit-safe ssh-native range''),
      sp_warning =
        (if requested > effective then Some
           ''ssh-native defaults above 2 are not auto-selected; use --ssh-session-pool-size or a target profile for explicit benchmark experiments''
         else ssh_session_pool_warning effective)\<rparr>)"

definition plan_ssh_session_pool :: "RoutePoolSizingInput \<Rightarrow> RouteSshSessionPoolPolicy" where
  "plan_ssh_session_pool input =
    (case command_ssh_session_pool_size input of
       Some value \<Rightarrow> explicit_ssh_session_pool ''command-line'' ''--ssh-session-pool-size'' value
     | None \<Rightarrow>
    (case profile_ssh_session_pool_size input of
       Some value \<Rightarrow> explicit_ssh_session_pool ''profile'' ''target profile ssh_session_pool_size'' value
     | None \<Rightarrow>
    (case default_ssh_session_pool_size input of
       Some value \<Rightarrow> default_ssh_session_pool value
     | None \<Rightarrow>
       \<lparr>sp_size = implicit_ssh_session_pool_size input, sp_source = ''implicit'',
        sp_reason = implicit_ssh_session_pool_reason input, sp_warning = None\<rparr>)))"

section \<open>Reaching the local daemon from a remote machine\<close>

datatype RemoteUseConnectMode = Auto | Direct | ReverseLink

datatype RemoteUsePlan = DirectUse SocketAddr | ReverseLinkUse

record RemoteUseDecision =
  ru_plan :: RemoteUsePlan
  ru_fallback_reason :: "string option"

record RemoteUseInput =
  connect_mode :: RemoteUseConnectMode
  local_peer :: "SocketAddr option"
  daemon_transport_listen :: "SocketAddr option"

definition resolve_remote_use_local_peer :: "RemoteUseInput \<Rightarrow> (string, SocketAddr) result" where
  "resolve_remote_use_local_peer input =
    (case local_peer input of
       Some addr \<Rightarrow> Inr addr
     | None \<Rightarrow>
         (case daemon_transport_listen input of
            None \<Rightarrow> Inl
              ''--direction remote-uses-local needs --local-peer or [daemon].transport_listen; run `ssh_proxy daemon install --scope system --elevate` first''
          | Some addr \<Rightarrow>
              if is_loopback (sa_ip addr)
              then Inl (''local daemon transport '' @ socket_show addr @
                '' is loopback-only; pass --local-peer <reachable-ip:port>, or use a public/TLS/QUIC relay route when this machine is behind NAT'')
              else Inr addr))"

definition decide_remote_use :: "RemoteUseInput \<Rightarrow> (string, RemoteUseDecision) result" where
  "decide_remote_use input =
    (case connect_mode input of
       RemoteUseConnectMode.ReverseLink \<Rightarrow>
         Inr \<lparr>ru_plan = ReverseLinkUse, ru_fallback_reason = Some ''--connect-mode reverse-link requested''\<rparr>
     | RemoteUseConnectMode.Direct \<Rightarrow> and_then (resolve_remote_use_local_peer input) (\<lambda>addr.
         Inr \<lparr>ru_plan = DirectUse addr, ru_fallback_reason = None\<rparr>)
     | RemoteUseConnectMode.Auto \<Rightarrow>
         (case resolve_remote_use_local_peer input of
            Inr addr \<Rightarrow> Inr \<lparr>ru_plan = DirectUse addr, ru_fallback_reason = None\<rparr>
          | Inl err \<Rightarrow> Inr \<lparr>ru_plan = ReverseLinkUse, ru_fallback_reason = Some err\<rparr>))"

section \<open>Properties\<close>

lemma option_def_simps [simp]:
  "unwrap_or None d = d" "unwrap_or (Some x) d = x" "opt_or None b = b" "opt_or (Some x) b = Some x"
  by (simp_all add: unwrap_or_def opt_or_def)

lemma fallback_selection_cases:
  "\<exists>sel. fallback_selection input = Inr sel \<and> ts_transport sel \<noteq> TransportMode.Auto \<and>
    (ts_transport sel = PlainTcp \<longleftrightarrow> allow_plain_tcp input)"
  by (simp add: fallback_selection_def select_def Let_def)

text \<open>The values of \<^verbatim>\<open>remote_transport\<close> that a selection may consult.\<close>

definition configured_transports :: "TransportSelectionPolicyInput \<Rightarrow> string set" where
  "configured_transports input = set_option (profile_remote_transport input) \<union> set_option (defaults_remote_transport input)"

lemma defaults_selection_cases:
  "case defaults_selection input of
     Inl e \<Rightarrow> \<exists>v\<in>configured_transports input. parse_transport_mode v = Inl e
   | Inr sel \<Rightarrow> ts_transport sel \<noteq> TransportMode.Auto \<and> (ts_transport sel = PlainTcp \<longrightarrow> allow_plain_tcp input)"
  using fallback_selection_cases [of input]
  by (auto simp: defaults_selection_def select_def configured_transports_def Let_def and_then_def
    split: option.split sum.splits)

lemma endpoint_selection_cases:
  "case endpoint_selection input of
     Inl e \<Rightarrow> \<exists>v\<in>configured_transports input. parse_transport_mode v = Inl e
   | Inr sel \<Rightarrow> ts_transport sel \<noteq> TransportMode.Auto \<and> (ts_transport sel = PlainTcp \<longrightarrow> allow_plain_tcp input)"
  using defaults_selection_cases [of input]
  by (auto simp: endpoint_selection_def select_def split: option.split)

text \<open>
  C15. A transport without encryption is never chosen silently.  The selection always names a concrete transport, and plain TCP
  only when the command line or the profile asks for it or plain TCP is allowed; it fails only on
  a configured value that is no transport.
\<close>

theorem plain_tcp_needs_consent:
  "case transport_selection_policy input of
     Inl e \<Rightarrow> \<exists>v\<in>configured_transports input. parse_transport_mode v = Inl e
   | Inr sel \<Rightarrow> ts_transport sel \<noteq> TransportMode.Auto \<and>
       (ts_transport sel = PlainTcp \<longrightarrow> requested_transport input = PlainTcp \<or> allow_plain_tcp input \<or>
         (\<exists>v. profile_remote_transport input = Some v \<and> parse_transport_mode v = Inr PlainTcp))"
  using endpoint_selection_cases [of input]
  by (auto simp: transport_selection_policy_def select_def configured_transports_def and_then_def
    split: option.split sum.splits)

definition policy_defaults :: TransportSelectionPolicyInput where
  "policy_defaults =
    \<lparr>requested_transport = TransportMode.Auto, profile_remote_transport = None, defaults_remote_transport = None,
     remote_quic = None, remote_tls = None, allow_plain_tcp = False, cli_allow_plain_tcp = False,
     profile_allow_plain_tcp = None, defaults_allow_plain_tcp = None, tcp_target_present = False,
     remote_side_listens = False, peer_ready = False\<rparr>"

theorem plain_tcp_needs_consent_witness:
  "\<exists>sel. transport_selection_policy (policy_defaults\<lparr>defaults_remote_transport := Some ''Plain-TCP''\<rparr>) = Inr sel \<and>
    ts_transport sel \<noteq> PlainTcp"
proof -
  let ?input = "policy_defaults\<lparr>defaults_remote_transport := Some ''Plain-TCP''\<rparr>"
  have "parse_transport_mode ''Plain-TCP'' = Inr PlainTcp" by code_simp
  then show ?thesis
    using plain_tcp_needs_consent [of ?input]
    by (cases "transport_selection_policy ?input") (auto simp: policy_defaults_def configured_transports_def)
qed

text \<open>
  The profile editor accepts a transport with the parser of the core crate, the selection reads it with its
  own: a value in camel case passes the first and is refused by the second, and the other way round.
\<close>

lemma transport_parsers_disagree:
  "transport_mode_from_str ''TlsTcp'' = Some TlsTcp \<and>
   transport_selection_policy (policy_defaults\<lparr>profile_remote_transport := Some ''TlsTcp''\<rparr>) =
     Inl (InvalidRemoteTransport ''tlstcp'') \<and>
   transport_mode_from_str ''TLS'' = None \<and> parse_transport_mode ''TLS'' = Inr TlsTcp"
proof -
  have "parse_transport_mode ''TlsTcp'' = Inl (InvalidRemoteTransport ''tlstcp'')"
    "transport_mode_from_str ''TlsTcp'' = Some TlsTcp" "transport_mode_from_str ''TLS'' = None"
    "parse_transport_mode ''TLS'' = Inr TlsTcp"
    by code_simp+
  then show ?thesis by (simp add: transport_selection_policy_def policy_defaults_def)
qed

end
