(* ===== verification/Route_Plan.thy ===== *)
theory Route_Plan
  imports Route_Decision Repair
begin

text \<open>
  Route plans (\<^verbatim>\<open>ssh-proxy-route/src/lib.rs\<close>, \<^verbatim>\<open>plan.rs\<close> and \<^verbatim>\<open>preflight.rs\<close>): the plan of a route is a report that is printed
  as JSON; the result of the transport probes is entered into the printed plan, whose decision chain is
  then computed again from the JSON.
\<close>

section \<open>Objects that are filled field by field\<close>

fun json_insert :: "string \<Rightarrow> json \<Rightarrow> json \<Rightarrow> json" where
  "json_insert k v (JObj m) = JObj (om_insert k v m)"
| "json_insert k v j = j"

definition json_u64 :: "u64 \<Rightarrow> json" where
  "json_u64 n = JNum (uint n)"

definition json_str_opt :: "string option \<Rightarrow> json" where
  "json_str_opt = json_opt JStr"

definition json_or :: "json option \<Rightarrow> json \<Rightarrow> json" where
  "json_or x d = unwrap_or x d"

text \<open>\<open>opt_get v k\<close> is \<^verbatim>\<open>v.and_then(|value| value.get(k))\<close>.\<close>

definition opt_get :: "json option \<Rightarrow> string \<Rightarrow> json option" where
  "opt_get v k = Option.bind v (\<lambda>j. json_get j k)"

section \<open>Reports of the runtime\<close>

record RoutePreflightReport =
  pr_recommended_fallback :: "string option"
  pr_selected_reason :: "string option"
  pr_repair_hint :: "string option"
  pr_candidate_failures :: "json list"

definition preflight_is_empty :: "RoutePreflightReport \<Rightarrow> bool" where
  "preflight_is_empty r \<longleftrightarrow> pr_recommended_fallback r = None \<and> pr_selected_reason r = None \<and>
    pr_repair_hint r = None \<and> pr_candidate_failures r = []"

definition preflight_to_json :: "RoutePreflightReport \<Rightarrow> json" where
  "preflight_to_json r =
    (if preflight_is_empty r then JNull
     else json_obj
       [(''recommended_fallback'', json_str_opt (pr_recommended_fallback r)),
        (''selected_reason'', JStr (unwrap_or (pr_selected_reason r) ''unknown'')),
        (''repair_hint'', JStr (unwrap_or (pr_repair_hint r) ''unknown'')),
        (''candidate_failures'', JArr (pr_candidate_failures r))])"

definition has_recommended_fallback :: "RoutePreflightReport \<Rightarrow> bool" where
  "has_recommended_fallback r \<longleftrightarrow> pr_recommended_fallback r \<noteq> None"

record SshSessionPoolReport =
  ssp_size :: u64
  ssp_source :: string
  ssp_reason :: string
  ssp_warning :: "string option"

record TransportPoolReport =
  tpr_size :: u64
  tpr_source :: string
  tpr_reason :: string
  tpr_pool_policy :: string

record RouteRuntimeContext =
  rc_selected_transport :: string
  rc_transport_selection_source :: string
  rc_transport_selection_reason :: string
  rc_direct_transport_policy :: json
  rc_direct_transport_policy_reason :: json
  rc_tls_peer_auth_mode :: json
  rc_ssh_mode :: json
  rc_ssh_mode_reason :: json
  rc_ssh_data_plane_reason :: json
  rc_requires_external_ssh :: bool
  rc_selected_endpoint :: "string option"
  rc_preflight :: "RoutePreflightReport option"
  rc_ssh_session_pool :: "SshSessionPoolReport option"
  rc_transport_pool :: TransportPoolReport
  rc_workload_hint :: "string option"
  rc_connect_timeout_secs :: u64
  rc_reconnect_delay_secs :: u64
  rc_reconnect_max_delay_secs :: u64
  rc_no_reconnect :: bool

definition decision_report :: "RouteRuntimeContext \<Rightarrow> RuntimeDecisionReport" where
  "decision_report c =
    (let report = decision_with_details
       (json_obj
         [(''direct_transport_policy'', rc_direct_transport_policy c),
          (''direct_transport_policy_reason'', rc_direct_transport_policy_reason c),
          (''tls_peer_auth_mode'', rc_tls_peer_auth_mode c),
          (''ssh_mode'', rc_ssh_mode c),
          (''ssh_mode_reason'', rc_ssh_mode_reason c),
          (''ssh_data_plane_reason'', rc_ssh_data_plane_reason c),
          (''transport_pool_size'', json_u64 (tpr_size (rc_transport_pool c))),
          (''transport_pool_source'', JStr (tpr_source (rc_transport_pool c))),
          (''transport_pool_reason'', JStr (tpr_reason (rc_transport_pool c))),
          (''pool_policy'', JStr (tpr_pool_policy (rc_transport_pool c))),
          (''workload_hint'', json_str_opt (rc_workload_hint c))])
       (decision_requires_external_ssh (rc_requires_external_ssh c)
         (runtime_decision_new (rc_selected_transport c) (rc_transport_selection_source c)
           (rc_transport_selection_reason c)))
     in case rc_selected_endpoint c of
          Some endpoint \<Rightarrow> decision_with_endpoint endpoint report
        | None \<Rightarrow> report)"

text \<open>The serialized form of a decision report; fields without a value are left out.\<close>

definition decision_report_value :: "RuntimeDecisionReport \<Rightarrow> json" where
  "decision_report_value r = json_obj
    ([(''selected_transport'', JStr (rd_selected_transport r)),
      (''source'', JStr (rd_source r)),
      (''reason'', JStr (rd_reason r)),
      (''requires_external_ssh'', JBool (rd_requires_external_ssh r))]
     @ skip_none ''endpoint'' JStr (rd_endpoint r)
     @ skip_none ''details'' (\<lambda>d. d) (rd_details r))"

definition context_preflight_json :: "RouteRuntimeContext \<Rightarrow> json" where
  "context_preflight_json c = unwrap_or (map_option preflight_to_json (rc_preflight c)) JNull"

definition context_has_fallback :: "RouteRuntimeContext \<Rightarrow> bool" where
  "context_has_fallback c = (case rc_preflight c of None \<Rightarrow> False | Some p \<Rightarrow> has_recommended_fallback p)"

definition context_decision_chain :: "RouteRuntimeContext \<Rightarrow> json \<Rightarrow> json" where
  "context_decision_chain c preflight =
    (let fallback = context_has_fallback c in json_obj
      [(''preflight'', preflight),
       (''topology'', json_obj [(''class'', JStr (if fallback then ''ssh-only'' else ''runtime-materialized''))]),
       (''policy'', json_obj
         [(''direct_transport_policy'', rc_direct_transport_policy c),
          (''direct_transport_policy_reason'', rc_direct_transport_policy_reason c),
          (''tls_peer_auth_mode'', rc_tls_peer_auth_mode c),
          (''ssh_data_plane_reason'', rc_ssh_data_plane_reason c),
          (''explicit_user_override'', JBool (rc_transport_selection_source c \<in> set [''cli'', ''profile''])),
          (''selection_source'', JStr (rc_transport_selection_source c))]),
       (''workload'', json_obj
         [(''hint'', json_str_opt (rc_workload_hint c)),
          (''pool_policy'', JStr (tpr_pool_policy (rc_transport_pool c))),
          (''transport_pool_size'', json_u64 (tpr_size (rc_transport_pool c)))]),
       (''selected_transport'', JStr (rc_selected_transport c)),
       (''selected_reason'', JStr (rc_transport_selection_reason c)),
       (''fallback_reason'', if fallback then JStr (rc_transport_selection_reason c) else JNull),
       (''next_action'', JStr (if fallback then ''using materialized preflight selection'' else ''none''))])"

definition to_metadata_value :: "RouteRuntimeContext \<Rightarrow> json" where
  "to_metadata_value c =
    (let preflight = context_preflight_json c; pool = rc_ssh_session_pool c in json_obj
      [(''selected_transport'', JStr (rc_selected_transport c)),
       (''transport_selection_source'', JStr (rc_transport_selection_source c)),
       (''transport_selection_reason'', JStr (rc_transport_selection_reason c)),
       (''connection_decision'', decision_report_value (decision_report c)),
       (''direct_transport_policy'', rc_direct_transport_policy c),
       (''direct_transport_policy_reason'', rc_direct_transport_policy_reason c),
       (''tls_peer_auth_mode'', rc_tls_peer_auth_mode c),
       (''preflight'', preflight),
       (''decision_chain'', context_decision_chain c preflight),
       (''ssh_mode'', rc_ssh_mode c),
       (''ssh_mode_reason'', rc_ssh_mode_reason c),
       (''ssh_data_plane_reason'', rc_ssh_data_plane_reason c),
       (''ssh_session_pool_size'', json_opt (\<lambda>p. json_u64 (ssp_size p)) pool),
       (''ssh_session_pool_source'', json_opt (\<lambda>p. JStr (ssp_source p)) pool),
       (''ssh_session_pool_reason'', json_opt (\<lambda>p. JStr (ssp_reason p)) pool),
       (''ssh_session_pool_warning'', json_str_opt (Option.bind pool ssp_warning)),
       (''transport_pool_size'', json_u64 (tpr_size (rc_transport_pool c))),
       (''transport_pool_source'', JStr (tpr_source (rc_transport_pool c))),
       (''transport_pool_reason'', JStr (tpr_reason (rc_transport_pool c))),
       (''pool_policy'', JStr (tpr_pool_policy (rc_transport_pool c))),
       (''workload_hint'', json_str_opt (rc_workload_hint c)),
       (''connect_timeout_secs'', json_u64 (rc_connect_timeout_secs c)),
       (''reconnect_delay_secs'', json_u64 (rc_reconnect_delay_secs c)),
       (''reconnect_max_delay_secs'', json_u64 (rc_reconnect_max_delay_secs c)),
       (''no_reconnect'', JBool (rc_no_reconnect c))])"

section \<open>The printed plan\<close>

record RouteRuntimePlanReport =
  rp_reconnect_delay_secs :: u64
  rp_reconnect_max_delay_secs :: u64
  rp_connect_timeout_secs :: u64
  rp_transport_pool_size :: u64
  rp_transport_pool_source :: string
  rp_transport_pool_reason :: string
  rp_pool_policy :: string
  rp_workload_hint :: string
  rp_no_reconnect :: bool

definition runtime_to_json :: "RouteRuntimePlanReport \<Rightarrow> json" where
  "runtime_to_json r = json_obj
    [(''reconnect_delay_secs'', json_u64 (rp_reconnect_delay_secs r)),
     (''reconnect_max_delay_secs'', json_u64 (rp_reconnect_max_delay_secs r)),
     (''connect_timeout_secs'', json_u64 (rp_connect_timeout_secs r)),
     (''transport_pool_size'', json_u64 (rp_transport_pool_size r)),
     (''transport_pool_source'', JStr (rp_transport_pool_source r)),
     (''transport_pool_reason'', JStr (rp_transport_pool_reason r)),
     (''pool_policy'', JStr (rp_pool_policy r)),
     (''workload_hint'', JStr (rp_workload_hint r)),
     (''no_reconnect'', JBool (rp_no_reconnect r))]"

record RoutePlanReport =
  pl_route_id :: string
  pl_direction :: string
  pl_owner :: string
  pl_mode :: string
  pl_listener :: json
  pl_egress :: json
  pl_transport_candidates :: "string list"
  pl_selected_transport :: string
  pl_transport_selection_source :: "string option"
  pl_transport_selection_reason :: "string option"
  pl_direct_transport_policy :: json
  pl_direct_transport_policy_reason :: json
  pl_tls_peer_auth_mode :: json
  pl_ssh_mode :: json
  pl_ssh_mode_reason :: json
  pl_ssh_data_plane_reason :: json
  pl_include_ssh_session_pool_fields :: bool
  pl_ssh_session_pool :: "SshSessionPoolReport option"
  pl_topology :: "json option"
  pl_preflight :: "json option"
  pl_runtime :: RouteRuntimePlanReport
  pl_fallback_reason :: "string option"
  pl_next_action :: string
  pl_persist :: bool

definition has_transport_metadata :: "RoutePlanReport \<Rightarrow> bool" where
  "has_transport_metadata r \<longleftrightarrow> pl_transport_selection_source r \<noteq> None \<or> pl_transport_selection_reason r \<noteq> None \<or>
    pl_direct_transport_policy r \<noteq> JNull \<or> pl_direct_transport_policy_reason r \<noteq> JNull \<or>
    pl_tls_peer_auth_mode r \<noteq> JNull \<or> pl_ssh_mode r \<noteq> JNull \<or> pl_ssh_mode_reason r \<noteq> JNull \<or>
    pl_ssh_data_plane_reason r \<noteq> JNull"

definition is_direct_probe_protocol :: "string \<Rightarrow> bool" where
  "is_direct_probe_protocol protocol \<longleftrightarrow> protocol \<in> set [''quic'', ''tls-tcp'', ''plain-tcp'']"

definition probe_reachable :: "json \<Rightarrow> bool" where
  "probe_reachable result \<longleftrightarrow>
    (case Option.bind (json_get result ''protocol'') as_str of
       None \<Rightarrow> False
     | Some protocol \<Rightarrow> is_direct_probe_protocol protocol) \<and>
    json_get result ''reachable'' = Some (JBool True)"

definition nonempty_array :: "json option \<Rightarrow> string \<Rightarrow> bool" where
  "nonempty_array v k = unwrap_or (map_option (\<lambda>xs. xs \<noteq> []) (Option.bind (opt_get v k) as_array)) False"

definition route_topology_class :: "json option \<Rightarrow> json option \<Rightarrow> string" where
  "route_topology_class preflight topology =
    (let direct_reachable =
           unwrap_or (map_option (list_ex probe_reachable) (Option.bind (opt_get preflight ''results'') as_array)) False;
         has_jump = nonempty_array topology ''ssh_jump_chain'';
         has_direct_candidates = nonempty_array topology ''direct_private_candidates''
     in if direct_reachable then ''direct-reachable''
        else if Option.bind (opt_get preflight ''recommended_fallback'') as_str \<noteq> None then ''ssh-only''
        else if has_jump \<and> has_direct_candidates then ''mixed''
        else if has_direct_candidates then ''unknown-direct''
        else ''ssh-reachable'')"

definition decision_chain_value :: "RoutePlanReport \<Rightarrow> json \<Rightarrow> json" where
  "decision_chain_value r runtime =
    (let preflight = pl_preflight r;
         topology = pl_topology r;
         selection_source = unwrap_or (pl_transport_selection_source r) ''unknown'';
         selection_reason = unwrap_or (pl_transport_selection_reason r) ''unknown'' in
     json_obj
      [(''preflight'', json_obj
         [(''kind'', json_or (opt_get preflight ''kind'') JNull),
          (''recommended_fallback'', json_or (opt_get preflight ''recommended_fallback'') JNull),
          (''selected_reason'', json_or (opt_get preflight ''selected_reason'') JNull),
          (''repair_hint'', json_or (opt_get preflight ''repair_hint'') JNull),
          (''candidate_failures'', json_or (opt_get preflight ''candidate_failures'') (JArr []))]),
       (''topology'', json_obj
         [(''class'', JStr (route_topology_class preflight topology)),
          (''ssh_jump_chain'', json_or (opt_get topology ''ssh_jump_chain'') (JArr [])),
          (''direct_private_candidates'', json_or (opt_get topology ''direct_private_candidates'') (JArr []))]),
       (''policy'', json_obj
         [(''direct_transport_policy'', pl_direct_transport_policy r),
          (''direct_transport_policy_reason'', pl_direct_transport_policy_reason r),
          (''tls_peer_auth_mode'', pl_tls_peer_auth_mode r),
          (''ssh_data_plane_reason'', pl_ssh_data_plane_reason r),
          (''explicit_user_override'', JBool (selection_source \<in> set [''cli'', ''profile''])),
          (''selection_source'', JStr selection_source)]),
       (''workload'', json_obj
         [(''hint'', json_or (json_get runtime ''workload_hint'') JNull),
          (''pool_policy'', json_or (json_get runtime ''pool_policy'') JNull),
          (''transport_pool_size'', json_or (json_get runtime ''transport_pool_size'') JNull)]),
       (''selected_transport'', JStr (pl_selected_transport r)),
       (''selected_reason'', JStr selection_reason),
       (''fallback_reason'', json_str_opt (pl_fallback_reason r)),
       (''next_action'', JStr (pl_next_action r))])"

definition insert_ssh_session_pool :: "SshSessionPoolReport option \<Rightarrow> (string \<times> json) list" where
  "insert_ssh_session_pool pool =
    [(''ssh_session_pool_size'', json_opt (\<lambda>p. json_u64 (ssp_size p)) pool),
     (''ssh_session_pool_source'', json_opt (\<lambda>p. JStr (ssp_source p)) pool),
     (''ssh_session_pool_reason'', json_opt (\<lambda>p. JStr (ssp_reason p)) pool),
     (''ssh_session_pool_warning'', json_str_opt (Option.bind pool ssp_warning))]"

text \<open>The fields of the plan in the order in which they are inserted, without the decision chain.\<close>

definition plan_fields :: "RoutePlanReport \<Rightarrow> (string \<times> json) list" where
  "plan_fields r =
    [(''route_id'', JStr (pl_route_id r)),
     (''direction'', JStr (pl_direction r)),
     (''owner'', JStr (pl_owner r)),
     (''mode'', JStr (pl_mode r)),
     (''listener'', pl_listener r),
     (''egress'', pl_egress r),
     (''transport_candidates'', JArr (map JStr (pl_transport_candidates r))),
     (''selected_transport'', JStr (pl_selected_transport r))]
    @ skip_none ''transport_selection_source'' JStr (pl_transport_selection_source r)
    @ skip_none ''transport_selection_reason'' JStr (pl_transport_selection_reason r)
    @ (if has_transport_metadata r then
        [(''direct_transport_policy'', pl_direct_transport_policy r),
         (''direct_transport_policy_reason'', pl_direct_transport_policy_reason r),
         (''tls_peer_auth_mode'', pl_tls_peer_auth_mode r),
         (''ssh_mode'', pl_ssh_mode r),
         (''ssh_mode_reason'', pl_ssh_mode_reason r),
         (''ssh_data_plane_reason'', pl_ssh_data_plane_reason r)] else [])
    @ (if pl_include_ssh_session_pool_fields r then insert_ssh_session_pool (pl_ssh_session_pool r) else [])
    @ skip_none ''topology'' (\<lambda>j. j) (pl_topology r)
    @ skip_none ''preflight'' (\<lambda>j. j) (pl_preflight r)
    @ [(''runtime'', runtime_to_json (pl_runtime r)),
       (''fallback_reason'', json_str_opt (pl_fallback_reason r)),
       (''next_action'', JStr (pl_next_action r)),
       (''persist'', JBool (pl_persist r))]"

definition plan_to_json :: "RoutePlanReport \<Rightarrow> json" where
  "plan_to_json r = json_obj
    (plan_fields r @ [(''decision_chain'', decision_chain_value r (runtime_to_json (pl_runtime r)))])"

section \<open>Reading a plan back\<close>

definition runtime_u64 :: "json \<Rightarrow> string \<Rightarrow> u64" where
  "runtime_u64 runtime key = unwrap_or (Option.bind (json_get runtime key) as_u64) 0"

definition runtime_usize :: "json \<Rightarrow> string \<Rightarrow> u64" where
  "runtime_usize runtime key = unwrap_or (Option.bind (json_get runtime key) as_u64) 0"

definition runtime_string :: "json \<Rightarrow> string \<Rightarrow> string \<Rightarrow> string" where
  "runtime_string runtime key d = unwrap_or (Option.bind (json_get runtime key) as_str) d"

definition runtime_from_legacy :: "json \<Rightarrow> RouteRuntimePlanReport" where
  "runtime_from_legacy runtime =
    \<lparr>rp_reconnect_delay_secs = runtime_u64 runtime ''reconnect_delay_secs'',
     rp_reconnect_max_delay_secs = runtime_u64 runtime ''reconnect_max_delay_secs'',
     rp_connect_timeout_secs = runtime_u64 runtime ''connect_timeout_secs'',
     rp_transport_pool_size = runtime_usize runtime ''transport_pool_size'',
     rp_transport_pool_source = runtime_string runtime ''transport_pool_source'' ''implicit'',
     rp_transport_pool_reason = runtime_string runtime ''transport_pool_reason'' ''implicit single-worker default'',
     rp_pool_policy = runtime_string runtime ''pool_policy'' ''large'',
     rp_workload_hint = runtime_string runtime ''workload_hint'' ''large'',
     rp_no_reconnect = unwrap_or (Option.bind (json_get runtime ''no_reconnect'') as_bool) False\<rparr>"

text \<open>\<open>plan_str\<close> is a field that must be a string.\<close>

definition plan_str :: "json \<Rightarrow> string \<Rightarrow> string option" where
  "plan_str plan key = Option.bind (json_get plan key) as_str"

definition from_legacy_plan :: "json \<Rightarrow> RoutePlanReport option" where
  "from_legacy_plan plan =
    Option.bind (plan_str plan ''route_id'') (\<lambda>route_id.
    Option.bind (plan_str plan ''direction'') (\<lambda>direction.
    Option.bind (plan_str plan ''owner'') (\<lambda>owner.
    Option.bind (plan_str plan ''mode'') (\<lambda>mode.
    Some
     \<lparr>pl_route_id = route_id, pl_direction = direction, pl_owner = owner, pl_mode = mode,
      pl_listener = json_or (json_get plan ''listener'') JNull,
      pl_egress = json_or (json_get plan ''egress'') JNull,
      pl_transport_candidates =
        unwrap_or (map_option (List.map_filter as_str) (Option.bind (json_get plan ''transport_candidates'') as_array)) [],
      pl_selected_transport = unwrap_or (plan_str plan ''selected_transport'') ''unknown'',
      pl_transport_selection_source = plan_str plan ''transport_selection_source'',
      pl_transport_selection_reason = plan_str plan ''transport_selection_reason'',
      pl_direct_transport_policy = json_or (json_get plan ''direct_transport_policy'') JNull,
      pl_direct_transport_policy_reason = json_or (json_get plan ''direct_transport_policy_reason'') JNull,
      pl_tls_peer_auth_mode = json_or (json_get plan ''tls_peer_auth_mode'') JNull,
      pl_ssh_mode = json_or (json_get plan ''ssh_mode'') JNull,
      pl_ssh_mode_reason = json_or (json_get plan ''ssh_mode_reason'') JNull,
      pl_ssh_data_plane_reason = json_or (json_get plan ''ssh_data_plane_reason'') JNull,
      pl_include_ssh_session_pool_fields = (json_get plan ''ssh_session_pool_size'' \<noteq> None),
      pl_ssh_session_pool = None,
      pl_topology = json_get plan ''topology'',
      pl_preflight = json_get plan ''preflight'',
      pl_runtime = runtime_from_legacy (json_or (json_get plan ''runtime'') JNull),
      pl_fallback_reason = plan_str plan ''fallback_reason'',
      pl_next_action = unwrap_or (plan_str plan ''next_action'') ''none'',
      pl_persist = unwrap_or (Option.bind (json_get plan ''persist'') as_bool) False\<rparr>))))"

definition refresh_route_decision_chain :: "json \<Rightarrow> json" where
  "refresh_route_decision_chain plan =
    (case from_legacy_plan plan of
       None \<Rightarrow> plan
     | Some report \<Rightarrow>
         json_insert ''decision_chain'' (decision_chain_value report (runtime_to_json (pl_runtime report))) plan)"

section \<open>Probes and the fallback\<close>

record RouteProbeResult =
  pb_protocol :: string
  pb_endpoint :: "string option"
  pb_reachable :: "bool option"
  pb_status :: string
  pb_message :: string

definition probe_to_json :: "RouteProbeResult \<Rightarrow> json" where
  "probe_to_json r = json_obj
    [(''protocol'', JStr (pb_protocol r)),
     (''endpoint'', json_str_opt (pb_endpoint r)),
     (''reachable'', json_opt JBool (pb_reachable r)),
     (''status'', JStr (pb_status r)),
     (''message'', JStr (pb_message r))]"

definition direct_failed :: "RouteProbeResult \<Rightarrow> bool" where
  "direct_failed r \<longleftrightarrow> is_direct_probe_protocol (pb_protocol r) \<and> pb_reachable r = Some False"

definition direct_reachable :: "RouteProbeResult \<Rightarrow> bool" where
  "direct_reachable r \<longleftrightarrow> is_direct_probe_protocol (pb_protocol r) \<and> pb_reachable r = Some True"

definition candidate_failures :: "RouteProbeResult list \<Rightarrow> json list" where
  "candidate_failures results = map probe_to_json (filter direct_failed results)"

record RoutePreflightDecision =
  pd_timeout_ms :: u64
  pd_results :: "RouteProbeResult list"
  pd_candidate_failures :: "json list"
  pd_recommended_fallback :: "string option"
  pd_selected_reason :: string
  pd_repair_hint :: string

definition to_plan_value :: "RoutePreflightDecision \<Rightarrow> json" where
  "to_plan_value d = json_obj
    [(''kind'', JStr ''local-direct-transport-probe''),
     (''timeout_ms'', json_u64 (pd_timeout_ms d)),
     (''results'', JArr (map probe_to_json (pd_results d))),
     (''candidate_failures'', JArr (pd_candidate_failures d)),
     (''recommended_fallback'', json_str_opt (pd_recommended_fallback d)),
     (''selected_reason'', JStr (pd_selected_reason d)),
     (''repair_hint'', JStr (pd_repair_hint d))]"

definition decide_route_preflight :: "u64 \<Rightarrow> RouteProbeResult list \<Rightarrow> RoutePreflightDecision" where
  "decide_route_preflight timeout_ms results =
    (let failures = candidate_failures results;
         direct_failures = length failures;
         direct_successes = length (filter direct_reachable results);
         recommended = (if direct_failures > 0 \<and> direct_successes = 0 then Some ''ssh-native'' else None)
     in \<lparr>pd_timeout_ms = timeout_ms, pd_results = results, pd_candidate_failures = failures,
         pd_recommended_fallback = recommended,
         pd_selected_reason =
           (if recommended \<noteq> None
            then ''all probed direct peer transports failed; SSH fallback is recommended before starting the route''
            else if direct_successes > 0
            then ''at least one direct peer transport was reachable before route start''
            else ''no failing direct peer transport was observed before route start''),
         pd_repair_hint =
           (if recommended \<noteq> None
            then ''use ssh-native fallback, or publish a peer endpoint reachable from this client''
            else if failures = [] then ''none''
            else ''publish a reachable peer endpoint, adjust firewall/NAT, or switch to an SSH fallback transport'')\<rparr>)"

record RouteFallbackInput =
  fi_recommended_fallback :: "string option"
  fi_current_transport :: TransportMode
  fi_selection_source :: "string option"

record RouteFallbackDecision =
  fd_selected_transport :: "TransportMode option"
  fd_selection_source :: "string option"
  fd_selection_reason :: "string option"
  fd_next_action :: "string option"

definition fallback_none :: RouteFallbackDecision where
  "fallback_none = \<lparr>fd_selected_transport = None, fd_selection_source = None, fd_selection_reason = None,
    fd_next_action = None\<rparr>"

definition decide_route_fallback :: "RouteFallbackInput \<Rightarrow> RouteFallbackDecision" where
  "decide_route_fallback input =
    (case fi_recommended_fallback input of
       None \<Rightarrow> fallback_none
     | Some recommended \<Rightarrow>
         if \<not> (fi_current_transport input = TransportMode.Auto \<or>
           fi_selection_source input \<in> set [Some ''topology'', Some ''benchmark-tuned default'']) then fallback_none
         else if recommended \<noteq> ''ssh-native'' \<and> recommended \<noteq> ''ssh-direct-tcpip'' then fallback_none
         else \<lparr>fd_selected_transport = Some SshNative, fd_selection_source = Some ''route-preflight'',
           fd_selection_reason = Some
             ''direct private transport preflight failed; selected SSH native direct-tcpip fallback'',
           fd_next_action = Some ''using ssh-native fallback; no user action required''\<rparr>)"

definition fallback_applied :: "RouteFallbackDecision \<Rightarrow> bool" where
  "fallback_applied d \<longleftrightarrow> fd_selected_transport d \<noteq> None"

definition fallback_fields ::
  "RouteFallbackDecision \<Rightarrow> TransportMode \<Rightarrow> SshSessionPoolReport option \<Rightarrow> (string \<times> json) list" where
  "fallback_fields d transport pool =
    (let selection_source = unwrap_or (fd_selection_source d) ''route-preflight'';
         selection_reason = unwrap_or (fd_selection_reason d) ''unknown'';
         next_action = unwrap_or (fd_next_action d) ''none'' in
     [(''selected_transport'', JStr (remote_transport_name transport)),
      (''transport_selection_source'', JStr selection_source),
      (''transport_selection_reason'', JStr selection_reason),
      (''ssh_mode'', ssh_mode_name transport),
      (''ssh_mode_reason'', ssh_mode_reason transport),
      (''ssh_data_plane_reason'', ssh_data_plane_reason transport (Some selection_source))]
     @ (case pool of None \<Rightarrow> [] | Some p \<Rightarrow>
         [(''ssh_session_pool_size'', json_u64 (ssp_size p)),
          (''ssh_session_pool_source'', JStr (ssp_source p)),
          (''ssh_session_pool_reason'', JStr (ssp_reason p)),
          (''ssh_session_pool_warning'', json_str_opt (ssp_warning p))])
     @ [(''fallback_reason'', JStr selection_reason), (''next_action'', JStr next_action)])"

definition apply_to_plan :: "RouteFallbackDecision \<Rightarrow> SshSessionPoolReport option \<Rightarrow> json \<Rightarrow> json" where
  "apply_to_plan d pool plan =
    (case fd_selected_transport d of
       None \<Rightarrow> plan
     | Some transport \<Rightarrow>
         refresh_route_decision_chain (fold (\<lambda>(k, v). json_insert k v) (fallback_fields d transport pool) plan))"

text \<open>\<^verbatim>\<open>add_local_transport_probe_results\<close> enters the decision on the probes into the plan.\<close>

definition enter_preflight :: "RoutePreflightDecision \<Rightarrow> json \<Rightarrow> json" where
  "enter_preflight d plan = refresh_route_decision_chain (json_insert ''preflight'' (to_plan_value d) plan)"

section \<open>Field lists\<close>

text \<open>The value a list of insertions leaves for a key.\<close>

definition last_value :: "(string \<times> json) list \<Rightarrow> string \<Rightarrow> json option" where
  "last_value kvs k = map_of (rev kvs) k"

lemma last_value_simps:
  "last_value [] k = None"
  "last_value ((k', v) # kvs) k = opt_or (last_value kvs k) (if k' = k then Some v else None)"
  "last_value (xs @ ys) k = opt_or (last_value ys k) (last_value xs k)"
  "last_value (skip_none k' f x) k = (if k' = k then map_option f x else None)"
  "last_value (if b then xs else ys) k = (if b then last_value xs k else last_value ys k)"
  by (auto simp: last_value_def skip_none_def map_of_append map_add_def opt_or_def split: option.split)

lemma opt_or_None [simp]: "opt_or x None = x"
  by (cases x) simp_all

lemma json_get_obj_last: "json_get (json_obj kvs) k = last_value kvs k"
  by (simp add: last_value_def)

declare json_get_obj [simp del]

lemma json_obj_eqI: "(\<And>k. last_value xs k = last_value ys k) \<Longrightarrow> json_obj xs = json_obj ys"
  unfolding json_obj_def last_value_def
  by (simp add: om_ext om_inv_from_list om_get_from_list)

lemma json_insert_obj: "json_insert k v (json_obj kvs) = json_obj (kvs @ [(k, v)])"
  by (simp add: json_obj_def om_from_list_def)

lemma fold_json_insert_obj: "fold (\<lambda>(k, v). json_insert k v) fs (json_obj kvs) = json_obj (kvs @ fs)"
  by (induction fs arbitrary: kvs) (auto simp: json_insert_obj)

section \<open>Reading back a printed plan\<close>

lemma as_u64_json [simp]: "as_u64 (json_u64 n) = Some n"
  using uint_bounded [of n] by (simp add: json_u64_def)

lemma runtime_round_trip: "runtime_from_legacy (runtime_to_json r) = r"
  by (simp add: runtime_from_legacy_def runtime_to_json_def runtime_u64_def runtime_usize_def runtime_string_def
    json_get_obj_last last_value_simps)

definition chain_of :: "RoutePlanReport \<Rightarrow> json" where
  "chain_of r = decision_chain_value r (runtime_to_json (pl_runtime r))"

text \<open>What reading a plan back keeps of the report: all the decision chain depends on.\<close>

definition chain_inputs :: "RoutePlanReport \<Rightarrow> RoutePlanReport" where
  "chain_inputs r = r\<lparr>pl_include_ssh_session_pool_fields := False, pl_ssh_session_pool := None\<rparr>"

lemma chain_of_inputs: "chain_inputs r = chain_inputs r' \<Longrightarrow> chain_of r = chain_of r'"
  by (cases r; cases r') (simp add: chain_inputs_def chain_of_def decision_chain_value_def)

lemma str_opt_back [simp]: "as_str (json_str_opt x) = x"
  by (cases x) (simp_all add: json_str_opt_def json_opt_def)

lemma map_option_bind_str [simp]: "Option.bind (map_option JStr x) as_str = x"
  by (cases x) simp_all

lemma map_filter_strings [simp]: "List.map_filter as_str (map JStr xs) = xs"
  by (induction xs) (simp_all add: List.map_filter_simps)

text \<open>The value of each field of a printed plan, whatever the sections it has.\<close>

lemma plan_field:
  "last_value (plan_fields r) ''route_id'' = Some (JStr (pl_route_id r))"
  "last_value (plan_fields r) ''direction'' = Some (JStr (pl_direction r))"
  "last_value (plan_fields r) ''owner'' = Some (JStr (pl_owner r))"
  "last_value (plan_fields r) ''mode'' = Some (JStr (pl_mode r))"
  "last_value (plan_fields r) ''listener'' = Some (pl_listener r)"
  "last_value (plan_fields r) ''egress'' = Some (pl_egress r)"
  "last_value (plan_fields r) ''transport_candidates'' = Some (JArr (map JStr (pl_transport_candidates r)))"
  "last_value (plan_fields r) ''selected_transport'' = Some (JStr (pl_selected_transport r))"
  "last_value (plan_fields r) ''transport_selection_source'' = map_option JStr (pl_transport_selection_source r)"
  "last_value (plan_fields r) ''transport_selection_reason'' = map_option JStr (pl_transport_selection_reason r)"
  "last_value (plan_fields r) ''topology'' = pl_topology r"
  "last_value (plan_fields r) ''preflight'' = pl_preflight r"
  "last_value (plan_fields r) ''runtime'' = Some (runtime_to_json (pl_runtime r))"
  "last_value (plan_fields r) ''fallback_reason'' = Some (json_str_opt (pl_fallback_reason r))"
  "last_value (plan_fields r) ''next_action'' = Some (JStr (pl_next_action r))"
  "last_value (plan_fields r) ''persist'' = Some (JBool (pl_persist r))"
  by (simp_all add: plan_fields_def insert_ssh_session_pool_def last_value_simps option.map_ident)

lemma plan_policy_field:
  "json_or (last_value (plan_fields r) ''direct_transport_policy'') JNull = pl_direct_transport_policy r"
  "json_or (last_value (plan_fields r) ''direct_transport_policy_reason'') JNull = pl_direct_transport_policy_reason r"
  "json_or (last_value (plan_fields r) ''tls_peer_auth_mode'') JNull = pl_tls_peer_auth_mode r"
  "json_or (last_value (plan_fields r) ''ssh_mode'') JNull = pl_ssh_mode r"
  "json_or (last_value (plan_fields r) ''ssh_mode_reason'') JNull = pl_ssh_mode_reason r"
  "json_or (last_value (plan_fields r) ''ssh_data_plane_reason'') JNull = pl_ssh_data_plane_reason r"
  by (auto simp: plan_fields_def insert_ssh_session_pool_def last_value_simps json_or_def has_transport_metadata_def)

text \<open>An object that agrees with the printed plan of \<open>r\<close> on everything but the decision chain is read back as \<open>r\<close>.\<close>

lemma from_legacy_agrees:
  assumes "\<And>k. k \<noteq> ''decision_chain'' \<Longrightarrow> json_get plan k = last_value (plan_fields r) k"
  shows "\<exists>r'. from_legacy_plan plan = Some r' \<and> chain_inputs r' = chain_inputs r"
proof -
  have get: "json_get plan k = last_value (plan_fields r) k" if "k \<noteq> ''decision_chain''" for k
    using assms that .
  show ?thesis
    by (simp add: from_legacy_plan_def plan_str_def get plan_field plan_policy_field chain_inputs_def runtime_round_trip
      json_or_def [of "Some x" for x] RoutePlanReport.equality)
qed

lemma refresh_agrees:
  assumes "\<And>k. k \<noteq> ''decision_chain'' \<Longrightarrow> last_value kvs k = last_value (plan_fields r) k"
  shows "refresh_route_decision_chain (json_obj kvs) = plan_to_json r"
proof -
  obtain r' where r': "from_legacy_plan (json_obj kvs) = Some r'" "chain_inputs r' = chain_inputs r"
    using from_legacy_agrees [of "json_obj kvs" r] assms by (auto simp: json_get_obj_last)
  have "chain_of r' = chain_of r"
    by (rule chain_of_inputs [OF r'(2)])
  then have "refresh_route_decision_chain (json_obj kvs) = json_obj (kvs @ [(''decision_chain'', chain_of r)])"
    using r'(1) by (simp add: refresh_route_decision_chain_def json_insert_obj flip: chain_of_def)
  also have "\<dots> = plan_to_json r"
    unfolding plan_to_json_def chain_of_def [symmetric] using assms
    by (intro json_obj_eqI) (simp add: last_value_simps)
  finally show ?thesis .
qed

section \<open>Properties\<close>

text \<open>The report after a fallback was applied to it.\<close>

definition fallback_report ::
  "RouteFallbackDecision \<Rightarrow> TransportMode \<Rightarrow> SshSessionPoolReport option \<Rightarrow> RoutePlanReport \<Rightarrow> RoutePlanReport" where
  "fallback_report d transport pool r =
    (let selection_source = unwrap_or (fd_selection_source d) ''route-preflight'';
         selection_reason = unwrap_or (fd_selection_reason d) ''unknown'';
         r = r\<lparr>pl_selected_transport := remote_transport_name transport,
           pl_transport_selection_source := Some selection_source,
           pl_transport_selection_reason := Some selection_reason,
           pl_ssh_mode := ssh_mode_name transport,
           pl_ssh_mode_reason := ssh_mode_reason transport,
           pl_ssh_data_plane_reason := ssh_data_plane_reason transport (Some selection_source),
           pl_fallback_reason := Some selection_reason,
           pl_next_action := unwrap_or (fd_next_action d) ''none''\<rparr> in
     case pool of
       None \<Rightarrow> r
     | Some p \<Rightarrow> r\<lparr>pl_include_ssh_session_pool_fields := True, pl_ssh_session_pool := Some p\<rparr>)"

definition plan_keys :: "string list" where
  "plan_keys =
    [''route_id'', ''direction'', ''owner'', ''mode'', ''listener'', ''egress'', ''transport_candidates'',
     ''selected_transport'', ''transport_selection_source'', ''transport_selection_reason'',
     ''direct_transport_policy'', ''direct_transport_policy_reason'', ''tls_peer_auth_mode'', ''ssh_mode'',
     ''ssh_mode_reason'', ''ssh_data_plane_reason'', ''ssh_session_pool_size'', ''ssh_session_pool_source'',
     ''ssh_session_pool_reason'', ''ssh_session_pool_warning'', ''topology'', ''preflight'', ''runtime'',
     ''fallback_reason'', ''next_action'', ''persist'']"

lemma last_value_None: "k \<notin> fst ` set kvs \<Longrightarrow> last_value kvs k = None"
  by (simp add: last_value_def map_of_eq_None_iff)

lemma plan_fields_keys: "fst ` set (plan_fields r) \<subseteq> set plan_keys"
  by (auto simp: plan_fields_def plan_keys_def skip_none_def insert_ssh_session_pool_def split: option.splits)

lemma fallback_fields_keys: "fst ` set (fallback_fields d t pool) \<subseteq> set plan_keys"
  by (auto simp: fallback_fields_def plan_keys_def Let_def split: option.splits)

lemma fallback_field:
  assumes "has_transport_metadata r" and "k \<in> set plan_keys"
  shows "opt_or (last_value (fallback_fields d t pool) k) (last_value (plan_fields r) k) =
    last_value (plan_fields (fallback_report d t pool r)) k"
proof -
  have "has_transport_metadata (fallback_report d t pool r)"
    by (simp add: fallback_report_def has_transport_metadata_def Let_def split: option.split)
  then have "list_all (\<lambda>k. opt_or (last_value (fallback_fields d t pool) k) (last_value (plan_fields r) k) =
    last_value (plan_fields (fallback_report d t pool r)) k) plan_keys"
    using assms(1)
    by (cases pool) (simp_all add: plan_keys_def plan_fields_def fallback_fields_def fallback_report_def
      insert_ssh_session_pool_def last_value_simps Let_def json_opt_def json_str_opt_def)
  then show ?thesis using assms(2) by (simp add: list_all_iff)
qed

text \<open>Editing the fields of a printed plan and refreshing it prints the edited report.\<close>

lemma edit_refines:
  assumes "\<And>k. k \<in> set plan_keys \<Longrightarrow> opt_or (last_value edits k) (last_value (plan_fields r) k) = last_value (plan_fields r') k"
    and "fst ` set edits \<subseteq> set plan_keys"
  shows "refresh_route_decision_chain (fold (\<lambda>(k, v). json_insert k v) edits (plan_to_json r)) = plan_to_json r'"
  unfolding plan_to_json_def [of r] fold_json_insert_obj
proof (rule refresh_agrees)
  fix k :: string
  assume k: "k \<noteq> ''decision_chain''"
  show "last_value ((plan_fields r @ [(''decision_chain'', decision_chain_value r (runtime_to_json (pl_runtime r)))]) @ edits) k =
    last_value (plan_fields r') k"
  proof (cases "k \<in> set plan_keys")
    case True
    then show ?thesis using assms(1) k by (simp add: last_value_simps)
  next
    case False
    then have "k \<notin> fst ` set edits" "k \<notin> fst ` set (plan_fields r)" "k \<notin> fst ` set (plan_fields r')"
      using assms(2) plan_fields_keys by blast+
    then show ?thesis using k by (simp add: last_value_simps last_value_None)
  qed
qed

lemma preflight_field:
  assumes "k \<in> set plan_keys"
  shows "opt_or (last_value [(''preflight'', v)] k) (last_value (plan_fields r) k) =
    last_value (plan_fields (r\<lparr>pl_preflight := Some v\<rparr>)) k"
proof -
  have "has_transport_metadata (r\<lparr>pl_preflight := Some v\<rparr>) = has_transport_metadata r"
    by (simp add: has_transport_metadata_def)
  then have "list_all (\<lambda>k. opt_or (last_value [(''preflight'', v)] k) (last_value (plan_fields r) k) =
    last_value (plan_fields (r\<lparr>pl_preflight := Some v\<rparr>)) k) plan_keys"
    by (simp add: plan_keys_def plan_fields_def insert_ssh_session_pool_def last_value_simps)
  then show ?thesis using assms by (simp add: list_all_iff)
qed

text \<open>
  C8. The printed plan stays a printed report.  Refreshing it changes nothing; entering the outcome of the probes, or
  a fallback, into the JSON and refreshing its decision chain gives exactly what printing the
  correspondingly updated report gives.
\<close>

theorem plan_edits_refine_report:
  "refresh_route_decision_chain (plan_to_json r) = plan_to_json r \<and>
   enter_preflight pd (plan_to_json r) = plan_to_json (r\<lparr>pl_preflight := Some (to_plan_value pd)\<rparr>) \<and>
   (has_transport_metadata r \<and> fd_selected_transport d = Some t \<longrightarrow>
     apply_to_plan d pool (plan_to_json r) = plan_to_json (fallback_report d t pool r))"
proof (intro conjI impI)
  show "refresh_route_decision_chain (plan_to_json r) = plan_to_json r"
    using edit_refines [of "[]" r r] by (simp add: last_value_simps)
  show "enter_preflight pd (plan_to_json r) = plan_to_json (r\<lparr>pl_preflight := Some (to_plan_value pd)\<rparr>)"
    using edit_refines [of "[(''preflight'', to_plan_value pd)]" r, OF preflight_field]
    by (simp add: enter_preflight_def plan_keys_def)
  show "apply_to_plan d pool (plan_to_json r) = plan_to_json (fallback_report d t pool r)"
    if "has_transport_metadata r \<and> fd_selected_transport d = Some t"
    using that edit_refines [of "fallback_fields d t pool" r, OF fallback_field fallback_fields_keys]
    by (simp add: apply_to_plan_def)
qed

definition sample_plan :: RoutePlanReport where
  "sample_plan =
    \<lparr>pl_route_id = ''r1'', pl_direction = ''local-uses-remote'', pl_owner = ''local'', pl_mode = ''local-forward'',
     pl_listener = JNull, pl_egress = JNull, pl_transport_candidates = [''tls-tcp'', ''ssh-native''],
     pl_selected_transport = ''tls-tcp'', pl_transport_selection_source = Some ''topology'',
     pl_transport_selection_reason = Some ''endpoint'', pl_direct_transport_policy = direct_transport_policy TlsTcp,
     pl_direct_transport_policy_reason = JNull, pl_tls_peer_auth_mode = JStr ''server_auth'', pl_ssh_mode = JNull,
     pl_ssh_mode_reason = JNull, pl_ssh_data_plane_reason = JNull, pl_include_ssh_session_pool_fields = False,
     pl_ssh_session_pool = None, pl_topology = None, pl_preflight = None,
     pl_runtime =
       \<lparr>rp_reconnect_delay_secs = 1, rp_reconnect_max_delay_secs = 30, rp_connect_timeout_secs = 10,
        rp_transport_pool_size = 4, rp_transport_pool_source = ''implicit'', rp_transport_pool_reason = [],
        rp_pool_policy = ''concurrent'', rp_workload_hint = ''concurrent'', rp_no_reconnect = False\<rparr>,
     pl_fallback_reason = None, pl_next_action = ''none'', pl_persist = True\<rparr>"

definition sample_fallback :: RouteFallbackDecision where
  "sample_fallback = decide_route_fallback
    \<lparr>fi_recommended_fallback = Some ''ssh-native'', fi_current_transport = TlsTcp, fi_selection_source = Some ''topology''\<rparr>"

lemma sample_fallback_selects: "fd_selected_transport sample_fallback = Some SshNative"
  by (simp add: sample_fallback_def decide_route_fallback_def)

theorem plan_edits_refine_report_witness:
  "has_transport_metadata sample_plan \<and> fd_selected_transport sample_fallback = Some SshNative \<and>
   apply_to_plan sample_fallback None (plan_to_json sample_plan) =
     plan_to_json (fallback_report sample_fallback SshNative None sample_plan)"
  using plan_edits_refine_report [of sample_plan "decide_route_preflight 750 []" sample_fallback SshNative None] sample_fallback_selects
  by (simp add: sample_plan_def has_transport_metadata_def)

text \<open>
  The policy of the transport that was given up stays in the plan: after the fallback from TLS to SSH the plan
  still reports the direct policy and the authentication mode of TLS.
\<close>

lemma fallback_keeps_direct_policy:
  "let plan = apply_to_plan sample_fallback None (plan_to_json sample_plan) in
   json_get plan ''selected_transport'' = Some (JStr ''ssh-native'') \<and>
   json_get plan ''direct_transport_policy'' = Some (JStr ''production_direct'') \<and>
   direct_transport_policy SshNative = JNull \<and>
   json_get plan ''tls_peer_auth_mode'' = Some (JStr ''server_auth'') \<and>
   tls_peer_auth_mode SshNative False False = JNull"
proof -
  have md: "has_transport_metadata sample_plan"
    by (simp add: sample_plan_def has_transport_metadata_def)
  have "apply_to_plan sample_fallback None (plan_to_json sample_plan) =
      plan_to_json (fallback_report sample_fallback SshNative None sample_plan)"
    using edit_refines [of "fallback_fields sample_fallback SshNative None" sample_plan, OF fallback_field [OF md] fallback_fields_keys]
    by (simp add: apply_to_plan_def sample_fallback_selects)
  then show ?thesis
    by (simp add: Let_def plan_to_json_def json_get_obj_last plan_fields_def last_value_simps fallback_report_def
      sample_plan_def has_transport_metadata_def tls_peer_auth_mode_def)
qed

lemma explicit_selection_source:
  assumes "transport_selection_policy input = Inr sel"
    and "requested_transport input \<noteq> TransportMode.Auto \<or>
      (\<exists>v t. profile_remote_transport input = Some v \<and> parse_transport_mode v = Inr t \<and> t \<noteq> TransportMode.Auto)"
  shows "ts_source sel \<in> {''cli'', ''profile''} \<and> ts_transport sel \<noteq> TransportMode.Auto"
  using assms by (auto simp: transport_selection_policy_def select_def split: if_splits)

lemma recommended_fallback_iff:
  "pd_recommended_fallback (decide_route_preflight timeout results) =
    (if (\<exists>p\<in>set results. direct_failed p) \<and> \<not> (\<exists>p\<in>set results. direct_reachable p) then Some ''ssh-native'' else None)"
  by (auto simp: decide_route_preflight_def candidate_failures_def filter_empty_conv Let_def)

text \<open>
  C23. A fallback never overrides what the user chose.  With a transport from the command line or the profile the plan
  stays as it is whatever the probes say; otherwise the fallback is taken only when some direct
  probe failed and none succeeded.
\<close>

theorem fallback_respects_explicit_choice:
  assumes "transport_selection_policy input = Inr sel"
    and "d = decide_route_fallback
      \<lparr>fi_recommended_fallback = pd_recommended_fallback (decide_route_preflight timeout results),
       fi_current_transport = ts_transport sel, fi_selection_source = Some (ts_source sel)\<rparr>"
  shows "(requested_transport input \<noteq> TransportMode.Auto \<or>
      (\<exists>v t. profile_remote_transport input = Some v \<and> parse_transport_mode v = Inr t \<and> t \<noteq> TransportMode.Auto) \<longrightarrow>
      apply_to_plan d pool plan = plan) \<and>
    (fallback_applied d \<longrightarrow>
      (\<exists>p\<in>set results. direct_failed p) \<and> \<not> (\<exists>p\<in>set results. direct_reachable p) \<and>
      fd_selected_transport d = Some SshNative)"
proof (intro conjI impI)
  assume "requested_transport input \<noteq> TransportMode.Auto \<or>
      (\<exists>v t. profile_remote_transport input = Some v \<and> parse_transport_mode v = Inr t \<and> t \<noteq> TransportMode.Auto)"
  then have "ts_source sel \<in> {''cli'', ''profile''}" "ts_transport sel \<noteq> TransportMode.Auto"
    using explicit_selection_source [OF assms(1)] by blast+
  then have "d = fallback_none"
    using assms(2) by (auto simp: decide_route_fallback_def split: option.split)
  then show "apply_to_plan d pool plan = plan"
    by (simp add: apply_to_plan_def fallback_none_def)
next
  assume "fallback_applied d"
  then show "\<exists>p\<in>set results. direct_failed p" "\<not> (\<exists>p\<in>set results. direct_reachable p)"
    "fd_selected_transport d = Some SshNative"
    unfolding assms(2) recommended_fallback_iff
    by (auto simp: decide_route_fallback_def fallback_applied_def fallback_none_def split: if_splits)
qed

definition sample_probe :: RouteProbeResult where
  "sample_probe = \<lparr>pb_protocol = ''tls-tcp'', pb_endpoint = None, pb_reachable = Some False, pb_status = ''failed'', pb_message = []\<rparr>"

theorem fallback_respects_explicit_choice_witness:
  "\<exists>sel. transport_selection_policy (policy_defaults\<lparr>requested_transport := TlsTcp\<rparr>) = Inr sel \<and>
    apply_to_plan (decide_route_fallback
      \<lparr>fi_recommended_fallback = pd_recommended_fallback (decide_route_preflight 750 [sample_probe]),
       fi_current_transport = ts_transport sel, fi_selection_source = Some (ts_source sel)\<rparr>) None
      (plan_to_json sample_plan) = plan_to_json sample_plan"
proof -
  let ?sel = "\<lparr>ts_transport = TlsTcp, ts_source = ''cli'', ts_reason = ''selected by --remote-transport tls-tcp''\<rparr>"
  have "transport_selection_policy (policy_defaults\<lparr>requested_transport := TlsTcp\<rparr>) = Inr ?sel"
    by (simp add: transport_selection_policy_def policy_defaults_def select_def)
  from this fallback_respects_explicit_choice [OF this refl, of 750 "[sample_probe]" None "plan_to_json sample_plan"]
  show ?thesis by (auto simp: policy_defaults_def)
qed

end
