(* ===== verification/Route_Status.thy ===== *)
theory Route_Status
  imports Json
begin

text \<open>
  What a running route reports (\<^verbatim>\<open>ssh-proxy-route/src/status.rs\<close>) and the supervisor that restarts it
  (\<^verbatim>\<open>ssh-proxy/src/node_daemon/routes/supervisor.rs\<close>).  The clock is read by the caller of each operation.
\<close>

section \<open>Statistics and readiness\<close>

record RouteStats =
  st_state :: string
  st_attempts :: u64
  st_restart_count :: u64
  st_last_error :: "string option"
  st_last_event :: "string option"
  st_started_at_unix :: u64
  st_updated_at_unix :: u64

definition route_stats_default :: "u64 \<Rightarrow> RouteStats" where
  "route_stats_default now =
    \<lparr>st_state = ''starting'', st_attempts = 0, st_restart_count = 0, st_last_error = None,
     st_last_event = Some ''route task created'', st_started_at_unix = now, st_updated_at_unix = now\<rparr>"

record RouteReadinessReport =
  rr_state :: string
  rr_phase :: string
  rr_retry_count :: u64
  rr_attempts :: u64
  rr_blocker :: "string option"
  rr_next_action :: string
  rr_managed_by :: string
  rr_job_id :: string
  rr_route_id :: string
  rr_peer :: "string option"
  rr_updated_at :: u64

definition readiness_phase :: "string \<Rightarrow> string" where
  "readiness_phase s =
    (if s = ''running'' then ''ready''
     else if s = ''failed'' \<or> s = ''error'' then ''failed''
     else if s = ''restarting'' then ''starting''
     else if s = ''stopping'' \<or> s = ''stopped'' then ''stopped''
     else ''starting'')"

definition readiness_from_stats :: "string \<Rightarrow> string option \<Rightarrow> RouteStats \<Rightarrow> RouteReadinessReport" where
  "readiness_from_stats i peer stats =
    (let phase = readiness_phase (st_state stats);
         next_action =
           (if phase = ''ready'' then ''none''
            else if phase = ''failed'' then ''restart-route''
            else if phase = ''stopped'' then ''remove-or-restart-route''
            else ''wait'') in
     \<lparr>rr_state = st_state stats, rr_phase = phase, rr_retry_count = st_restart_count stats,
      rr_attempts = st_attempts stats, rr_blocker = st_last_error stats, rr_next_action = next_action,
      rr_managed_by = ''current-daemon'', rr_job_id = ''route:'' @ i, rr_route_id = i, rr_peer = peer,
      rr_updated_at = st_updated_at_unix stats\<rparr>)"

record RouteTaskRecord =
  tr_id :: string
  tr_direction :: string
  tr_detail :: string
  tr_listen :: "string option"
  tr_peer :: "string option"
  tr_persist :: bool
  tr_created_at_unix :: u64
  tr_fallback_reason :: "string option"
  tr_task_finished :: bool
  tr_runtime :: json
  tr_stats :: RouteStats
  tr_link :: json

record RouteStatusReport =
  sr_id :: string
  sr_direction :: string
  sr_detail :: string
  sr_listen :: "string option"
  sr_peer :: "string option"
  sr_persist :: bool
  sr_created_at_unix :: u64
  sr_fallback_reason :: "string option"
  sr_task_finished :: bool
  sr_runtime :: json
  sr_state :: string
  sr_last_error :: "string option"
  sr_started_at :: u64
  sr_updated_at :: u64
  sr_readiness :: RouteReadinessReport
  sr_managed_by :: string
  sr_job_id :: string
  sr_stats :: RouteStats
  sr_link :: json

definition to_status_report :: "RouteTaskRecord \<Rightarrow> RouteStatusReport" where
  "to_status_report t =
    \<lparr>sr_id = tr_id t, sr_direction = tr_direction t, sr_detail = tr_detail t, sr_listen = tr_listen t,
     sr_peer = tr_peer t, sr_persist = tr_persist t, sr_created_at_unix = tr_created_at_unix t,
     sr_fallback_reason = tr_fallback_reason t, sr_task_finished = tr_task_finished t, sr_runtime = tr_runtime t,
     sr_state = st_state (tr_stats t), sr_last_error = st_last_error (tr_stats t),
     sr_started_at = st_started_at_unix (tr_stats t), sr_updated_at = st_updated_at_unix (tr_stats t),
     sr_readiness = readiness_from_stats (tr_id t) (tr_peer t) (tr_stats t), sr_managed_by = ''current-daemon'',
     sr_job_id = ''route:'' @ tr_id t, sr_stats = tr_stats t, sr_link = tr_link t\<rparr>"

section \<open>The supervisor\<close>

text \<open>
  A supervisor is between two holds of the statistics' lock: about to make an attempt, running one, or asleep
  until the next.  The delay is in seconds.
\<close>

datatype supervisor_phase = Attempting | Attempt_Running | Sleeping

record Supervisor =
  sv_stats :: RouteStats
  sv_delay :: nat
  sv_phase :: supervisor_phase

definition attempt_begin :: "u64 \<Rightarrow> RouteStats \<Rightarrow> RouteStats" where
  "attempt_begin now stats = stats\<lparr>st_state := ''running'', st_attempts := st_attempts stats + 1,
    st_last_event := Some ''route task starting'', st_updated_at_unix := now\<rparr>"

definition attempt_end :: "u64 \<Rightarrow> u64 \<Rightarrow> nat \<Rightarrow> (string, unit) result \<Rightarrow> RouteStats \<Rightarrow> RouteStats" where
  "attempt_end now now' delay result stats =
    (let stats = stats\<lparr>st_updated_at_unix := now\<rparr>;
         stats =
           (case result of
              Inr _ \<Rightarrow> stats\<lparr>st_state := ''exited'', st_last_event := Some ''route task exited cleanly''\<rparr>
            | Inl err \<Rightarrow> stats\<lparr>st_state := ''error'', st_last_error := Some err,
                st_last_event := Some ''route task failed''\<rparr>)
     in stats\<lparr>st_restart_count := st_restart_count stats + 1, st_state := ''restarting'',
          st_last_event := Some (''route task restarting in '' @ show_nat delay @ ''s''), st_updated_at_unix := now'\<rparr>)"

definition next_delay :: "nat \<Rightarrow> nat" where
  "next_delay delay = min (delay * 2) 30"

definition supervisor_start :: "u64 \<Rightarrow> Supervisor" where
  "supervisor_start now = \<lparr>sv_stats = route_stats_default now, sv_delay = 1, sv_phase = Attempting\<rparr>"

definition supervisor_begin :: "u64 \<Rightarrow> Supervisor \<Rightarrow> Supervisor" where
  "supervisor_begin now s = s\<lparr>sv_stats := attempt_begin now (sv_stats s), sv_phase := Attempt_Running\<rparr>"

definition supervisor_end :: "u64 \<Rightarrow> u64 \<Rightarrow> (string, unit) result \<Rightarrow> Supervisor \<Rightarrow> Supervisor" where
  "supervisor_end now now' result s =
    s\<lparr>sv_stats := attempt_end now now' (sv_delay s) result (sv_stats s), sv_phase := Sleeping\<rparr>"

text \<open>The sleep of \<^term>\<open>sv_delay s\<close> seconds is over; only then the delay grows.\<close>

definition supervisor_wake :: "Supervisor \<Rightarrow> Supervisor" where
  "supervisor_wake s = s\<lparr>sv_delay := next_delay (sv_delay s), sv_phase := Attempting\<rparr>"

text \<open>
  The states others can observe while the supervisor runs, with the results of the attempts so far, latest
  first, and the sleeps between them, in order.
\<close>

inductive supervised :: "(string, unit) result list \<Rightarrow> nat list \<Rightarrow> Supervisor \<Rightarrow> bool" where
  sup_start: "supervised [] [] (supervisor_start now)"
| sup_begin: "supervised rs ds s \<Longrightarrow> sv_phase s = Attempting \<Longrightarrow> supervised rs ds (supervisor_begin now s)"
| sup_end: "supervised rs ds s \<Longrightarrow> sv_phase s = Attempt_Running \<Longrightarrow> supervised (r # rs) ds (supervisor_end now now' r s)"
| sup_wake: "supervised rs ds s \<Longrightarrow> sv_phase s = Sleeping \<Longrightarrow> supervised rs (ds @ [sv_delay s]) (supervisor_wake s)"

section \<open>Properties\<close>

fun last_failure :: "(string, unit) result list \<Rightarrow> string option" where
  "last_failure [] = None"
| "last_failure (Inl e # rs) = Some e"
| "last_failure (Inr _ # rs) = last_failure rs"

definition backoff :: "nat \<Rightarrow> nat" where
  "backoff k = min (2 ^ k) 30"

lemma next_backoff: "next_delay (backoff k) = backoff (Suc k)"
  by (auto simp: next_delay_def backoff_def min_def)

lemma supervised_delays:
  "supervised rs ds s \<Longrightarrow>
    sv_delay s = backoff (length ds) \<and> ds = map backoff [0..<length ds] \<and>
    length rs = length ds + (if sv_phase s = Sleeping then 1 else 0)"
proof (induction rule: supervised.induct)
  case (sup_wake rs ds s)
  then have "map backoff [0..<length (ds @ [sv_delay s])] = ds @ [sv_delay s]"
    by simp
  then show ?case
    using sup_wake by (simp add: supervisor_wake_def next_backoff del: upt_Suc)
qed (auto simp: supervisor_start_def supervisor_begin_def supervisor_end_def backoff_def)

lemma supervised_stats:
  "supervised rs ds s \<Longrightarrow>
    st_restart_count (sv_stats s) = word_of_nat (length rs) \<and>
    st_attempts (sv_stats s) = word_of_nat (length rs + (if sv_phase s = Attempt_Running then 1 else 0)) \<and>
    st_last_error (sv_stats s) = last_failure rs \<and>
    st_state (sv_stats s) = (if sv_phase s = Attempt_Running then ''running'' else if rs = [] then ''starting'' else ''restarting'') \<and>
    (sv_phase s = Sleeping \<longrightarrow>
      st_last_event (sv_stats s) = Some (''route task restarting in '' @ show_nat (sv_delay s) @ ''s''))"
proof (induction rule: supervised.induct)
  case (sup_end rs ds s r now now')
  then show ?case
    by (cases r) (auto simp: supervisor_end_def attempt_end_def Let_def)
qed (auto simp: supervisor_start_def route_stats_default_def supervisor_begin_def attempt_begin_def supervisor_wake_def)

text \<open>
  C35. A supervised route keeps trying: the sleeps between its attempts are 1, 2, 4, 8, 16 and from then on 30 seconds, and
  while it sleeps its last event names the sleep it is in.  The counters count the attempts begun and the attempts
  ended, and the last error stays on record.  Its readiness is only ever \<open>ready\<close> or \<open>starting\<close>: however often it fails,
  the phase \<open>failed\<close> and its next action \<open>restart-route\<close> are never reported.
\<close>

theorem supervised_route_readiness:
  assumes "supervised rs ds s"
  shows "ds = map (\<lambda>k. min (2 ^ k) 30) [0..<length ds] \<and>
    length rs = length ds + (if sv_phase s = Sleeping then 1 else 0) \<and>
    (sv_phase s = Sleeping \<longrightarrow> sv_delay s = min (2 ^ length ds) 30 \<and>
      st_last_event (sv_stats s) = Some (''route task restarting in '' @ show_nat (min (2 ^ length ds) 30) @ ''s'')) \<and>
    rr_attempts (readiness_from_stats i peer (sv_stats s))
      = word_of_nat (length rs + (if sv_phase s = Attempt_Running then 1 else 0)) \<and>
    rr_retry_count (readiness_from_stats i peer (sv_stats s)) = word_of_nat (length rs) \<and>
    rr_blocker (readiness_from_stats i peer (sv_stats s)) = last_failure rs \<and>
    rr_phase (readiness_from_stats i peer (sv_stats s)) = (if sv_phase s = Attempt_Running then ''ready'' else ''starting'') \<and>
    rr_next_action (readiness_from_stats i peer (sv_stats s)) = (if sv_phase s = Attempt_Running then ''none'' else ''wait'')"
proof -
  have "ds = map (\<lambda>k. min (2 ^ k) 30) [0..<length ds] \<and> sv_delay s = min (2 ^ length ds) 30 \<and>
      length rs = length ds + (if sv_phase s = Sleeping then 1 else 0)"
    using supervised_delays [OF assms] by (simp add: backoff_def [abs_def])
  then show ?thesis
    using supervised_stats [OF assms] by (simp add: readiness_from_stats_def readiness_phase_def Let_def)
qed

theorem supervised_route_readiness_witness:
  "let s = supervisor_end 3 3 (Inl ''refused'') (supervisor_begin 2 (supervisor_start 1)) in
   sv_delay s = 1 \<and> rr_phase (readiness_from_stats ''r'' None (sv_stats s)) = ''starting'' \<and>
   rr_attempts (readiness_from_stats ''r'' None (sv_stats s)) = 1 \<and>
   rr_blocker (readiness_from_stats ''r'' None (sv_stats s)) = Some ''refused''"
proof -
  have "supervised [Inl ''refused''] [] (supervisor_end 3 3 (Inl ''refused'') (supervisor_begin 2 (supervisor_start 1)))"
    by (intro supervised.intros) (simp_all add: supervisor_start_def supervisor_begin_def)
  from supervised_route_readiness [OF this, of "''r''" None] show ?thesis
    by (auto simp: Let_def supervisor_end_def)
qed

end
