(* ===== verification/Route_Table.thy ===== *)
theory Route_Table
  imports Route_Decision Route_Status Private_Files
begin

text \<open>
  The route table of the daemon (\<^verbatim>\<open>ssh-proxy/src/node_daemon/routes.rs\<close> with its submodules, and
  \<^verbatim>\<open>ssh-proxy-route/src/conflict.rs\<close>): starting, stopping and restarting routes, the policy that keeps two routes from
  listening on one address, and the store that brings persistent routes back after a restart.

  The table is a hash map in the code; here its iteration order is the order of the keys.  The JSON
  form of a route specification and the text of the store come from \<^verbatim>\<open>serde\<close> and are parameters.
\<close>

section \<open>Conflicts\<close>

record RouteConflictRoute =
  cr_id :: string
  cr_direction :: string
  cr_listen :: "string option"
  cr_peer :: "string option"
  cr_spec :: json

record RouteConflictInput =
  ci_id :: "string option"
  ci_direction :: string
  ci_listen :: string
  ci_peer :: "string option"
  ci_spec :: json

datatype RouteConflictDecision =
    Available
  | ReuseExisting string
  | DifferentSpec string
  | ListenerReserved string

definition is_reverse_spec :: "json \<Rightarrow> bool" where
  "is_reverse_spec v =
    (case Option.bind (json_get v ''direction'') as_str of
       None \<Rightarrow> False
     | Some d \<Rightarrow> eq_ignore_ascii_case d ''reverse'')"

definition normalized_route_spec :: "json \<Rightarrow> json" where
  "normalized_route_spec v =
    (if is_reverse_spec v then
       (case v of
          JObj m \<Rightarrow>
            (case om_get m ''reverse'' of
               Some (JObj reverse) \<Rightarrow> JObj (om_insert ''reverse'' (JObj (om_remove ''identity'' reverse)) m)
             | _ \<Rightarrow> v)
        | _ \<Rightarrow> v)
     else v)"

definition route_specs_match_values :: "json \<Rightarrow> json \<Rightarrow> bool" where
  "route_specs_match_values left right \<longleftrightarrow> normalized_route_spec left = normalized_route_spec right"

definition route_matches :: "RouteConflictRoute \<Rightarrow> RouteConflictInput \<Rightarrow> bool" where
  "route_matches route candidate \<longleftrightarrow> cr_direction route = ci_direction candidate \<and>
    cr_listen route = Some (ci_listen candidate) \<and>
    (case ci_peer candidate of Some peer \<Rightarrow> cr_peer route = Some peer | None \<Rightarrow> True) \<and>
    route_specs_match_values (cr_spec route) (ci_spec candidate)"

definition route_reserves_listener :: "RouteConflictRoute \<Rightarrow> RouteConflictInput \<Rightarrow> bool" where
  "route_reserves_listener route candidate \<longleftrightarrow> cr_direction route = ci_direction candidate \<and>
    cr_listen route = Some (ci_listen candidate) \<and>
    (ci_direction candidate = ''forward'' \<or>
      (case ci_peer candidate of Some peer \<Rightarrow> cr_peer route = Some peer | None \<Rightarrow> False))"

definition reserved_listener :: "RouteConflictRoute list \<Rightarrow> RouteConflictInput \<Rightarrow> RouteConflictDecision" where
  "reserved_listener existing candidate =
    (case find (\<lambda>route. route_reserves_listener route candidate) existing of
       Some route \<Rightarrow> ListenerReserved (cr_id route)
     | None \<Rightarrow> Available)"

definition decide_route_conflict :: "RouteConflictRoute list \<Rightarrow> RouteConflictInput \<Rightarrow> RouteConflictDecision" where
  "decide_route_conflict existing candidate =
    (case ci_id candidate of
       None \<Rightarrow> reserved_listener existing candidate
     | Some i \<Rightarrow>
         (case find (\<lambda>route. cr_id route = i) existing of
            Some route \<Rightarrow> if route_matches route candidate then ReuseExisting (cr_id route) else DifferentSpec (cr_id route)
          | None \<Rightarrow> reserved_listener existing candidate))"

section \<open>Route specifications\<close>

text \<open>The arguments of a route that the table reads; the others are kept as they are.\<close>

record 'x ProxyArgs =
  pa_target :: string
  pa_listen :: SocketAddr
  pa_remote_transport :: TransportMode
  pa_other :: 'x

record 'x ReverseTaskArgs =
  rv_target :: string
  rv_remote_listen :: SocketAddr
  rv_other :: 'x

datatype 'x RouteSpec = Forward "'x ProxyArgs" | Reverse "'x ReverseTaskArgs"

fun spec_direction :: "'x RouteSpec \<Rightarrow> string" where
  "spec_direction (Forward _) = ''forward''"
| "spec_direction (Reverse _) = ''reverse''"

fun spec_detail :: "'x RouteSpec \<Rightarrow> string" where
  "spec_detail (Forward p) = socket_show (pa_listen p) @ '' -> '' @ pa_target p"
| "spec_detail (Reverse r) = socket_show (rv_remote_listen r) @ '' <- '' @ rv_target r"

fun spec_listen :: "'x RouteSpec \<Rightarrow> SocketAddr" where
  "spec_listen (Forward p) = pa_listen p"
| "spec_listen (Reverse r) = rv_remote_listen r"

fun spec_peer :: "'x RouteSpec \<Rightarrow> string" where
  "spec_peer (Forward p) = pa_target p"
| "spec_peer (Reverse r) = rv_target r"

fun execution_backend :: "'x RouteSpec \<Rightarrow> string" where
  "execution_backend (Forward p) =
    (case pa_remote_transport p of
       TransportMode.Auto \<Rightarrow> ''auto''
     | SshNative \<Rightarrow> ''ssh_native''
     | QuicNative \<Rightarrow> ''quic_native''
     | Quic \<Rightarrow> ''quic''
     | TlsTcp \<Rightarrow> ''tls_tcp''
     | PlainTcp \<Rightarrow> ''plain_tcp''
     | Exec \<Rightarrow> ''ssh_exec''
     | Tcp \<Rightarrow> ''ssh_tcp'')"
| "execution_backend (Reverse _) = ''ssh_reverse_link''"

section \<open>The table\<close>

datatype RouteLinkState = SpxLink | QuicNativeLink | SshNativeLink

fun link_state_of :: "'x RouteSpec \<Rightarrow> RouteLinkState option" where
  "link_state_of (Forward p) =
    (case pa_remote_transport p of
       SshNative \<Rightarrow> Some SshNativeLink
     | QuicNative \<Rightarrow> Some QuicNativeLink
     | _ \<Rightarrow> Some SpxLink)"
| "link_state_of (Reverse _) = None"

record 'x RouteTask =
  rt_spec :: "'x RouteSpec"
  rt_direction :: string
  rt_detail :: string
  rt_listen :: "SocketAddr option"
  rt_peer :: "string option"
  rt_persist :: bool
  rt_created_at_unix :: u64
  rt_fallback_reason :: "string option"
  rt_stats :: RouteStats
  rt_link_state :: "RouteLinkState option"
  rt_finished :: bool

type_synonym 'x routes = "(string, 'x RouteTask) omap"

datatype RouteStartOutcome = Started | ReusedExisting bool bool

fun reused_existing :: "RouteStartOutcome \<Rightarrow> bool" where
  "reused_existing Started = False"
| "reused_existing (ReusedExisting _ _) = True"

fun outcome_persist :: "RouteStartOutcome \<Rightarrow> bool \<Rightarrow> bool" where
  "outcome_persist Started requested = requested"
| "outcome_persist (ReusedExisting persist _) requested = persist"

fun should_save_route_store :: "RouteStartOutcome \<Rightarrow> bool \<Rightarrow> bool" where
  "should_save_route_store Started requested = requested"
| "should_save_route_store (ReusedExisting _ upgraded_persist) requested = upgraded_persist"

datatype route_error =
    SpecNotSerializable
  | AlreadyOwnsListener string
  | PortUnavailable
  | RunningWithDifferentSpec string
  | NotRunning string
  | MissingId
  | MissingDirection
  | MissingProxyArgs
  | MissingReverseArgs
  | UnknownDirection string
  | BadDefaults
  | StoreNotSerializable
  | StoreNotWritten save_error

text \<open>The JSON form of specifications, and which addresses can be bound at the moment of the call.\<close>

record 'x route_env =
  spec_value :: "'x RouteSpec \<Rightarrow> json option"
  port_free :: "SocketAddr \<Rightarrow> bool"

definition route_spec_value :: "'x route_env \<Rightarrow> 'x RouteSpec \<Rightarrow> (route_error, json) result" where
  "route_spec_value env spec = ok_or SpecNotSerializable (spec_value env spec)"

definition route_conflict_route ::
  "'x route_env \<Rightarrow> string \<Rightarrow> 'x RouteTask \<Rightarrow> (route_error, RouteConflictRoute) result" where
  "route_conflict_route env i task = and_then (route_spec_value env (rt_spec task)) (\<lambda>v.
    Inr \<lparr>cr_id = i, cr_direction = rt_direction task, cr_listen = map_option socket_show (rt_listen task),
      cr_peer = rt_peer task, cr_spec = v\<rparr>)"

fun route_conflict_routes :: "'x route_env \<Rightarrow> 'x routes \<Rightarrow> (route_error, RouteConflictRoute list) result" where
  "route_conflict_routes env [] = Inr []"
| "route_conflict_routes env ((i, task) # routes) =
    and_then (route_conflict_route env i task) (\<lambda>r.
    and_then (route_conflict_routes env routes) (\<lambda>rs. Inr (r # rs)))"

definition route_conflict_input ::
  "'x route_env \<Rightarrow> string option \<Rightarrow> string \<Rightarrow> SocketAddr \<Rightarrow> string option \<Rightarrow> 'x RouteSpec \<Rightarrow>
    (route_error, RouteConflictInput) result" where
  "route_conflict_input env i direction listen peer spec = and_then (route_spec_value env spec) (\<lambda>v.
    Inr \<lparr>ci_id = i, ci_direction = direction, ci_listen = socket_show listen, ci_peer = peer, ci_spec = v\<rparr>)"

definition ensure_port_available :: "'x route_env \<Rightarrow> SocketAddr \<Rightarrow> (route_error, unit) result" where
  "ensure_port_available env addr = (if port_free env addr then Inr () else Inl PortUnavailable)"

definition ensure_new_route_can_start ::
  "'x route_env \<Rightarrow> 'x routes \<Rightarrow> string \<Rightarrow> SocketAddr \<Rightarrow> string option \<Rightarrow> 'x RouteSpec \<Rightarrow> (route_error, unit) result" where
  "ensure_new_route_can_start env routes direction listen peer spec =
    and_then (route_conflict_input env None direction listen peer spec) (\<lambda>candidate.
    and_then (route_conflict_routes env routes) (\<lambda>existing.
    case decide_route_conflict existing candidate of
      ListenerReserved i \<Rightarrow> Inl (AlreadyOwnsListener i)
    | _ \<Rightarrow> (case spec of
          Forward _ \<Rightarrow> ensure_port_available env listen
        | Reverse _ \<Rightarrow> Inr ())))"

definition route_task_matches ::
  "'x route_env \<Rightarrow> 'x RouteTask \<Rightarrow> string \<Rightarrow> SocketAddr \<Rightarrow> string option \<Rightarrow> 'x RouteSpec \<Rightarrow> bool" where
  "route_task_matches env task direction listen peer spec =
    (case route_conflict_route env ''_candidate'' task of
       Inl _ \<Rightarrow> False
     | Inr route \<Rightarrow>
         (case route_conflict_input env None direction listen peer spec of
            Inl _ \<Rightarrow> False
          | Inr candidate \<Rightarrow> route_matches route candidate))"

text \<open>
  One hold of the table's lock in \<^verbatim>\<open>start_route_spec\<close>: finished tasks are dropped; a route of that id is reused or refused; otherwise
  the new route must be able to start.
\<close>

definition start_section ::
  "'x route_env \<Rightarrow> string \<Rightarrow> 'x RouteSpec \<Rightarrow> bool \<Rightarrow> 'x routes \<Rightarrow>
    'x routes \<times> (route_error, RouteStartOutcome option) result" where
  "start_section env i spec persist routes =
    (let direction = spec_direction spec; listen = spec_listen spec; peer = Some (spec_peer spec);
         routes = om_retain (\<lambda>_ task. \<not> rt_finished task) routes in
     case om_get routes i of
       Some task \<Rightarrow>
         if route_task_matches env task direction listen peer spec then
           let upgraded_persist = (persist \<and> \<not> rt_persist task);
               task = (if upgraded_persist then task\<lparr>rt_persist := True\<rparr> else task) in
           (om_insert i task routes, Inr (Some (ReusedExisting (rt_persist task) upgraded_persist)))
         else (routes, Inl (RunningWithDifferentSpec i))
     | None \<Rightarrow>
         (case ensure_new_route_can_start env routes direction listen peer spec of
            Inl e \<Rightarrow> (routes, Inl e)
          | Inr _ \<Rightarrow> (routes, Inr None)))"

definition new_route_task :: "u64 \<Rightarrow> 'x RouteSpec \<Rightarrow> bool \<Rightarrow> u64 \<Rightarrow> string option \<Rightarrow> 'x RouteTask" where
  "new_route_task now spec persist created_at_unix fallback_reason =
    \<lparr>rt_spec = spec, rt_direction = spec_direction spec, rt_detail = spec_detail spec,
     rt_listen = Some (spec_listen spec), rt_peer = Some (spec_peer spec), rt_persist = persist,
     rt_created_at_unix = created_at_unix, rt_fallback_reason = fallback_reason,
     rt_stats = route_stats_default now, rt_link_state = link_state_of spec, rt_finished = False\<rparr>"

definition start_commit ::
  "'x route_env \<Rightarrow> u64 \<Rightarrow> string \<Rightarrow> 'x RouteSpec \<Rightarrow> bool \<Rightarrow> u64 \<Rightarrow> string option \<Rightarrow> 'x routes \<Rightarrow>
    'x routes \<times> (route_error, RouteStartOutcome) result" where
  "start_commit env now i spec persist created_at_unix fallback_reason routes =
    (case start_section env i spec persist routes of
       (routes, Inl e) \<Rightarrow> (routes, Inl e)
     | (routes, Inr (Some outcome)) \<Rightarrow> (routes, Inr outcome)
     | (routes, Inr None) \<Rightarrow>
         (om_insert i (new_route_task now spec persist created_at_unix fallback_reason) routes, Inr Started))"

text \<open>The table may change between the two holds of the lock; without that, this is the whole operation.\<close>

definition start_route_spec ::
  "'x route_env \<Rightarrow> 'x route_env \<Rightarrow> u64 \<Rightarrow> string \<Rightarrow> 'x RouteSpec \<Rightarrow> bool \<Rightarrow> u64 \<Rightarrow> string option \<Rightarrow> 'x routes \<Rightarrow>
    'x routes \<times> (route_error, RouteStartOutcome) result" where
  "start_route_spec env env' now i spec persist created_at_unix fallback_reason routes =
    (case start_section env i spec persist routes of
       (routes, Inl e) \<Rightarrow> (routes, Inl e)
     | (routes, Inr (Some outcome)) \<Rightarrow> (routes, Inr outcome)
     | (routes, Inr None) \<Rightarrow> start_commit env' now i spec persist created_at_unix fallback_reason routes)"

section \<open>The store\<close>

record 'x StoredRoute =
  sd_id :: string
  sd_created_at_unix :: u64
  sd_fallback_reason :: "string option"
  sd_spec :: "'x RouteSpec"

record 'x RouteStore =
  rs_version :: u32
  rs_routes :: "'x StoredRoute list"

definition route_store_of :: "'x routes \<Rightarrow> 'x RouteStore" where
  "route_store_of routes =
    \<lparr>rs_version = 1,
     rs_routes = map (\<lambda>(i, task).
       \<lparr>sd_id = i, sd_created_at_unix = rt_created_at_unix task, sd_fallback_reason = rt_fallback_reason task,
        sd_spec = rt_spec task\<rparr>) (filter (\<lambda>(_, task). rt_persist task) routes)\<rparr>"

definition save_routes ::
  "('x RouteStore \<Rightarrow> string option) \<Rightarrow> save_env \<Rightarrow> fpath \<Rightarrow> 'x routes \<Rightarrow> fsys \<Rightarrow> fsys \<times> (route_error, unit) result" where
  "save_routes encode senv path routes fs =
    (case encode (route_store_of routes) of
       None \<Rightarrow> (fs, Inl StoreNotSerializable)
     | Some body \<Rightarrow>
         (case save_text_file_private senv path body fs of
            (fs, Inl e) \<Rightarrow> (fs, Inl (StoreNotWritten e))
          | (fs, Inr _) \<Rightarrow> (fs, Inr ())))"

fun restore_each :: "'x route_env \<Rightarrow> u64 \<Rightarrow> 'x StoredRoute list \<Rightarrow> 'x routes \<Rightarrow> 'x routes" where
  "restore_each env now [] routes = routes"
| "restore_each env now (r # rs) routes =
    restore_each env now rs
      (fst (start_route_spec env env now (sd_id r) (sd_spec r) True (sd_created_at_unix r) (sd_fallback_reason r) routes))"

definition restore_routes ::
  "(string \<Rightarrow> 'x RouteStore option) \<Rightarrow> 'x route_env \<Rightarrow> u64 \<Rightarrow> bool \<Rightarrow> fpath \<Rightarrow> fsys \<Rightarrow> 'x routes \<Rightarrow> 'x routes" where
  "restore_routes decode env now readable path fs routes =
    (case fs path of
       None \<Rightarrow> routes
     | Some f \<Rightarrow>
         if \<not> readable then routes
         else (case decode (content f) of
             None \<Rightarrow> routes
           | Some store \<Rightarrow> restore_each env now (rs_routes store) routes))"

section \<open>Requests\<close>

record 'x NodeRequest =
  nr_id :: "string option"
  nr_direction :: "string option"
  nr_proxy :: "'x ProxyArgs option"
  nr_reverse :: "'x ReverseTaskArgs option"
  nr_persist :: "bool option"
  nr_fallback_reason :: "string option"

text \<open>\<open>defaults\<close> is \<^verbatim>\<open>apply_proxy_defaults\<close> with the daemon's configuration.\<close>

definition request_spec ::
  "('x ProxyArgs \<Rightarrow> 'x ProxyArgs option) \<Rightarrow> 'x NodeRequest \<Rightarrow> (route_error, string \<times> 'x RouteSpec) result" where
  "request_spec defaults request =
    and_then (ok_or MissingId (nr_id request)) (\<lambda>i.
    and_then (ok_or MissingDirection (nr_direction request)) (\<lambda>direction.
    if direction = ''forward'' then
      and_then (ok_or MissingProxyArgs (nr_proxy request)) (\<lambda>args.
      and_then (ok_or BadDefaults (defaults args)) (\<lambda>args. Inr (i, Forward args)))
    else if direction = ''reverse'' then
      and_then (ok_or MissingReverseArgs (nr_reverse request)) (\<lambda>args. Inr (i, Reverse args))
    else Inl (UnknownDirection direction)))"

text \<open>The table and the file system, and what a request needs of its surroundings.\<close>

record 'x route_world =
  rw_env :: "'x route_env"
  rw_env' :: "'x route_env"
  rw_now :: u64
  rw_encode :: "'x RouteStore \<Rightarrow> string option"
  rw_save :: save_env
  rw_path :: fpath

definition save_if :: "bool \<Rightarrow> 'x route_world \<Rightarrow> 'a \<Rightarrow> 'x routes \<times> fsys \<Rightarrow> ('x routes \<times> fsys) \<times> (route_error, 'a) result" where
  "save_if due w answer s =
    (case s of (routes, fs) \<Rightarrow>
      if due then
        (case save_routes (rw_encode w) (rw_save w) (rw_path w) routes fs of
           (fs, Inl e) \<Rightarrow> ((routes, fs), Inl e)
         | (fs, Inr _) \<Rightarrow> ((routes, fs), Inr answer))
      else (s, Inr answer))"

definition start_route ::
  "('x ProxyArgs \<Rightarrow> 'x ProxyArgs option) \<Rightarrow> 'x route_world \<Rightarrow> 'x NodeRequest \<Rightarrow> 'x routes \<times> fsys \<Rightarrow>
    ('x routes \<times> fsys) \<times> (route_error, RouteStartOutcome) result" where
  "start_route defaults w request s =
    (case s of (routes, fs) \<Rightarrow>
      (case request_spec defaults request of
         Inl e \<Rightarrow> (s, Inl e)
       | Inr (i, spec) \<Rightarrow>
           let persist = unwrap_or (nr_persist request) True in
           (case start_route_spec (rw_env w) (rw_env' w) (rw_now w) i spec persist (rw_now w)
               (nr_fallback_reason request) routes of
              (routes, Inl e) \<Rightarrow> ((routes, fs), Inl e)
            | (routes, Inr outcome) \<Rightarrow>
                save_if (should_save_route_store outcome persist) w outcome (routes, fs))))"

definition stop_route ::
  "'x route_world \<Rightarrow> 'x NodeRequest \<Rightarrow> 'x routes \<times> fsys \<Rightarrow> ('x routes \<times> fsys) \<times> (route_error, bool) result" where
  "stop_route w request s =
    (case s of (routes, fs) \<Rightarrow>
      (case nr_id request of
         None \<Rightarrow> (s, Inl MissingId)
       | Some i \<Rightarrow>
           (case om_get routes i of
              None \<Rightarrow> (s, Inl (NotRunning i))
            | Some task \<Rightarrow> save_if (rt_persist task) w (rt_persist task) (om_remove i routes, fs))))"

definition restart_route ::
  "'x route_world \<Rightarrow> 'x NodeRequest \<Rightarrow> 'x routes \<times> fsys \<Rightarrow> ('x routes \<times> fsys) \<times> (route_error, bool) result" where
  "restart_route w request s =
    (case s of (routes, fs) \<Rightarrow>
      (case nr_id request of
         None \<Rightarrow> (s, Inl MissingId)
       | Some i \<Rightarrow>
           (case om_get routes i of
              None \<Rightarrow> (s, Inl (NotRunning i))
            | Some task \<Rightarrow>
                (case start_route_spec (rw_env w) (rw_env' w) (rw_now w) i (rt_spec task) (rt_persist task)
                    (rt_created_at_unix task) (rt_fallback_reason task) (om_remove i routes) of
                   (routes, Inl e) \<Rightarrow> ((routes, fs), Inl e)
                 | (routes, Inr _) \<Rightarrow> save_if (rt_persist task) w (rt_persist task) (routes, fs)))))"

section \<open>Concurrent requests\<close>

text \<open>
  Requests run concurrently; each holds the lock of the table for one step at a time.  A started request
  remembers what it still has to do: the second hold of a start, the start of a restart, taking the
  snapshot of a save, or writing a snapshot that was taken.
\<close>

record 'x StartCall =
  sc_id :: string
  sc_spec :: "'x RouteSpec"
  sc_persist :: bool
  sc_created_at_unix :: u64
  sc_fallback_reason :: "string option"
  sc_restart :: bool

datatype 'x pending =
    StartChecked "'x StartCall"
  | RestartRemoved "'x StartCall"
  | SaveDue
  | Writing "'x RouteStore"

record 'x RouteSystem =
  sy_routes :: "'x routes"
  sy_pending :: "'x pending list"
  sy_stored :: "'x RouteStore option"

definition save_due :: "'x StartCall \<Rightarrow> RouteStartOutcome \<Rightarrow> 'x pending list" where
  "save_due c outcome =
    (if (if sc_restart c then sc_persist c else should_save_route_store outcome (sc_persist c)) then [SaveDue] else [])"

definition restart_call :: "string \<Rightarrow> 'x RouteTask \<Rightarrow> 'x StartCall" where
  "restart_call i task =
    \<lparr>sc_id = i, sc_spec = rt_spec task, sc_persist = rt_persist task, sc_created_at_unix = rt_created_at_unix task,
     sc_fallback_reason = rt_fallback_reason task, sc_restart = True\<rparr>"

text \<open>\<open>check_call\<close> and \<open>commit_call\<close> are the two holds of the lock of a start, with what remains to be done.\<close>

definition check_call :: "'x route_env \<Rightarrow> 'x StartCall \<Rightarrow> 'x routes \<Rightarrow> 'x routes \<times> 'x pending list" where
  "check_call env c routes =
    (case start_section env (sc_id c) (sc_spec c) (sc_persist c) routes of
       (routes, Inl e) \<Rightarrow> (routes, [])
     | (routes, Inr (Some outcome)) \<Rightarrow> (routes, save_due c outcome)
     | (routes, Inr None) \<Rightarrow> (routes, [StartChecked c]))"

definition commit_call :: "'x route_env \<Rightarrow> u64 \<Rightarrow> 'x StartCall \<Rightarrow> 'x routes \<Rightarrow> 'x routes \<times> 'x pending list" where
  "commit_call env now c routes =
    (case start_commit env now (sc_id c) (sc_spec c) (sc_persist c) (sc_created_at_unix c) (sc_fallback_reason c) routes of
       (routes, Inl e) \<Rightarrow> (routes, [])
     | (routes, Inr outcome) \<Rightarrow> (routes, save_due c outcome))"

inductive route_step :: "('x RouteSpec \<Rightarrow> json option) \<Rightarrow> 'x RouteSystem \<Rightarrow> 'x RouteSystem \<Rightarrow> bool" for ser where
  step_start: "check_call \<lparr>spec_value = ser, port_free = free\<rparr> c (sy_routes s) = (routes, todo) \<Longrightarrow> \<not> sc_restart c \<Longrightarrow>
    route_step ser s (s\<lparr>sy_routes := routes, sy_pending := sy_pending s @ todo\<rparr>)"
| step_restarted: "sy_pending s = ps @ RestartRemoved c # qs \<Longrightarrow>
    check_call \<lparr>spec_value = ser, port_free = free\<rparr> c (sy_routes s) = (routes, todo) \<Longrightarrow>
    route_step ser s (s\<lparr>sy_routes := routes, sy_pending := ps @ todo @ qs\<rparr>)"
| step_commit: "sy_pending s = ps @ StartChecked c # qs \<Longrightarrow>
    commit_call \<lparr>spec_value = ser, port_free = free\<rparr> now c (sy_routes s) = (routes, todo) \<Longrightarrow>
    route_step ser s (s\<lparr>sy_routes := routes, sy_pending := ps @ todo @ qs\<rparr>)"
| step_stop: "om_get (sy_routes s) i = Some task \<Longrightarrow>
    route_step ser s (s\<lparr>sy_routes := om_remove i (sy_routes s),
      sy_pending := sy_pending s @ (if rt_persist task then [SaveDue] else [])\<rparr>)"
| step_restart: "om_get (sy_routes s) i = Some task \<Longrightarrow>
    route_step ser s (s\<lparr>sy_routes := om_remove i (sy_routes s),
      sy_pending := sy_pending s @ [RestartRemoved (restart_call i task)]\<rparr>)"
| step_finish: "om_get (sy_routes s) i = Some task \<Longrightarrow>
    route_step ser s (s\<lparr>sy_routes := om_insert i (task\<lparr>rt_finished := True\<rparr>) (sy_routes s)\<rparr>)"
| step_stats: "om_get (sy_routes s) i = Some task \<Longrightarrow>
    route_step ser s (s\<lparr>sy_routes := om_insert i (task\<lparr>rt_stats := stats\<rparr>) (sy_routes s)\<rparr>)"
| step_snapshot: "sy_pending s = ps @ SaveDue # qs \<Longrightarrow>
    route_step ser s (s\<lparr>sy_pending := ps @ Writing (route_store_of (sy_routes s)) # qs\<rparr>)"
| step_write: "sy_pending s = ps @ Writing store # qs \<Longrightarrow>
    route_step ser s (s\<lparr>sy_pending := ps @ qs, sy_stored := Some store\<rparr>)"
| step_write_fails: "sy_pending s = ps @ p # qs \<Longrightarrow> p = SaveDue \<or> p = Writing store \<Longrightarrow>
    route_step ser s (s\<lparr>sy_pending := ps @ qs\<rparr>)"
| step_reboot: "route_step ser s (s\<lparr>sy_pending := [], sy_routes :=
    (case sy_stored s of
       None \<Rightarrow> []
     | Some store \<Rightarrow> restore_each \<lparr>spec_value = ser, port_free = free\<rparr> now (rs_routes store) [])\<rparr>)"

definition system_start :: "'x RouteSystem" where
  "system_start = \<lparr>sy_routes = [], sy_pending = [], sy_stored = None\<rparr>"

inductive route_reach :: "('x RouteSpec \<Rightarrow> json option) \<Rightarrow> 'x RouteSystem \<Rightarrow> bool" for ser where
  reach_start: "route_reach ser system_start"
| reach_step: "route_reach ser s \<Longrightarrow> route_step ser s s' \<Longrightarrow> route_reach ser s'"

section \<open>Listeners are exclusive\<close>

definition clash :: "'x RouteTask \<Rightarrow> 'x RouteTask \<Rightarrow> bool" where
  "clash a b \<longleftrightarrow> rt_direction a = rt_direction b \<and>
    map_option socket_show (rt_listen a) = map_option socket_show (rt_listen b) \<and>
    (rt_direction a = ''forward'' \<or> rt_peer a = rt_peer b)"

definition task_wf :: "'x RouteTask \<Rightarrow> bool" where
  "task_wf t \<longleftrightarrow> rt_direction t = spec_direction (rt_spec t) \<and> rt_listen t = Some (spec_listen (rt_spec t)) \<and>
    rt_peer t = Some (spec_peer (rt_spec t))"

definition table_ok :: "'x routes \<Rightarrow> bool" where
  "table_ok routes \<longleftrightarrow> om_inv routes \<and> (\<forall>i t. om_get routes i = Some t \<longrightarrow> task_wf t) \<and>
    (\<forall>i j a b. i \<noteq> j \<and> om_get routes i = Some a \<and> om_get routes j = Some b \<longrightarrow> \<not> clash a b)"

lemma clash_sym: "clash a b \<longleftrightarrow> clash b a"
  by (auto simp: clash_def)

lemma table_okI:
  assumes "om_inv routes" and "\<And>i t. om_get routes i = Some t \<Longrightarrow> task_wf t"
    and "\<And>i j a b. i \<noteq> j \<Longrightarrow> om_get routes i = Some a \<Longrightarrow> om_get routes j = Some b \<Longrightarrow> \<not> clash a b"
  shows "table_ok routes"
  using assms unfolding table_ok_def by blast

lemma table_okD:
  assumes "table_ok routes"
  shows "om_inv routes" and "om_get routes i = Some t \<Longrightarrow> task_wf t"
    and "i \<noteq> j \<Longrightarrow> om_get routes i = Some a \<Longrightarrow> om_get routes j = Some b \<Longrightarrow> \<not> clash a b"
  using assms unfolding table_ok_def by blast+

text \<open>Dropping routes and changing what is not part of the conflict policy keeps the table in order.\<close>

lemma table_ok_sub:
  assumes "table_ok routes" and "om_inv routes \<Longrightarrow> om_inv routes'"
    and "\<And>i t. om_inv routes \<Longrightarrow> om_get routes' i = Some t \<Longrightarrow> om_get routes i = Some t"
  shows "table_ok routes'"
  using assms(2,3) table_okD [OF assms(1)] by (intro table_okI) blast+

lemma table_ok_update:
  assumes ok: "table_ok routes" and get: "om_get routes i = Some t"
    and same: "rt_spec t' = rt_spec t" "rt_direction t' = rt_direction t" "rt_listen t' = rt_listen t" "rt_peer t' = rt_peer t"
  shows "table_ok (om_insert i t' routes)"
proof (rule table_okI)
  have wf: "task_wf t'" and cl: "clash t' b = clash t b" "clash b t' = clash b t" for b
    using table_okD(2) [OF ok get] same by (auto simp: task_wf_def clash_def)
  show "om_inv (om_insert i t' routes)"
    by (rule om_inv_insert [OF table_okD(1) [OF ok]])
  show "task_wf u" if "om_get (om_insert i t' routes) k = Some u" for k u
    using that wf table_okD(2) [OF ok] by (auto simp: om_get_insert split: if_splits)
  show "\<not> clash a b" if "j \<noteq> k" "om_get (om_insert i t' routes) j = Some a" "om_get (om_insert i t' routes) k = Some b" for j k a b
    using that get cl table_okD(3) [OF ok] by (auto simp: om_get_insert split: if_splits)
qed

lemma table_ok_insert:
  assumes ok: "table_ok routes" and wf: "task_wf t"
    and free: "\<And>j b. j \<noteq> i \<Longrightarrow> om_get routes j = Some b \<Longrightarrow> \<not> clash b t"
  shows "table_ok (om_insert i t routes)"
proof (rule table_okI)
  show "om_inv (om_insert i t routes)"
    by (rule om_inv_insert [OF table_okD(1) [OF ok]])
  show "task_wf u" if "om_get (om_insert i t routes) k = Some u" for k u
    using that wf table_okD(2) [OF ok] by (auto simp: om_get_insert split: if_splits)
  show "\<not> clash a b" if "j \<noteq> k" "om_get (om_insert i t routes) j = Some a" "om_get (om_insert i t routes) k = Some b" for j k a b
  proof (cases "j = i \<or> k = i")
    case True
    then show ?thesis using that free [of j a] free [of k b] clash_sym [of a b] by (auto simp: om_get_insert split: if_splits)
  next
    case False
    then show ?thesis using that table_okD(3) [OF ok] by (auto simp: om_get_insert)
  qed
qed

lemma table_ok_retain: "table_ok routes \<Longrightarrow> table_ok (om_retain P routes)"
  by (erule table_ok_sub) (auto simp: om_inv_retain om_retain_get split: if_splits option.splits)

lemma table_ok_remove: "table_ok routes \<Longrightarrow> table_ok (om_remove i routes)"
  by (erule table_ok_sub) (auto simp: om.inv_delete om.lookup_delete split: if_splits)

lemma table_ok_Nil: "table_ok []"
  by (auto simp: table_ok_def om_inv_def om_get_def)

lemma route_conflict_routes_mem:
  "route_conflict_routes env routes = Inr rs \<Longrightarrow> (j, b) \<in> set routes \<Longrightarrow>
    \<exists>r\<in>set rs. route_conflict_route env j b = Inr r"
  by (induction env routes arbitrary: rs rule: route_conflict_routes.induct) (auto simp: result_simps)

lemma ensure_no_clash:
  assumes "ensure_new_route_can_start env routes (spec_direction spec) (spec_listen spec) (Some (spec_peer spec)) spec = Inr u"
    and "(j, b) \<in> set routes"
  shows "\<not> clash b (new_route_task now spec persist created fallback)"
proof
  assume clash: "clash b (new_route_task now spec persist created fallback)"
  obtain candidate existing where c: "route_conflict_input env None (spec_direction spec) (spec_listen spec)
      (Some (spec_peer spec)) spec = Inr candidate"
    and e: "route_conflict_routes env routes = Inr existing"
    and free: "\<nexists>i. decide_route_conflict existing candidate = ListenerReserved i"
  proof -
    obtain candidate existing where "route_conflict_input env None (spec_direction spec) (spec_listen spec)
        (Some (spec_peer spec)) spec = Inr candidate" "route_conflict_routes env routes = Inr existing"
      and "(case decide_route_conflict existing candidate of
          ListenerReserved i \<Rightarrow> Inl (AlreadyOwnsListener i)
        | _ \<Rightarrow> (case spec of Forward _ \<Rightarrow> ensure_port_available env (spec_listen spec) | Reverse _ \<Rightarrow> Inr ())) = Inr u"
      using assms(1) unfolding ensure_new_route_can_start_def result_simps by blast
    then show ?thesis by (intro that) auto
  qed
  obtain r where r: "r \<in> set existing" "route_conflict_route env j b = Inr r"
    using route_conflict_routes_mem [OF e assms(2)] by blast
  have "route_reserves_listener r candidate"
    using clash r(2) c
    by (auto simp: route_reserves_listener_def clash_def new_route_task_def route_conflict_route_def
      route_conflict_input_def result_simps)
  then have "find (\<lambda>route. route_reserves_listener route candidate) existing \<noteq> None"
    using r(1) by (auto simp: find_None_iff)
  moreover have "ci_id candidate = None"
    using c by (auto simp: route_conflict_input_def result_simps)
  ultimately show False
    using free by (auto simp: decide_route_conflict_def reserved_listener_def split: option.splits)
qed

lemma start_section_ok:
  assumes "table_ok routes" and "start_section env i spec persist routes = (routes', r)"
  shows "table_ok routes'"
proof -
  have "table_ok (om_retain (\<lambda>_ task. \<not> rt_finished task) routes)"
    using table_ok_retain [OF assms(1)] .
  then show ?thesis
    using assms(2)
    by (auto simp: start_section_def Let_def split: option.splits if_splits sum.splits intro: table_ok_update)
qed

lemma start_section_None:
  assumes "table_ok routes" and "start_section env i spec persist routes = (routes', Inr None)"
  shows "om_get routes' i = None" and "om_get routes' j = Some b \<Longrightarrow>
    \<not> clash b (new_route_task now spec persist' created fallback)"
proof -
  let ?kept = "om_retain (\<lambda>_ task. \<not> rt_finished task) routes"
  have absent: "om_get ?kept i = None"
    using assms(2) by (cases "om_get ?kept i") (auto simp: start_section_def Let_def split: if_splits)
  have "ensure_new_route_can_start env ?kept (spec_direction spec) (spec_listen spec) (Some (spec_peer spec)) spec = Inr () \<and>
      routes' = ?kept"
    using assms(2) absent
    by (cases "ensure_new_route_can_start env ?kept (spec_direction spec) (spec_listen spec) (Some (spec_peer spec)) spec")
      (simp_all add: start_section_def Let_def)
  then have r: "om_get routes' i = None"
    "ensure_new_route_can_start env routes' (spec_direction spec) (spec_listen spec) (Some (spec_peer spec)) spec = Inr ()"
    using absent by simp_all
  show "om_get routes' i = None" by (rule r(1))
  assume "om_get routes' j = Some b"
  then have "(j, b) \<in> set routes'"
    using om_get_Some_iff [OF table_okD(1) [OF start_section_ok [OF assms]]] by simp
  then show "\<not> clash b (new_route_task now spec persist' created fallback)"
    by (rule ensure_no_clash [OF r(2)])
qed

lemma new_route_task_wf: "task_wf (new_route_task now spec persist created fallback)"
  by (simp add: task_wf_def new_route_task_def)

lemma start_commit_ok:
  assumes "table_ok routes"
    and "start_commit env now i spec persist created fallback routes = (routes', r)"
  shows "table_ok routes'"
proof -
  obtain routes1 r1 where sec: "start_section env i spec persist routes = (routes1, r1)" by fastforce
  have ok: "table_ok routes1" by (rule start_section_ok [OF assms(1) sec])
  show ?thesis
  proof (cases "r1 = Inr None")
    case True
    then have "routes' = om_insert i (new_route_task now spec persist created fallback) routes1"
      using assms(2) sec by (simp add: start_commit_def)
    then show ?thesis
      using table_ok_insert [OF ok new_route_task_wf] start_section_None(2) [OF assms(1) sec [unfolded True]] by metis
  next
    case False
    then show ?thesis
      using assms(2) sec ok by (auto simp: start_commit_def split: sum.splits option.splits)
  qed
qed

lemma start_route_spec_ok:
  assumes "table_ok routes"
  shows "table_ok (fst (start_route_spec env env' now i spec persist created fallback routes))"
proof -
  obtain routes1 r1 where sec: "start_section env i spec persist routes = (routes1, r1)" by fastforce
  have ok: "table_ok routes1" by (rule start_section_ok [OF assms sec])
  then have "table_ok (fst (start_commit env' now i spec persist created fallback routes1))"
    using start_commit_ok [OF ok] by (metis prod.collapse)
  then show ?thesis
    using ok by (simp add: start_route_spec_def sec split: sum.split option.split)
qed

lemma restore_each_ok: "table_ok routes \<Longrightarrow> table_ok (restore_each env now rs routes)"
  by (induction rs arbitrary: routes) (simp_all add: start_route_spec_ok)

lemma check_call_ok:
  assumes "table_ok routes" and "check_call env c routes = (routes', todo)"
  shows "table_ok routes'"
proof -
  obtain routes1 r1 where sec: "start_section env (sc_id c) (sc_spec c) (sc_persist c) routes = (routes1, r1)" by fastforce
  then have "routes' = routes1"
    using assms(2) by (auto simp: check_call_def split: sum.splits option.splits)
  then show ?thesis using start_section_ok [OF assms(1) sec] by simp
qed

lemma commit_call_ok:
  assumes "table_ok routes" and "commit_call env now c routes = (routes', todo)"
  shows "table_ok routes'"
proof -
  obtain routes1 r1 where com: "start_commit env now (sc_id c) (sc_spec c) (sc_persist c) (sc_created_at_unix c)
      (sc_fallback_reason c) routes = (routes1, r1)" by fastforce
  then have "routes' = routes1"
    using assms(2) by (auto simp: commit_call_def split: sum.splits)
  then show ?thesis using start_commit_ok [OF assms(1) com] by simp
qed

lemma route_step_ok: "route_step ser s s' \<Longrightarrow> table_ok (sy_routes s) \<Longrightarrow> table_ok (sy_routes s')"
proof (induction rule: route_step.induct)
  case (step_start free c s routes todo)
  then show ?case using check_call_ok by simp
next
  case (step_restarted s ps c qs free routes todo)
  then show ?case using check_call_ok by simp
next
  case (step_commit s ps c qs free now routes todo)
  then show ?case using commit_call_ok by simp
next
  case (step_reboot s free now)
  then show ?case by (simp add: restore_each_ok table_ok_Nil split: option.split)
qed (simp_all add: table_ok_update table_ok_remove)

lemma route_reach_ok: "route_reach ser s \<Longrightarrow> table_ok (sy_routes s)"
proof (induction rule: route_reach.induct)
  case (reach_step s s')
  then show ?case using route_step_ok by blast
qed (simp add: system_start_def table_ok_Nil)

section \<open>Restoring routes\<close>

lemma route_conflict_routes_ok:
  assumes "\<And>j b. (j, b) \<in> set routes \<Longrightarrow> spec_value env (rt_spec b) \<noteq> None"
  shows "\<exists>rs. route_conflict_routes env routes = Inr rs \<and>
    (\<forall>r\<in>set rs. \<exists>(j, b)\<in>set routes. cr_direction r = rt_direction b \<and>
      cr_listen r = map_option socket_show (rt_listen b) \<and> cr_peer r = rt_peer b)"
  using assms
proof (induction routes)
  case (Cons p routes)
  obtain i t v where p: "p = (i, t)" "spec_value env (rt_spec t) = Some v"
    using Cons.prems by (cases p) fastforce
  obtain rs where rs: "route_conflict_routes env routes = Inr rs"
    "\<forall>r\<in>set rs. \<exists>(j, b)\<in>set routes. cr_direction r = rt_direction b \<and>
      cr_listen r = map_option socket_show (rt_listen b) \<and> cr_peer r = rt_peer b"
    using Cons by fastforce
  show ?case
    using rs(2) by (simp add: p rs(1) route_conflict_route_def route_spec_value_def)
qed simp

lemma ensure_succeeds:
  assumes ser: "\<And>j b. (j, b) \<in> set routes \<Longrightarrow> spec_value env (rt_spec b) \<noteq> None" "spec_value env spec \<noteq> None"
    and free: "\<And>j b. (j, b) \<in> set routes \<Longrightarrow> \<not> clash b (new_route_task now spec persist created fallback)"
    and port: "spec_direction spec = ''forward'' \<Longrightarrow> port_free env (spec_listen spec)"
  shows "ensure_new_route_can_start env routes (spec_direction spec) (spec_listen spec) (Some (spec_peer spec)) spec = Inr ()"
proof -
  obtain v where v: "spec_value env spec = Some v" using ser(2) by blast
  let ?c = "\<lparr>ci_id = None, ci_direction = spec_direction spec, ci_listen = socket_show (spec_listen spec),
    ci_peer = Some (spec_peer spec), ci_spec = v\<rparr>"
  obtain rs where rs: "route_conflict_routes env routes = Inr rs"
    "\<forall>r\<in>set rs. \<exists>(j, b)\<in>set routes. cr_direction r = rt_direction b \<and>
      cr_listen r = map_option socket_show (rt_listen b) \<and> cr_peer r = rt_peer b"
    using route_conflict_routes_ok [of routes env] ser(1) by blast
  have "\<not> route_reserves_listener r ?c" if r: "r \<in> set rs" for r
  proof
    assume res: "route_reserves_listener r ?c"
    obtain j b where b: "(j, b) \<in> set routes" "cr_direction r = rt_direction b"
      "cr_listen r = map_option socket_show (rt_listen b)" "cr_peer r = rt_peer b"
      using rs(2) r by blast
    have "clash b (new_route_task now spec persist created fallback)"
      using res b(2-4) by (auto simp: route_reserves_listener_def clash_def new_route_task_def)
    then show False using free [OF b(1)] by blast
  qed
  then have "find (\<lambda>route. route_reserves_listener route ?c) rs = None"
    by (simp add: find_None_iff)
  then have "decide_route_conflict rs ?c = Available"
    by (simp add: decide_route_conflict_def reserved_listener_def)
  then show ?thesis
    using v rs(1) port
    by (cases spec) (simp_all add: ensure_new_route_can_start_def route_conflict_input_def route_spec_value_def
      ensure_port_available_def)
qed

lemma om_retain_all: "(\<And>j b. (j, b) \<in> set m \<Longrightarrow> P j b) \<Longrightarrow> om_retain P m = m"
  unfolding om_retain_def by (rule filter_True) auto

text \<open>A route starts when all others are running, none of them clashes with it and its port is free.\<close>

lemma start_route_spec_fresh:
  assumes "\<And>j b. (j, b) \<in> set routes \<Longrightarrow> \<not> rt_finished b \<and> spec_value env (rt_spec b) \<noteq> None \<and>
      \<not> clash b (new_route_task now spec persist created fallback)"
    and "om_get routes i = None" and "spec_value env spec \<noteq> None"
    and "spec_direction spec = ''forward'' \<Longrightarrow> port_free env (spec_listen spec)"
  shows "start_route_spec env env now i spec persist created fallback routes =
    (om_insert i (new_route_task now spec persist created fallback) routes, Inr Started)"
proof -
  have "om_retain (\<lambda>_ task. \<not> rt_finished task) routes = routes"
    by (rule om_retain_all) (use assms(1) in blast)
  moreover have "ensure_new_route_can_start env routes (spec_direction spec) (spec_listen spec) (Some (spec_peer spec)) spec = Inr ()"
    by (rule ensure_succeeds [where now = now and persist = persist and created = created and fallback = fallback])
      (use assms in blast)+
  ultimately have "start_section env i spec persist routes = (routes, Inr None)"
    using assms(2) by (simp add: start_section_def Let_def)
  then show ?thesis
    by (simp add: start_route_spec_def start_commit_def)
qed

definition restored_task :: "u64 \<Rightarrow> 'x StoredRoute \<Rightarrow> 'x RouteTask" where
  "restored_task now r = new_route_task now (sd_spec r) True (sd_created_at_unix r) (sd_fallback_reason r)"

lemma restore_each_all:
  assumes "om_inv routes" and "distinct (map sd_id rs)"
    and "\<And>r. r \<in> set rs \<Longrightarrow> om_get routes (sd_id r) = None \<and> spec_value env (sd_spec r) \<noteq> None \<and>
      (spec_direction (sd_spec r) = ''forward'' \<longrightarrow> port_free env (spec_listen (sd_spec r)))"
    and "\<And>j b. om_get routes j = Some b \<Longrightarrow> \<not> rt_finished b \<and> spec_value env (rt_spec b) \<noteq> None"
    and "\<And>j b r. om_get routes j = Some b \<Longrightarrow> r \<in> set rs \<Longrightarrow> \<not> clash b (restored_task now r)"
    and "\<And>q r. q \<in> set rs \<Longrightarrow> r \<in> set rs \<Longrightarrow> q \<noteq> r \<Longrightarrow> \<not> clash (restored_task now q) (restored_task now r)"
  shows "om_get (restore_each env now rs routes) i =
    (case map_of (map (\<lambda>r. (sd_id r, restored_task now r)) rs) i of Some t \<Rightarrow> Some t | None \<Rightarrow> om_get routes i)"
  using assms
proof (induction rs arbitrary: routes)
  case (Cons r rs)
  let ?t = "restored_task now r"
  have mem: "om_get routes j = Some b" if "(j, b) \<in> set routes" for j b
    using that Cons.prems(1) om_get_Some_iff by metis
  have start: "start_route_spec env env now (sd_id r) (sd_spec r) True (sd_created_at_unix r) (sd_fallback_reason r) routes =
      (om_insert (sd_id r) ?t routes, Inr Started)"
    unfolding restored_task_def
  proof (rule start_route_spec_fresh)
    show "\<not> rt_finished b \<and> spec_value env (rt_spec b) \<noteq> None \<and>
      \<not> clash b (new_route_task now (sd_spec r) True (sd_created_at_unix r) (sd_fallback_reason r))"
      if "(j, b) \<in> set routes" for j b
      using Cons.prems(4,5) [OF mem [OF that]] by (simp add: restored_task_def)
  qed (use Cons.prems(3) [of r] in auto)
  have "om_get (restore_each env now rs (om_insert (sd_id r) ?t routes)) i =
    (case map_of (map (\<lambda>r. (sd_id r, restored_task now r)) rs) i of
       Some t \<Rightarrow> Some t | None \<Rightarrow> om_get (om_insert (sd_id r) ?t routes) i)"
  proof (rule Cons.IH)
    show "om_inv (om_insert (sd_id r) ?t routes)" by (rule om_inv_insert [OF Cons.prems(1)])
    show "distinct (map sd_id rs)" using Cons.prems(2) by simp
    show "om_get (om_insert (sd_id r) ?t routes) (sd_id q) = None \<and> spec_value env (sd_spec q) \<noteq> None \<and>
      (spec_direction (sd_spec q) = ''forward'' \<longrightarrow> port_free env (spec_listen (sd_spec q)))" if "q \<in> set rs" for q
      using Cons.prems(2) Cons.prems(3) [of q] that by (auto simp: om_get_insert) (metis imageI)+
    show "\<not> rt_finished b \<and> spec_value env (rt_spec b) \<noteq> None" if "om_get (om_insert (sd_id r) ?t routes) j = Some b" for j b
      using that Cons.prems(3) [of r] Cons.prems(4) [of j b]
      by (auto simp: om_get_insert restored_task_def new_route_task_def split: if_splits)
    show "\<not> clash b (restored_task now q)" if "om_get (om_insert (sd_id r) ?t routes) j = Some b" "q \<in> set rs" for j b q
      using that Cons.prems(2) Cons.prems(5) [of j b q] Cons.prems(6) [of r q] by (auto simp: om_get_insert split: if_splits)
    show "\<not> clash (restored_task now q) (restored_task now q')" if "q \<in> set rs" "q' \<in> set rs" "q \<noteq> q'" for q q'
      using that Cons.prems(6) by simp
  qed
  moreover have "map_of (map (\<lambda>r. (sd_id r, restored_task now r)) rs) (sd_id r) = None"
    using Cons.prems(2) by (auto simp: map_of_eq_None_iff)
  ultimately show ?case
    using start by (auto simp: om_get_insert split: option.split)
qed simp

definition persistent_task :: "u64 \<Rightarrow> 'x RouteTask \<Rightarrow> 'x RouteTask option" where
  "persistent_task now t =
    (if rt_persist t then Some (new_route_task now (rt_spec t) True (rt_created_at_unix t) (rt_fallback_reason t)) else None)"

lemma restored_from_store:
  "map (\<lambda>r. (sd_id r, restored_task now r)) (rs_routes (route_store_of routes)) =
    map (\<lambda>(i, t). (i, new_route_task now (rt_spec t) True (rt_created_at_unix t) (rt_fallback_reason t)))
      (filter (\<lambda>(_, t). rt_persist t) routes)"
  by (simp add: route_store_of_def restored_task_def split_def)

lemma map_of_persistent:
  assumes "om_inv routes"
  shows "map_of (map (\<lambda>(i, t). (i, new_route_task now (rt_spec t) True (rt_created_at_unix t) (rt_fallback_reason t)))
      (filter (\<lambda>(_, t). rt_persist t) routes)) i = Option.bind (om_get routes i) (persistent_task now)"
proof -
  have "map_of (filter (\<lambda>(_, t). rt_persist t) routes) i = om_get (om_retain (\<lambda>_ t. rt_persist t) routes) i"
    by (simp add: om_get_def om_retain_def)
  also have "\<dots> = Option.bind (om_get routes i) (\<lambda>t. if rt_persist t then Some t else None)"
    using om_retain_get [OF assms, of "\<lambda>_ t. rt_persist t" i] by (simp split: option.split)
  finally have "map_of (filter (\<lambda>(_, t). rt_persist t) routes) i =
    Option.bind (om_get routes i) (\<lambda>t. if rt_persist t then Some t else None)" .
  then show ?thesis
    by (cases "om_get routes i") (simp_all add: map_of_map [unfolded comp_def] persistent_task_def)
qed

lemma stored_mem:
  assumes "r \<in> set (rs_routes (route_store_of routes))" and "om_inv routes"
  obtains t where "om_get routes (sd_id r) = Some t" "rt_persist t" "sd_spec r = rt_spec t"
    "sd_created_at_unix r = rt_created_at_unix t" "sd_fallback_reason r = rt_fallback_reason t"
  using assms by (auto simp: route_store_of_def om_get_Some_iff)

lemma restore_store:
  assumes ok: "table_ok routes"
    and ser: "\<And>i t. om_get routes i = Some t \<Longrightarrow> rt_persist t \<Longrightarrow> spec_value env (rt_spec t) \<noteq> None \<and>
      (spec_direction (rt_spec t) = ''forward'' \<longrightarrow> port_free env (spec_listen (rt_spec t)))"
  shows "om_get (restore_each env now (rs_routes (route_store_of routes)) []) i =
    Option.bind (om_get routes i) (persistent_task now)"
proof -
  let ?rs = "rs_routes (route_store_of routes)"
  note inv = table_okD(1) [OF ok]
  have "om_get (restore_each env now ?rs []) i =
    (case map_of (map (\<lambda>r. (sd_id r, restored_task now r)) ?rs) i of Some t \<Rightarrow> Some t | None \<Rightarrow> om_get [] i)"
  proof (rule restore_each_all)
    show "om_inv []" by (simp add: om_inv_def)
    have "map sd_id ?rs = map fst (filter (\<lambda>(_, t). rt_persist t) routes)"
      by (simp add: route_store_of_def split_def)
    then show "distinct (map sd_id ?rs)"
      using om_inv_distinct [OF om_inv_filter [OF inv]] by metis
    show "om_get [] (sd_id r) = None \<and> spec_value env (sd_spec r) \<noteq> None \<and>
      (spec_direction (sd_spec r) = ''forward'' \<longrightarrow> port_free env (spec_listen (sd_spec r)))" if "r \<in> set ?rs" for r
      using that inv ser by (metis stored_mem om.lookup_empty)
    show "\<not> clash (restored_task now q) (restored_task now r)" if q: "q \<in> set ?rs" and r: "r \<in> set ?rs" and neq: "q \<noteq> r" for q r
    proof -
      obtain a where a: "om_get routes (sd_id q) = Some a" "rt_persist a" "sd_spec q = rt_spec a"
        "sd_created_at_unix q = rt_created_at_unix a" "sd_fallback_reason q = rt_fallback_reason a"
        using stored_mem [OF q inv] .
      obtain b where b: "om_get routes (sd_id r) = Some b" "rt_persist b" "sd_spec r = rt_spec b"
        "sd_created_at_unix r = rt_created_at_unix b" "sd_fallback_reason r = rt_fallback_reason b"
        using stored_mem [OF r inv] .
      have "sd_id q \<noteq> sd_id r"
        using neq a b by (auto intro: StoredRoute.equality)
      then have "\<not> clash a b"
        using table_okD(3) [OF ok] a(1) b(1) by blast
      then show ?thesis
        using table_okD(2) [OF ok a(1)] table_okD(2) [OF ok b(1)] a(3) b(3)
        by (simp add: restored_task_def new_route_task_def clash_def task_wf_def)
    qed
  qed (simp_all add: om_get_def)
  then show ?thesis
    unfolding restored_from_store map_of_persistent [OF inv] by (simp add: om_get_def split: option.split)
qed

section \<open>Properties\<close>

text \<open>
  C3. No two routes ever claim one listener.  However requests are interleaved, tasks end, saves fail and the
  daemon restarts, two forward routes of the table never listen on the same address, and neither do
  two reverse routes of one peer.
\<close>

theorem route_listeners_exclusive:
  assumes "route_reach ser s"
    and "om_get (sy_routes s) i = Some a" and "om_get (sy_routes s) j = Some b" and "i \<noteq> j"
    and "spec_direction (rt_spec a) = spec_direction (rt_spec b)"
    and "spec_direction (rt_spec a) = ''forward'' \<or> spec_peer (rt_spec a) = spec_peer (rt_spec b)"
  shows "spec_listen (rt_spec a) \<noteq> spec_listen (rt_spec b)"
proof -
  note ok = route_reach_ok [OF assms(1)]
  show ?thesis
    using table_okD(2) [OF ok assms(2)] table_okD(2) [OF ok assms(3)] table_okD(3) [OF ok assms(4,2,3)] assms(5,6)
    by (auto simp: clash_def task_wf_def)
qed

definition sample_forward :: "u16 \<Rightarrow> nat RouteSpec" where
  "sample_forward p = Forward \<lparr>pa_target = ''peer'', pa_listen = \<lparr>sa_ip = V4 [127, 0, 0, 1], sa_port = p\<rparr>,
    pa_remote_transport = TlsTcp, pa_other = 0\<rparr>"

definition sample_call :: "string \<Rightarrow> u16 \<Rightarrow> nat StartCall" where
  "sample_call i p = \<lparr>sc_id = i, sc_spec = sample_forward p, sc_persist = True, sc_created_at_unix = 5,
    sc_fallback_reason = None, sc_restart = False\<rparr>"

definition sample_ser :: "nat RouteSpec \<Rightarrow> json option" where
  "sample_ser _ = Some JNull"

definition sample_task :: "u16 \<Rightarrow> nat RouteTask" where
  "sample_task p = new_route_task 7 (sample_forward p) True 5 None"

abbreviation sample_route_env where "sample_route_env \<equiv> \<lparr>spec_value = sample_ser, port_free = \<lambda>_. True\<rparr>"

lemma sample_spec [simp]: "spec_direction (sample_forward p) = ''forward''"
  "spec_listen (sample_forward p) = \<lparr>sa_ip = V4 [127, 0, 0, 1], sa_port = p\<rparr>" "sample_ser spec = Some JNull"
  by (simp_all add: sample_forward_def sample_ser_def)

lemma sample_route_start:
  assumes "\<And>j b. (j, b) \<in> set routes \<Longrightarrow> \<not> rt_finished b \<and> \<not> clash b (sample_task p)" and "om_get routes i = None"
  shows "check_call sample_route_env (sample_call i p) routes = (routes, [StartChecked (sample_call i p)]) \<and>
    commit_call sample_route_env 7 (sample_call i p) routes = (om_insert i (sample_task p) routes, [SaveDue])"
proof -
  have "om_retain (\<lambda>_ task. \<not> rt_finished task) routes = routes"
    by (rule om_retain_all) (use assms(1) in blast)
  moreover have "ensure_new_route_can_start sample_route_env routes (spec_direction (sample_forward p))
      (spec_listen (sample_forward p)) (Some (spec_peer (sample_forward p))) (sample_forward p) = Inr ()"
    by (rule ensure_succeeds [where now = 7 and persist = True and created = 5 and fallback = None])
      (use assms(1) in \<open>auto simp: sample_task_def\<close>)
  ultimately have "start_section sample_route_env i (sample_forward p) True routes = (routes, Inr None)"
    using assms(2) by (simp add: start_section_def Let_def)
  then show ?thesis
    by (simp add: check_call_def commit_call_def start_commit_def sample_call_def sample_task_def save_due_def)
qed

lemma reach_started:
  assumes "route_reach sample_ser s" and "sy_pending s = ps"
    and "\<And>j b. (j, b) \<in> set (sy_routes s) \<Longrightarrow> \<not> rt_finished b \<and> \<not> clash b (sample_task p)"
    and "om_get (sy_routes s) i = None"
  shows "route_reach sample_ser (s\<lparr>sy_routes := om_insert i (sample_task p) (sy_routes s), sy_pending := ps @ [SaveDue]\<rparr>)"
proof -
  have check: "check_call sample_route_env (sample_call i p) (sy_routes s) = (sy_routes s, [StartChecked (sample_call i p)])"
    and commit: "commit_call sample_route_env 7 (sample_call i p) (sy_routes s) = (om_insert i (sample_task p) (sy_routes s), [SaveDue])"
    using sample_route_start [of "sy_routes s" p i] assms(3,4) by blast+
  let ?s = "s\<lparr>sy_routes := sy_routes s, sy_pending := sy_pending s @ [StartChecked (sample_call i p)]\<rparr>"
  have "\<not> sc_restart (sample_call i p)" by (simp add: sample_call_def)
  then have "route_step sample_ser s ?s"
    by (rule step_start [OF check])
  then have "route_reach sample_ser ?s"
    by (rule reach_step [OF assms(1)])
  moreover have "route_step sample_ser ?s (?s\<lparr>sy_routes := om_insert i (sample_task p) (sy_routes s), sy_pending := ps @ [SaveDue] @ []\<rparr>)"
    by (rule step_commit [where c = "sample_call i p" and free = "\<lambda>_. True" and now = 7]) (use commit assms(2) in simp_all)
  ultimately show ?thesis
    using reach_step by fastforce
qed

lemma sample_no_clash: "\<not> clash (sample_task 1080) (sample_task 1081)"
proof -
  have "socket_show \<lparr>sa_ip = V4 [127, 0, 0, 1], sa_port = 1080\<rparr> \<noteq> socket_show \<lparr>sa_ip = V4 [127, 0, 0, 1], sa_port = 1081\<rparr>"
    by (simp add: socket_show_def show_nat.simps digit_char_def)
  then show ?thesis by (simp add: clash_def sample_task_def new_route_task_def)
qed

definition sample_one :: "nat RouteSystem" where
  "sample_one = \<lparr>sy_routes = [(''a'', sample_task 1080)], sy_pending = [SaveDue], sy_stored = None\<rparr>"

lemma sample_running: "\<not> rt_finished (sample_task p)"
  by (simp add: sample_task_def new_route_task_def)

lemma reach_sample_one: "route_reach sample_ser sample_one"
  using reach_started [OF reach_start, of "[]" 1080 "''a''"]
  by (simp add: system_start_def sample_one_def om_get_def)

lemma reach_sample_two:
  "route_reach sample_ser (sample_one\<lparr>sy_routes := [(''a'', sample_task 1080), (''b'', sample_task 1081)],
    sy_pending := [SaveDue, SaveDue]\<rparr>)"
  using reach_started [OF reach_sample_one refl, of 1081 "''b''"] sample_no_clash sample_running
  by (simp add: sample_one_def om_get_def)

theorem route_listeners_exclusive_witness:
  "\<exists>s. route_reach sample_ser s \<and> om_get (sy_routes s) ''a'' = Some (sample_task 1080) \<and>
    om_get (sy_routes s) ''b'' = Some (sample_task 1081) \<and>
    spec_listen (rt_spec (sample_task 1080)) \<noteq> spec_listen (rt_spec (sample_task 1081))"
proof (intro exI conjI)
  show "spec_listen (rt_spec (sample_task 1080)) \<noteq> spec_listen (rt_spec (sample_task 1081))"
    by (rule route_listeners_exclusive [OF reach_sample_two, of "''a''" _ "''b''"])
      (simp_all add: sample_one_def om_get_def sample_task_def new_route_task_def)
qed (rule reach_sample_two, simp_all add: sample_one_def om_get_def)

text \<open>
  C11. Persistent routes survive a restart of the daemon.  A route table that was saved is read back by an empty daemon with
  exactly its persistent routes, under their ids, with their specification, creation time and fallback
  reason: since no two of them claim one listener, none of them is refused as long as the ports are
  free again.
\<close>

theorem persistent_routes_survive_restart:
  assumes "route_reach ser s"
    and "save_routes encode senv path (sy_routes s) fs = (fs', Inr ())"
    and "\<And>body. encode (route_store_of (sy_routes s)) = Some body \<Longrightarrow> decode body = Some (route_store_of (sy_routes s))"
    and "\<And>i t. om_get (sy_routes s) i = Some t \<Longrightarrow> rt_persist t \<Longrightarrow>
      ser (rt_spec t) \<noteq> None \<and> (spec_direction (rt_spec t) = ''forward'' \<longrightarrow> free (spec_listen (rt_spec t)))"
  shows "om_get (restore_routes decode \<lparr>spec_value = ser, port_free = free\<rparr> now True path fs' []) i =
    Option.bind (om_get (sy_routes s) i) (persistent_task now)"
proof -
  obtain body where body: "encode (route_store_of (sy_routes s)) = Some body"
    "snd (save_text_file_private senv path body fs) = Inr ()" "fs' = fst (save_text_file_private senv path body fs)"
    using assms(2) by (auto simp: save_routes_def split: option.splits prod.splits sum.splits)
  then obtain m where "fs' path = Some \<lparr>content = body, mode = m\<rparr>"
    using save_ok [OF body(2)] by blast
  then have "restore_routes decode \<lparr>spec_value = ser, port_free = free\<rparr> now True path fs' [] =
      restore_each \<lparr>spec_value = ser, port_free = free\<rparr> now (rs_routes (route_store_of (sy_routes s))) []"
    using assms(3) [OF body(1)] by (simp add: restore_routes_def)
  then show ?thesis
    using restore_store [OF route_reach_ok [OF assms(1)], of "\<lparr>spec_value = ser, port_free = free\<rparr>" now i] assms(4)
    by simp
qed

definition sample_save :: save_env where
  "sample_save = \<lparr>unix = True, windows = False, pid = 1, stamp = 1, umask = 0, mkdir_ok = True, create_ok = True,
    write_stops = None, sync_ok = True, remove_ok = True, rename_ok = True, chmod_ok = True\<rparr>"

theorem persistent_routes_survive_restart_witness:
  "let path = \<lparr>parent = ''/s'', file_name = ''routes.json''\<rparr>;
       fs = fst (save_routes (\<lambda>_. Some ''store'') sample_save path (sy_routes sample_one) Map.empty) in
   om_get (restore_routes (\<lambda>_. Some (route_store_of (sy_routes sample_one))) sample_route_env 9 True path fs []) ''a'' =
     Some (new_route_task 9 (sample_forward 1080) True 5 None)"
proof -
  let ?path = "\<lparr>parent = ''/s'', file_name = ''routes.json''\<rparr>"
  let ?save = "save_routes (\<lambda>_. Some ''store'') sample_save ?path (sy_routes sample_one) Map.empty"
  have "temp_save_path sample_save ?path \<noteq> ?path" by (rule temp_save_path_neq)
  then have "snd ?save = Inr ()"
    by (simp add: save_routes_def save_defs Let_def sample_save_def)
  then have "?save = (fst ?save, Inr ())" by (metis prod.collapse)
  from persistent_routes_survive_restart [OF reach_sample_one this,
      of "\<lambda>_. Some (route_store_of (sy_routes sample_one))" "\<lambda>_. True" 9 "''a''"]
  show ?thesis
    by (simp add: Let_def sample_one_def om_get_def persistent_task_def sample_task_def new_route_task_def)
qed

text \<open>
  Saves are not ordered.  A snapshot is taken under the lock but written without it, so an older snapshot can be
  written last: then every request is answered and every write succeeded, and still a route that was
  stopped is in the store and runs again after the next restart.
\<close>

lemma reach_snapshot:
  "route_reach ser s \<Longrightarrow> sy_pending s = ps @ SaveDue # qs \<Longrightarrow>
    route_reach ser (s\<lparr>sy_pending := ps @ Writing (route_store_of (sy_routes s)) # qs\<rparr>)"
  using reach_step step_snapshot by blast

lemma reach_write:
  "route_reach ser s \<Longrightarrow> sy_pending s = ps @ Writing store # qs \<Longrightarrow>
    route_reach ser (s\<lparr>sy_pending := ps @ qs, sy_stored := Some store\<rparr>)"
  using reach_step step_write by blast

lemma stopped_route_can_come_back:
  "\<exists>s store. route_reach sample_ser s \<and> sy_pending s = [] \<and> sy_routes s = [] \<and> sy_stored s = Some store \<and>
    om_get (restore_each sample_route_env 9 (rs_routes store) []) ''a'' = Some (new_route_task 9 (sample_forward 1080) True 5 None)"
proof -
  let ?old = "route_store_of (sy_routes sample_one)"
  let ?new = "route_store_of [] :: nat RouteStore"
  let ?s = "\<lambda>routes ps stored. \<lparr>sy_routes = routes, sy_pending = ps, sy_stored = stored\<rparr>"
  have "route_reach sample_ser (?s (sy_routes sample_one) [Writing ?old] None)"
    using reach_snapshot [OF reach_sample_one, of "[]" "[]"] by (simp add: sample_one_def)
  from reach_step [OF this step_stop [of _ "''a''" "sample_task 1080"]]
  have "route_reach sample_ser (?s [] [Writing ?old, SaveDue] None)"
    by (simp add: sample_one_def om_get_def om_remove_def sample_task_def new_route_task_def)
  from reach_snapshot [OF this, of "[Writing ?old]" "[]"]
  have "route_reach sample_ser (?s [] [Writing ?old, Writing ?new] None)" by simp
  from reach_write [OF this, of "[Writing ?old]" ?new "[]"]
  have "route_reach sample_ser (?s [] [Writing ?old] (Some ?new))" by simp
  from reach_write [OF this, of "[]" ?old "[]"]
  have run: "route_reach sample_ser (?s [] [] (Some ?old))" by simp
  have "om_get (restore_each sample_route_env 9 (rs_routes ?old) []) ''a'' =
      Option.bind (om_get (sy_routes sample_one) ''a'') (persistent_task 9)"
    by (rule restore_store [OF route_reach_ok [OF reach_sample_one]]) simp
  then have "om_get (restore_each sample_route_env 9 (rs_routes ?old) []) ''a'' =
      Some (new_route_task 9 (sample_forward 1080) True 5 None)"
    by (simp add: sample_one_def om_get_def persistent_task_def sample_task_def new_route_task_def)
  with run show ?thesis by (intro exI [of _ "?s [] [] (Some ?old)"] exI [of _ ?old]) simp
qed

end
