(* ===== verification/Lifecycle.thy ===== *)
theory Lifecycle
  imports Core_Model Repair Redaction Route_Decision
begin

text \<open>
  Installing and controlling a peer (\<^verbatim>\<open>ssh-proxy-lifecycle\<close> and \<^verbatim>\<open>ssh-proxy/src/peer_lifecycle\<close>): plans of steps, the service
  providers that make them, and the runner that executes a plan step by step and reports its
  progress.  The executor that touches a machine is an argument of the runner.
\<close>

section \<open>Operations and phases\<close>

datatype LifecycleOperation = Install | Ensure | Start | Stop | Status | RepairOp | RollbackOp

fun operation_str :: "LifecycleOperation \<Rightarrow> string" where
  "operation_str Install = ''install''"
| "operation_str Ensure = ''ensure''"
| "operation_str Start = ''start''"
| "operation_str Stop = ''stop''"
| "operation_str Status = ''status''"
| "operation_str RepairOp = ''repair''"
| "operation_str RollbackOp = ''rollback''"

datatype PeerLifecyclePhase =
    Prepare | InspectDescriptor | DependencyCheck | StageBinary | WriteConfig | InstallService | StartService
  | HealthProbe | RecordPhase | HealthyPhase | Repairing | Rollback | FailedPhase

fun phase_str :: "PeerLifecyclePhase \<Rightarrow> string" where
  "phase_str Prepare = ''prepare''"
| "phase_str InspectDescriptor = ''inspect_descriptor''"
| "phase_str DependencyCheck = ''dependency_check''"
| "phase_str StageBinary = ''stage_binary''"
| "phase_str WriteConfig = ''write_config''"
| "phase_str InstallService = ''install_service''"
| "phase_str StartService = ''start_service''"
| "phase_str HealthProbe = ''health_probe''"
| "phase_str RecordPhase = ''record''"
| "phase_str HealthyPhase = ''healthy''"
| "phase_str Repairing = ''repairing''"
| "phase_str Rollback = ''rollback''"
| "phase_str FailedPhase = ''failed''"

fun phase_progress :: "PeerLifecyclePhase \<Rightarrow> u8" where
  "phase_progress Prepare = 5"
| "phase_progress InspectDescriptor = 15"
| "phase_progress DependencyCheck = 25"
| "phase_progress StageBinary = 35"
| "phase_progress WriteConfig = 45"
| "phase_progress InstallService = 60"
| "phase_progress StartService = 72"
| "phase_progress HealthProbe = 85"
| "phase_progress RecordPhase = 95"
| "phase_progress HealthyPhase = 100"
| "phase_progress Repairing = 50"
| "phase_progress Rollback = 90"
| "phase_progress FailedPhase = 100"

datatype ServiceControlAction = ScInstall | ScStart | ScStop | ScStatus | ScRollback

fun control_str :: "ServiceControlAction \<Rightarrow> string" where
  "control_str ScInstall = ''install''"
| "control_str ScStart = ''start''"
| "control_str ScStop = ''stop''"
| "control_str ScStatus = ''status''"
| "control_str ScRollback = ''rollback''"

datatype PeerArtifact =
    ConfigFile | PeerState | InstallReport | HealthFile | RoutesFile | VscodeMachineSettings | VscodeServerEnv
  | VscodeRemoteStatus

fun artifact_file_name :: "PeerArtifact \<Rightarrow> string" where
  "artifact_file_name ConfigFile = ''config.toml''"
| "artifact_file_name PeerState = ''peer_state.json''"
| "artifact_file_name InstallReport = ''install_report.json''"
| "artifact_file_name HealthFile = ''health.json''"
| "artifact_file_name RoutesFile = ''routes.json''"
| "artifact_file_name VscodeMachineSettings = ''settings.json''"
| "artifact_file_name VscodeServerEnv = ''server-env-setup''"
| "artifact_file_name VscodeRemoteStatus = ''remote-proxy-status.json''"

definition preserve_existing :: "PeerArtifact \<Rightarrow> bool" where
  "preserve_existing a \<longleftrightarrow> a = RoutesFile"

definition backup_existing :: "PeerArtifact \<Rightarrow> bool" where
  "backup_existing a \<longleftrightarrow> a = ConfigFile"

section \<open>Plans\<close>

record LifecycleCommand =
  lc_phase :: PeerLifecyclePhase
  lc_command :: string
  lc_stdin :: "byte list option"

definition command_new :: "PeerLifecyclePhase \<Rightarrow> string \<Rightarrow> LifecycleCommand" where
  "command_new phase command = \<lparr>lc_phase = phase, lc_command = command, lc_stdin = None\<rparr>"

definition command_with_stdin :: "byte list \<Rightarrow> LifecycleCommand \<Rightarrow> LifecycleCommand" where
  "command_with_stdin stdin c = c\<lparr>lc_stdin := Some stdin\<rparr>"

record LifecycleCommandPlan =
  cp_operation :: LifecycleOperation
  cp_commands :: "LifecycleCommand list"

definition command_plan_new :: "LifecycleOperation \<Rightarrow> LifecycleCommandPlan" where
  "command_plan_new operation = \<lparr>cp_operation = operation, cp_commands = []\<rparr>"

definition command_plan_push :: "LifecycleCommand \<Rightarrow> LifecycleCommandPlan \<Rightarrow> LifecycleCommandPlan" where
  "command_plan_push command plan = plan\<lparr>cp_commands := cp_commands plan @ [command]\<rparr>"

datatype LifecycleAction =
    RunCommand string "byte list option"
  | StageBinaryFile string string
  | WriteArtifact string PeerArtifact "byte list"
  | ReadArtifact string
  | ProbeTcp SocketAddr
  | ServiceControl string ServiceControlAction
  | Noop

fun action_label :: "LifecycleAction \<Rightarrow> string" where
  "action_label (RunCommand _ _) = ''run_command''"
| "action_label (StageBinaryFile _ _) = ''stage_binary''"
| "action_label (WriteArtifact _ _ _) = ''write_artifact''"
| "action_label (ReadArtifact _) = ''read_artifact''"
| "action_label (ProbeTcp _) = ''probe_tcp''"
| "action_label (ServiceControl _ _) = ''service_control''"
| "action_label Noop = ''noop''"

record LifecycleStep =
  ls_phase :: PeerLifecyclePhase
  ls_action :: LifecycleAction

record LifecyclePlan =
  lp_operation :: LifecycleOperation
  lp_steps :: "LifecycleStep list"

definition plan_new :: "LifecycleOperation \<Rightarrow> LifecyclePlan" where
  "plan_new operation = \<lparr>lp_operation = operation, lp_steps = []\<rparr>"

definition plan_push :: "LifecycleStep \<Rightarrow> LifecyclePlan \<Rightarrow> LifecyclePlan" where
  "plan_push step plan = plan\<lparr>lp_steps := lp_steps plan @ [step]\<rparr>"

definition plan_of_commands :: "LifecycleCommandPlan \<Rightarrow> LifecyclePlan" where
  "plan_of_commands plan =
    \<lparr>lp_operation = cp_operation plan,
     lp_steps = map (\<lambda>c. \<lparr>ls_phase = lc_phase c, ls_action = RunCommand (lc_command c) (lc_stdin c)\<rparr>) (cp_commands plan)\<rparr>"

section \<open>Service providers\<close>

datatype ServiceProviderKind =
    WindowsScmSystem | WindowsScheduledTaskUser | SystemdUser | SystemdSystem | LaunchdUser | LaunchdSystem
  | NohupSupervisor

definition from_manager_name :: "string \<Rightarrow> ServiceProviderKind option" where
  "from_manager_name name =
    (if name = ''windows_scm_system'' then Some WindowsScmSystem
     else if name = ''windows_schtasks_user'' then Some WindowsScheduledTaskUser
     else if name = ''systemd_user'' then Some SystemdUser
     else if name = ''systemd_system'' then Some SystemdSystem
     else if name = ''launchd_user'' then Some LaunchdUser
     else if name = ''launchd_system'' then Some LaunchdSystem
     else if name = ''nohup_supervisor'' then Some NohupSupervisor
     else None)"

fun manager_name :: "ServiceProviderKind \<Rightarrow> string" where
  "manager_name WindowsScmSystem = ''windows_scm_system''"
| "manager_name WindowsScheduledTaskUser = ''windows_schtasks_user''"
| "manager_name SystemdUser = ''systemd_user''"
| "manager_name SystemdSystem = ''systemd_system''"
| "manager_name LaunchdUser = ''launchd_user''"
| "manager_name LaunchdSystem = ''launchd_system''"
| "manager_name NohupSupervisor = ''nohup_supervisor''"

fun provider_platform :: "ServiceProviderKind \<Rightarrow> string" where
  "provider_platform WindowsScmSystem = ''windows''"
| "provider_platform WindowsScheduledTaskUser = ''windows''"
| "provider_platform SystemdUser = ''linux''"
| "provider_platform SystemdSystem = ''linux''"
| "provider_platform NohupSupervisor = ''linux''"
| "provider_platform LaunchdUser = ''macos''"
| "provider_platform LaunchdSystem = ''macos''"

definition provider_persistent :: "ServiceProviderKind \<Rightarrow> bool" where
  "provider_persistent k \<longleftrightarrow> k \<noteq> NohupSupervisor"

definition provider_requires_elevation :: "ServiceProviderKind \<Rightarrow> bool" where
  "provider_requires_elevation k \<longleftrightarrow> k \<in> set [WindowsScmSystem, SystemdSystem, LaunchdSystem]"

fun provider_for_platform :: "RemotePlatform \<Rightarrow> PersistenceMode \<Rightarrow> ServiceProviderKind" where
  "provider_for_platform p Systemd = SystemdUser"
| "provider_for_platform p Nohup = NohupSupervisor"
| "provider_for_platform p Launchd = LaunchdUser"
| "provider_for_platform p Schtasks = WindowsScheduledTaskUser"
| "provider_for_platform p NoPersistence = NohupSupervisor"
| "provider_for_platform p PersistenceMode.Auto = (if p = Windows then WindowsScheduledTaskUser else SystemdUser)"

definition provider_for_remote_report :: "string \<Rightarrow> RemotePlatform \<Rightarrow> PersistenceMode \<Rightarrow> ServiceProviderKind" where
  "provider_for_remote_report service_manager p persistence =
    unwrap_or (from_manager_name service_manager) (provider_for_platform p persistence)"

definition provider_dependency_classification :: "ServiceProviderKind \<Rightarrow> string" where
  "provider_dependency_classification k = (if k = NohupSupervisor then ''emergency_compat'' else ''required'')"

definition provider_dependency_state :: "ServiceProviderKind \<Rightarrow> string" where
  "provider_dependency_state k = (if k = NohupSupervisor then ''fallback_provider'' else ''selected_provider'')"

definition provider_external_action_report :: "ServiceProviderKind \<Rightarrow> ExternalActionReport" where
  "provider_external_action_report k =
    (if k = NohupSupervisor
     then ea_with_reason ''nohup supervisor is an emergency compatibility provider''
            (fallback_provider ''remote_shell_bootstrap'')
     else ea_with_reason (manager_name k @ '' service provider command'') (required_provider ''provider_command''))"

datatype ProviderStatusState = ProviderHealthy | Present | Missing | PermissionDenied | UnknownState

record ProviderStatus =
  ps_state :: ProviderStatusState
  ps_healthy :: bool
  ps_message :: string

definition classify_provider_status :: "u32 \<Rightarrow> string \<Rightarrow> string \<Rightarrow> ProviderStatus" where
  "classify_provider_status exit_status stdout stderr =
    (let t = to_ascii_lowercase (stdout @ [CHR 0x0A] @ stderr);
         permission_denied = str_contains t ''access is denied'' \<or> str_contains t ''permission denied''
           \<or> str_contains t ''not permitted'' \<or> str_contains t ''operation not permitted'';
         missing = str_contains t ''not-found'' \<or> str_contains t ''not found''
           \<or> str_contains t ''could not be found'' \<or> str_contains t ''does not exist'';
         healthy = (exit_status = 0 \<and> (str_contains t ''running'' \<or> str_contains t ''active''
           \<or> str_contains t ''healthy'' \<or> str_contains t ''success''))
     in \<lparr>ps_state =
          (if permission_denied then PermissionDenied
           else if healthy then ProviderHealthy
           else if missing then Missing
           else if exit_status = 0 then Present
           else UnknownState),
         ps_healthy = healthy,
         ps_message = (if trim stderr = [] then trim stdout else trim stderr)\<rparr>)"

section \<open>Specifications and reports\<close>

datatype PeerLifecycleRole = LocalDaemon | RemotePeer
datatype PeerLifecyclePlatform = PlWindows | PlLinux | PlMacos | PlUnknown
datatype PeerLifecycleScope = ScopeUser | ScopeSystem | ScopeManaged | ScopeNone
datatype RollbackPolicy = NoRollback | PreserveExisting | StopAndRestore

record PeerLifecycleSpec =
  pls_role :: PeerLifecycleRole
  pls_target :: string
  pls_platform :: PeerLifecyclePlatform
  pls_scope :: PeerLifecycleScope
  pls_provider :: ServiceProviderKind
  pls_service_name :: string
  pls_binary_path :: string
  pls_transport :: "SocketAddr option"
  pls_control_endpoint :: "string option"
  pls_token :: "string option"
  pls_state_dir :: string
  pls_rollback_policy :: RollbackPolicy

text \<open>The serialized names of the enumerations.\<close>

fun role_name :: "PeerLifecycleRole \<Rightarrow> string" where
  "role_name LocalDaemon = ''local_daemon''"
| "role_name RemotePeer = ''remote_peer''"

fun platform_name :: "PeerLifecyclePlatform \<Rightarrow> string" where
  "platform_name PlWindows = ''windows''"
| "platform_name PlLinux = ''linux''"
| "platform_name PlMacos = ''macos''"
| "platform_name PlUnknown = ''unknown''"

fun scope_name :: "PeerLifecycleScope \<Rightarrow> string" where
  "scope_name ScopeUser = ''user''"
| "scope_name ScopeSystem = ''system''"
| "scope_name ScopeManaged = ''managed''"
| "scope_name ScopeNone = ''none''"

text \<open>What an installation asks for; paths are strings.\<close>

record SshTargetIntent =
  si_target :: string
  si_ssh_args :: "string list"
  si_ssh_command :: "string option"
  si_user :: "string option"
  si_port :: "u16 option"
  si_identity :: "string list"
  si_config :: "string option"
  si_known_hosts :: "string option"
  si_accept_new :: bool
  si_insecure_ignore_host_key :: bool
  si_jump :: "string list"

definition ssh_target_new :: "string \<Rightarrow> SshTargetIntent" where
  "ssh_target_new target =
    \<lparr>si_target = target, si_ssh_args = [], si_ssh_command = None, si_user = None, si_port = None, si_identity = [],
     si_config = None, si_known_hosts = None, si_accept_new = False, si_insecure_ignore_host_key = False, si_jump = []\<rparr>"

definition requires_external_ssh :: "SshTargetIntent \<Rightarrow> bool" where
  "requires_external_ssh t \<longleftrightarrow> si_ssh_command t \<noteq> None"

record RemoteInstallIntent =
  ii_ssh :: SshTargetIntent
  ii_remote_platform :: RemotePlatform
  ii_persistence :: PersistenceMode
  ii_remote_path :: "string option"
  ii_remote_bin :: "string option"
  ii_remote_token :: "string option"
  ii_remote_tcp :: SocketAddr
  ii_remote_control :: SocketAddr
  ii_remote_tls_transport :: "SocketAddr option"
  ii_remote_quic_transport :: "SocketAddr option"
  ii_remote_tls_cert :: "string option"
  ii_remote_tls_key :: "string option"
  ii_remote_tls_client_ca :: "string option"
  ii_local_node_id :: "string option"
  ii_local_node_name :: "string option"
  ii_local_control_endpoint :: "string option"
  ii_local_transport :: "SocketAddr option"
  ii_remote_node_id :: "string option"
  ii_remote_node_name :: "string option"

definition install_intent_new ::
  "SshTargetIntent \<Rightarrow> SocketAddr \<Rightarrow> SocketAddr \<Rightarrow> PersistenceMode \<Rightarrow> RemoteInstallIntent" where
  "install_intent_new ssh tcp control persistence =
    \<lparr>ii_ssh = ssh, ii_remote_platform = RemotePlatform.Auto, ii_persistence = persistence, ii_remote_path = None,
     ii_remote_bin = None, ii_remote_token = None, ii_remote_tcp = tcp, ii_remote_control = control,
     ii_remote_tls_transport = None, ii_remote_quic_transport = None, ii_remote_tls_cert = None,
     ii_remote_tls_key = None, ii_remote_tls_client_ca = None, ii_local_node_id = None, ii_local_node_name = None,
     ii_local_control_endpoint = None, ii_local_transport = None, ii_remote_node_id = None, ii_remote_node_name = None\<rparr>"

definition platform_from_remote_install :: "RemotePlatform \<Rightarrow> PersistenceMode \<Rightarrow> PeerLifecyclePlatform" where
  "platform_from_remote_install p persistence =
    (case persistence of
       Launchd \<Rightarrow> PlMacos
     | Schtasks \<Rightarrow> PlWindows
     | _ \<Rightarrow> (case p of Windows \<Rightarrow> PlWindows | Unix \<Rightarrow> PlLinux | RemotePlatform.Auto \<Rightarrow> PlUnknown))"

definition scope_from_persistence :: "PersistenceMode \<Rightarrow> PeerLifecycleScope" where
  "scope_from_persistence persistence =
    (case persistence of NoPersistence \<Rightarrow> ScopeNone | Nohup \<Rightarrow> ScopeManaged | _ \<Rightarrow> ScopeUser)"

definition remote_state_dir :: "RemotePlatform \<Rightarrow> string" where
  "remote_state_dir p = (if p = Windows then ''%USERPROFILE%'' @ [CHR 0x5C] @ ''.ssh_proxy'' else ''$HOME/.ssh_proxy'')"

definition remote_peer_from_intent ::
  "string \<Rightarrow> string \<Rightarrow> RemoteInstallIntent \<Rightarrow> ServiceProviderKind \<Rightarrow> PeerLifecycleSpec" where
  "remote_peer_from_intent target remote_path intent provider =
    \<lparr>pls_role = RemotePeer, pls_target = target,
     pls_platform = platform_from_remote_install (ii_remote_platform intent) (ii_persistence intent),
     pls_scope = scope_from_persistence (ii_persistence intent), pls_provider = provider,
     pls_service_name = ''ssh-proxy-helper'', pls_binary_path = remote_path, pls_transport = Some (ii_remote_tcp intent),
     pls_control_endpoint = Some (''tcp://'' @ socket_show (ii_remote_control intent)),
     pls_token = ii_remote_token intent, pls_state_dir = remote_state_dir (ii_remote_platform intent),
     pls_rollback_policy = PreserveExisting\<rparr>"

text \<open>The platform the program was compiled for is an argument.\<close>

definition local_daemon ::
  "PeerLifecyclePlatform \<Rightarrow> string \<Rightarrow> string \<Rightarrow> ServiceProviderKind \<Rightarrow> string \<Rightarrow> string option \<Rightarrow> SocketAddr option \<Rightarrow>
    string option \<Rightarrow> string \<Rightarrow> PeerLifecycleSpec" where
  "local_daemon local_platform target binary_path provider service_name control_endpoint transport token state_dir =
    \<lparr>pls_role = LocalDaemon, pls_target = target, pls_platform = local_platform,
     pls_scope = (if provider_requires_elevation provider then ScopeSystem else ScopeUser), pls_provider = provider,
     pls_service_name = service_name, pls_binary_path = binary_path, pls_transport = transport,
     pls_control_endpoint = control_endpoint, pls_token = token, pls_state_dir = state_dir,
     pls_rollback_policy = StopAndRestore\<rparr>"

record PeerHealth =
  ph_state :: HealthStatus
  ph_transport :: "SocketAddr option"
  ph_control :: "string option"
  ph_blocker :: "string option"
  ph_last_error :: "string option"
  ph_latency_ms :: "u64 option"

definition peer_healthy :: "SocketAddr \<Rightarrow> string \<Rightarrow> PeerHealth" where
  "peer_healthy transport control =
    \<lparr>ph_state = Healthy, ph_transport = Some transport, ph_control = Some control, ph_blocker = None,
     ph_last_error = None, ph_latency_ms = None\<rparr>"

definition peer_failed :: "string \<Rightarrow> string \<Rightarrow> PeerHealth" where
  "peer_failed blocker err =
    \<lparr>ph_state = Failed, ph_transport = None, ph_control = None, ph_blocker = Some blocker, ph_last_error = Some err,
     ph_latency_ms = None\<rparr>"

record LcDependencyStatus =
  dp_name :: string
  dp_classification :: string
  dp_state :: string
  dp_message :: "string option"
  dp_blocker :: "string option"
  dp_repair_action :: "RepairAction option"

definition dependency_new :: "string \<Rightarrow> string \<Rightarrow> string \<Rightarrow> LcDependencyStatus" where
  "dependency_new name classification s =
    \<lparr>dp_name = name, dp_classification = classification, dp_state = s, dp_message = None, dp_blocker = None,
     dp_repair_action = None\<rparr>"

definition lc_dependency_with_message :: "string \<Rightarrow> LcDependencyStatus \<Rightarrow> LcDependencyStatus" where
  "lc_dependency_with_message message d = d\<lparr>dp_message := Some message\<rparr>"

definition dependency_blocked :: "string \<Rightarrow> LcDependencyStatus \<Rightarrow> LcDependencyStatus" where
  "dependency_blocked blocker d = d\<lparr>dp_repair_action := action_for_blocker blocker, dp_blocker := Some blocker\<rparr>"

record PeerLifecycleReport =
  lr_target :: string
  lr_state :: string
  lr_phase :: PeerLifecyclePhase
  lr_role :: "string option"
  lr_platform :: "string option"
  lr_scope :: "string option"
  lr_operation :: "string option"
  lr_provider :: "string option"
  lr_service_name :: "string option"
  lr_service_manager :: "string option"
  lr_artifacts :: "string list"
  lr_health_probe :: "json option"
  lr_dependencies :: "LcDependencyStatus list"
  lr_blocker :: "string option"
  lr_last_error :: "string option"
  lr_retry_after_ms :: "u64 option"
  lr_recovery_attempts :: u32
  lr_updated_at_unix :: u64

definition lifecycle_report_new :: "u64 \<Rightarrow> string \<Rightarrow> PeerLifecyclePhase \<Rightarrow> PeerLifecycleReport" where
  "lifecycle_report_new now target phase =
    \<lparr>lr_target = target, lr_state = phase_str phase, lr_phase = phase, lr_role = None, lr_platform = None,
     lr_scope = None, lr_operation = None, lr_provider = None, lr_service_name = None, lr_service_manager = None,
     lr_artifacts = [], lr_health_probe = None, lr_dependencies = [], lr_blocker = None, lr_last_error = None,
     lr_retry_after_ms = None, lr_recovery_attempts = 0, lr_updated_at_unix = now\<rparr>"

definition apply_spec :: "PeerLifecycleSpec \<Rightarrow> LifecycleOperation \<Rightarrow> PeerLifecycleReport \<Rightarrow> PeerLifecycleReport" where
  "apply_spec spec operation r =
    r\<lparr>lr_role := Some (role_name (pls_role spec)), lr_platform := Some (platform_name (pls_platform spec)),
      lr_scope := Some (scope_name (pls_scope spec)), lr_operation := Some (operation_str operation),
      lr_provider := Some (manager_name (pls_provider spec)),
      lr_service_manager := Some (manager_name (pls_provider spec)),
      lr_service_name := Some (pls_service_name spec)\<rparr>"

text \<open>Serialization, with absent options and empty lists left out.\<close>

definition skip_empty :: "string \<Rightarrow> ('a \<Rightarrow> json) \<Rightarrow> 'a list \<Rightarrow> (string \<times> json) list" where
  "skip_empty key f xs = (if xs = [] then [] else [(key, JArr (map f xs))])"

definition lc_dependency_json :: "LcDependencyStatus \<Rightarrow> json" where
  "lc_dependency_json d =
    json_obj ([(''name'', JStr (dp_name d)), (''classification'', JStr (dp_classification d)),
        (''state'', JStr (dp_state d))]
      @ skip_none ''message'' JStr (dp_message d) @ skip_none ''blocker'' JStr (dp_blocker d)
      @ skip_none ''repair_action'' repair_action_json (dp_repair_action d))"

definition lifecycle_report_json :: "PeerLifecycleReport \<Rightarrow> json" where
  "lifecycle_report_json r =
    json_obj ([(''target'', JStr (lr_target r)), (''state'', JStr (lr_state r)),
        (''phase'', JStr (phase_str (lr_phase r)))]
      @ skip_none ''role'' JStr (lr_role r) @ skip_none ''platform'' JStr (lr_platform r)
      @ skip_none ''scope'' JStr (lr_scope r) @ skip_none ''operation'' JStr (lr_operation r)
      @ skip_none ''provider'' JStr (lr_provider r) @ skip_none ''service_name'' JStr (lr_service_name r)
      @ skip_none ''service_manager'' JStr (lr_service_manager r) @ skip_empty ''artifacts'' JStr (lr_artifacts r)
      @ skip_none ''health_probe'' (\<lambda>v. v) (lr_health_probe r)
      @ skip_empty ''dependencies'' lc_dependency_json (lr_dependencies r) @ skip_none ''blocker'' JStr (lr_blocker r)
      @ skip_none ''last_error'' JStr (lr_last_error r) @ skip_none ''retry_after_ms'' json_u64 (lr_retry_after_ms r)
      @ [(''recovery_attempts'', JNum (uint (lr_recovery_attempts r))), (''updated_at_unix'', json_u64 (lr_updated_at_unix r))])"

definition report_redacted_value :: "PeerLifecycleReport \<Rightarrow> json" where
  "report_redacted_value r = redact_value (lifecycle_report_json r)"

datatype PeerLifecycleExecutorKind = ExLocal | ExSsh | ExFake | ExUnknown
datatype PeerLifecycleStoreKind = LocalDaemonState | RemotePeerState | Ephemeral
datatype PeerLifecycleReportSinkKind = DaemonJobEvents | VecSink | Stdout | SinkUnknown

fun store_kind_for_role :: "PeerLifecycleRole \<Rightarrow> PeerLifecycleStoreKind" where
  "store_kind_for_role LocalDaemon = LocalDaemonState"
| "store_kind_for_role RemotePeer = RemotePeerState"

record PeerLifecycleContext =
  px_target :: string
  px_role :: PeerLifecycleRole
  px_platform :: PeerLifecyclePlatform
  px_scope :: PeerLifecycleScope
  px_provider :: ServiceProviderKind
  px_service_name :: string
  px_state_dir :: string
  px_executor :: PeerLifecycleExecutorKind
  px_store :: PeerLifecycleStoreKind
  px_report_sink :: PeerLifecycleReportSinkKind

definition context_from_spec :: "PeerLifecycleSpec \<Rightarrow> PeerLifecycleContext" where
  "context_from_spec spec =
    \<lparr>px_target = pls_target spec, px_role = pls_role spec, px_platform = pls_platform spec, px_scope = pls_scope spec,
     px_provider = pls_provider spec, px_service_name = pls_service_name spec, px_state_dir = pls_state_dir spec,
     px_executor = ExUnknown, px_store = store_kind_for_role (pls_role spec), px_report_sink = SinkUnknown\<rparr>"

definition as_spec_view :: "PeerLifecycleContext \<Rightarrow> PeerLifecycleSpec" where
  "as_spec_view c =
    \<lparr>pls_role = px_role c, pls_target = px_target c, pls_platform = px_platform c, pls_scope = px_scope c,
     pls_provider = px_provider c, pls_service_name = px_service_name c, pls_binary_path = [], pls_transport = None,
     pls_control_endpoint = None, pls_token = None, pls_state_dir = px_state_dir c, pls_rollback_policy = NoRollback\<rparr>"

definition context_phase_report ::
  "u64 \<Rightarrow> PeerLifecycleContext \<Rightarrow> LifecycleOperation \<Rightarrow> PeerLifecyclePhase \<Rightarrow> PeerLifecycleReport" where
  "context_phase_report now c operation phase =
    apply_spec (as_spec_view c) operation (lifecycle_report_new now (px_target c) phase)"

definition phase_report_for_operation ::
  "u64 \<Rightarrow> PeerLifecycleSpec \<Rightarrow> LifecycleOperation \<Rightarrow> PeerLifecyclePhase \<Rightarrow> PeerLifecycleReport" where
  "phase_report_for_operation now spec operation phase =
    context_phase_report now (context_from_spec spec) operation phase"

section \<open>The plan of a provider\<close>

record ServiceProviderPlan =
  sp_kind :: ServiceProviderKind
  sp_service_name :: string
  sp_install_hint :: string
  sp_status_hint :: string

fun install_hint :: "ServiceProviderKind \<Rightarrow> string" where
  "install_hint WindowsScmSystem = ''windows-service via elevated install-worker''"
| "install_hint WindowsScheduledTaskUser = ''schtasks /Create /SC ONLOGON''"
| "install_hint SystemdUser = ''systemctl --user enable --now''"
| "install_hint SystemdSystem = ''systemctl enable --now''"
| "install_hint LaunchdUser = ''launchctl bootstrap gui/<uid>''"
| "install_hint LaunchdSystem = ''launchctl bootstrap system''"
| "install_hint NohupSupervisor = ''managed nohup supervisor script''"

fun status_hint :: "ServiceProviderKind \<Rightarrow> string" where
  "status_hint WindowsScmSystem = ''sc.exe query''"
| "status_hint WindowsScheduledTaskUser = ''schtasks /Query''"
| "status_hint SystemdUser = ''systemctl --user status''"
| "status_hint SystemdSystem = ''systemctl status''"
| "status_hint LaunchdUser = ''launchctl print gui/<uid>''"
| "status_hint LaunchdSystem = ''launchctl print system''"
| "status_hint NohupSupervisor = ''pidfile plus child process probe''"

definition provider_plan_new :: "ServiceProviderKind \<Rightarrow> string \<Rightarrow> ServiceProviderPlan" where
  "provider_plan_new kind service_name =
    \<lparr>sp_kind = kind, sp_service_name = service_name, sp_install_hint = install_hint kind, sp_status_hint = status_hint kind\<rparr>"

definition dependency_report :: "ServiceProviderPlan \<Rightarrow> LcDependencyStatus list" where
  "dependency_report p =
    [lc_dependency_with_message (sp_install_hint p)
      (dependency_new (''provider:'' @ manager_name (sp_kind p)) (provider_dependency_classification (sp_kind p))
        (provider_dependency_state (sp_kind p)))]"

fun lifecycle_phase_for_provider_operation :: "LifecycleOperation \<Rightarrow> PeerLifecyclePhase" where
  "lifecycle_phase_for_provider_operation Install = InstallService"
| "lifecycle_phase_for_provider_operation Ensure = StartService"
| "lifecycle_phase_for_provider_operation Start = StartService"
| "lifecycle_phase_for_provider_operation RepairOp = StartService"
| "lifecycle_phase_for_provider_operation Stop = Repairing"
| "lifecycle_phase_for_provider_operation Status = HealthProbe"
| "lifecycle_phase_for_provider_operation RollbackOp = Rollback"

fun service_control_action :: "LifecycleOperation \<Rightarrow> ServiceControlAction" where
  "service_control_action Install = ScInstall"
| "service_control_action Ensure = ScInstall"
| "service_control_action RepairOp = ScInstall"
| "service_control_action Start = ScStart"
| "service_control_action Stop = ScStop"
| "service_control_action Status = ScStatus"
| "service_control_action RollbackOp = ScRollback"

definition lifecycle_plan :: "PeerLifecycleSpec \<Rightarrow> LifecycleOperation \<Rightarrow> string option \<Rightarrow> LifecyclePlan" where
  "lifecycle_plan spec operation command =
    (let plan = plan_push \<lparr>ls_phase = DependencyCheck, ls_action = Noop\<rparr> (plan_new operation);
         phase = lifecycle_phase_for_provider_operation operation;
         control = ServiceControl (pls_service_name spec) (service_control_action operation);
         action = (case command of
            Some c \<Rightarrow> if trim c \<noteq> [] then RunCommand c None else control
          | None \<Rightarrow> control)
     in plan_push \<lparr>ls_phase = phase, ls_action = action\<rparr> plan)"

definition repair_hint :: "ServiceProviderPlan \<Rightarrow> string \<Rightarrow> string option" where
  "repair_hint p blocker =
    (if blocker \<in> set [''permission_denied'', ''requires_elevation''] \<and> provider_requires_elevation (sp_kind p)
     then Some ''retry with the interactive elevated repair action''
     else if blocker \<in> set [''service_missing'', ''install_service_failed'']
     then Some (''reinstall '' @ sp_service_name p @ '' using '' @ sp_install_hint p)
     else if blocker \<in> set [''service_not_running'', ''start_service_failed'']
     then Some (''start '' @ sp_service_name p @ '' using '' @ sp_status_hint p)
     else None)"

section \<open>Running a plan\<close>

record ExecOutput =
  exit_status :: u32
  out_stdout :: string
  out_stderr :: string

text \<open>An executor works on a machine of state \<open>'s\<close>; a failing call reports a message.\<close>

record 's PeerExecutor =
  exec_capture :: "string \<Rightarrow> byte list option \<Rightarrow> 's \<Rightarrow> (string, ExecOutput) result \<times> 's"
  upload_bytes :: "string \<Rightarrow> byte list \<Rightarrow> 's \<Rightarrow> (string, unit) result \<times> 's"
  stage_binary :: "string \<Rightarrow> string \<Rightarrow> 's \<Rightarrow> (string, unit) result \<times> 's"
  write_artifact :: "string \<Rightarrow> PeerArtifact \<Rightarrow> byte list \<Rightarrow> 's \<Rightarrow> (string, unit) result \<times> 's"
  read_artifact :: "string \<Rightarrow> 's \<Rightarrow> (string, byte list) result \<times> 's"
  probe_tcp :: "SocketAddr \<Rightarrow> 's \<Rightarrow> (string, unit) result \<times> 's"
  service_control :: "string \<Rightarrow> ServiceControlAction \<Rightarrow> 's \<Rightarrow> (string, ExecOutput) result \<times> 's"

text \<open>The methods an executor does not provide keep the bodies of the trait.\<close>

definition default_executor ::
  "(string \<Rightarrow> byte list option \<Rightarrow> 's \<Rightarrow> (string, ExecOutput) result \<times> 's) \<Rightarrow>
   (string \<Rightarrow> byte list \<Rightarrow> 's \<Rightarrow> (string, unit) result \<times> 's) \<Rightarrow> 's PeerExecutor" where
  "default_executor exec upload =
    \<lparr>exec_capture = exec,
     upload_bytes = upload,
     stage_binary = (\<lambda>source target s.
       (Inl (''binary staging from '' @ source @ '' to '' @ target @ '' is not supported by this executor''), s)),
     write_artifact = (\<lambda>target artifact bytes s. upload target bytes s),
     read_artifact = (\<lambda>target s. (Inl (''reading lifecycle artifact is not supported for target '' @ target), s)),
     probe_tcp = (\<lambda>addr s.
       (Inl (''TCP probing for '' @ socket_show addr @ '' is not supported by this executor''), s)),
     service_control = (\<lambda>service_name action s.
       (Inl (''service control '' @ control_str action @ '' for '' @ service_name @ '' is not supported by this executor''), s))\<rparr>"

text \<open>The recording executor of the crate; queued outputs are taken from the end.\<close>

record FakeExecutor =
  fx_outputs :: "ExecOutput list"
  fx_commands :: "string list"
  fx_artifacts :: "(string \<times> PeerArtifact \<times> byte list) list"
  fx_service_controls :: "(string \<times> ServiceControlAction) list"

definition fx_pop :: "string \<Rightarrow> FakeExecutor \<Rightarrow> (string, ExecOutput) result \<times> FakeExecutor" where
  "fx_pop missing f =
    (if fx_outputs f = [] then (Inl missing, f)
     else (Inr (last (fx_outputs f)), f\<lparr>fx_outputs := butlast (fx_outputs f)\<rparr>))"

definition fake_executor :: "FakeExecutor PeerExecutor" where
  "fake_executor =
    (default_executor
       (\<lambda>command stdin f. fx_pop ''fake executor has no queued output'' (f\<lparr>fx_commands := fx_commands f @ [command]\<rparr>))
       (\<lambda>command bytes f. (Inr (), f\<lparr>fx_commands := fx_commands f @ [command]\<rparr>)))
     \<lparr>write_artifact := (\<lambda>target artifact bytes f. (Inr (), f\<lparr>fx_artifacts := fx_artifacts f @ [(target, artifact, bytes)]\<rparr>)),
      stage_binary := (\<lambda>source target f.
        (Inr (), f\<lparr>fx_commands := fx_commands f @ [''stage_binary '' @ source @ '' '' @ target]\<rparr>)),
      service_control := (\<lambda>service_name action f.
        fx_pop ''fake executor has no queued service control output''
          (f\<lparr>fx_service_controls := fx_service_controls f @ [(service_name, action)]\<rparr>))\<rparr>"

datatype LifecycleActionResult = Completed | CommandOutput ExecOutput

definition completed :: "(string, 'a) result \<times> 's \<Rightarrow> (string, LifecycleActionResult) result \<times> 's" where
  "completed rs = (case rs of (Inl e, s) \<Rightarrow> (Inl e, s) | (Inr _, s) \<Rightarrow> (Inr Completed, s))"

fun execute_action :: "'s PeerExecutor \<Rightarrow> LifecycleAction \<Rightarrow> 's \<Rightarrow> (string, LifecycleActionResult) result \<times> 's" where
  "execute_action ex (RunCommand command stdin) s =
    (case exec_capture ex command stdin s of
       (Inl e, s) \<Rightarrow> (Inl (''failed to run lifecycle command '' @ command @ '': '' @ e), s)
     | (Inr out, s) \<Rightarrow> (Inr (CommandOutput out), s))"
| "execute_action ex (StageBinaryFile source target) s = completed (stage_binary ex source target s)"
| "execute_action ex (WriteArtifact target artifact bytes) s = completed (write_artifact ex target artifact bytes s)"
| "execute_action ex (ReadArtifact target) s = completed (read_artifact ex target s)"
| "execute_action ex (ProbeTcp addr) s = completed (probe_tcp ex addr s)"
| "execute_action ex (ServiceControl service_name action) s =
    (case service_control ex service_name action s of
       (Inl e, s) \<Rightarrow> (Inl e, s)
     | (Inr out, s) \<Rightarrow> (Inr (CommandOutput out), s))"
| "execute_action ex Noop s = (Inr Completed, s)"

record LifecycleFailure =
  lf_phase :: PeerLifecyclePhase
  lf_action :: string
  lf_blocker :: string
  lf_message :: string
  lf_exit_status :: "u32 option"

definition failure_from_command :: "PeerLifecyclePhase \<Rightarrow> string \<Rightarrow> ExecOutput \<Rightarrow> LifecycleFailure" where
  "failure_from_command phase action out =
    \<lparr>lf_phase = phase, lf_action = action, lf_blocker = phase_str phase @ ''_failed'',
     lf_message = (if trim (out_stderr out) = [] then trim (out_stdout out) else trim (out_stderr out)),
     lf_exit_status = Some (exit_status out)\<rparr>"

definition failure_from_error :: "PeerLifecyclePhase \<Rightarrow> string \<Rightarrow> string \<Rightarrow> LifecycleFailure" where
  "failure_from_error phase action err =
    \<lparr>lf_phase = phase, lf_action = action, lf_blocker = phase_str phase @ ''_failed'', lf_message = err,
     lf_exit_status = None\<rparr>"

datatype LifecycleStepStatus = StepCompleted PeerLifecyclePhase string | StepFailed LifecycleFailure

record LifecycleEvent =
  le_operation :: LifecycleOperation
  le_report :: PeerLifecycleReport
  le_message :: string

definition apply_failure_to_report :: "LifecycleFailure \<Rightarrow> PeerLifecycleReport \<Rightarrow> PeerLifecycleReport" where
  "apply_failure_to_report f r =
    r\<lparr>lr_state := phase_str FailedPhase, lr_phase := FailedPhase, lr_blocker := Some (lf_blocker f),
      lr_last_error := Some (lf_message f)\<rparr>"

definition failure_event :: "LifecycleOperation \<Rightarrow> LifecycleAction \<Rightarrow> PeerLifecycleReport \<Rightarrow> LifecycleEvent" where
  "failure_event operation action r =
    \<lparr>le_operation = operation, le_report = r,
     le_message = ''lifecycle phase '' @ phase_str (lr_phase r) @ '' action '' @ action_label action @ '' failed''\<rparr>"

text \<open>What the runner has collected, and what it has sent to its sink.\<close>

record Progress =
  pg_reports :: "PeerLifecycleReport list"
  pg_events :: "LifecycleEvent list"
  pg_statuses :: "LifecycleStepStatus list"
  pg_sink :: "LifecycleEvent list"

definition emit_event :: "LifecycleEvent \<Rightarrow> Progress \<Rightarrow> Progress" where
  "emit_event e p = p\<lparr>pg_events := pg_events p @ [e], pg_sink := pg_sink p @ [e]\<rparr>"

definition push_report :: "PeerLifecycleReport \<Rightarrow> Progress \<Rightarrow> Progress" where
  "push_report r p = p\<lparr>pg_reports := pg_reports p @ [r]\<rparr>"

definition push_status :: "LifecycleStepStatus \<Rightarrow> Progress \<Rightarrow> Progress" where
  "push_status t p = p\<lparr>pg_statuses := pg_statuses p @ [t]\<rparr>"

definition fail_step ::
  "LifecycleOperation \<Rightarrow> LifecycleStep \<Rightarrow> LifecycleFailure \<Rightarrow> PeerLifecycleReport \<Rightarrow> Progress \<Rightarrow> Progress" where
  "fail_step operation step failure r p =
    (let r = apply_failure_to_report failure r in
     push_status (StepFailed failure) (push_report r (emit_event (failure_event operation (ls_action step) r) p)))"

definition complete_step :: "LifecycleOperation \<Rightarrow> LifecycleStep \<Rightarrow> PeerLifecycleReport \<Rightarrow> Progress \<Rightarrow> Progress" where
  "complete_step operation step r p =
    push_report r
      (emit_event \<lparr>le_operation = operation, le_report = r,
          le_message = ''lifecycle phase '' @ phase_str (ls_phase step) @ '' completed''\<rparr>
        (push_status (StepCompleted (ls_phase step) (action_label (ls_action step))) p))"

text \<open>The clock is read once for every report.\<close>

fun run_steps ::
  "'s PeerExecutor \<Rightarrow> PeerLifecycleSpec \<Rightarrow> LifecycleOperation \<Rightarrow> (nat \<Rightarrow> u64) \<Rightarrow> nat \<Rightarrow> LifecycleStep list \<Rightarrow> 's \<Rightarrow> Progress \<Rightarrow>
    (string, nat) result \<times> 's \<times> Progress" where
  "run_steps ex spec operation clock k [] s p = (Inr k, s, p)"
| "run_steps ex spec operation clock k (step # steps) s p =
    (let report = phase_report_for_operation (clock k) spec operation (ls_phase step) in
     case execute_action ex (ls_action step) s of
       (Inl err, s) \<Rightarrow>
         let failure = failure_from_error (ls_phase step) (action_label (ls_action step)) err in
         (Inl (''lifecycle phase '' @ phase_str (lf_phase failure) @ '' action '' @ lf_action failure @ '' failed: ''
            @ lf_message failure), s, fail_step operation step failure report p)
     | (Inr result, s) \<Rightarrow>
         (case result of
            CommandOutput out \<Rightarrow>
              if exit_status out \<noteq> 0 then
                let failure = failure_from_command (ls_phase step) (action_label (ls_action step)) out in
                (Inl (''lifecycle phase '' @ phase_str (lf_phase failure) @ '' failed with status ''
                   @ show_nat (unat (unwrap_or (lf_exit_status failure) (exit_status out))) @ '': '' @ lf_message failure),
                 s, fail_step operation step failure report p)
              else run_steps ex spec operation clock (k + 1) steps s (complete_step operation step report p)
          | Completed \<Rightarrow> run_steps ex spec operation clock (k + 1) steps s (complete_step operation step report p)))"

record PeerLifecycleWorkflowResult =
  wr_operation :: LifecycleOperation
  wr_report :: PeerLifecycleReport
  wr_phase_reports :: "PeerLifecycleReport list"
  wr_events :: "LifecycleEvent list"
  wr_step_statuses :: "LifecycleStepStatus list"
  wr_redacted_report :: json

definition run_lifecycle_plan ::
  "'s PeerExecutor \<Rightarrow> PeerLifecycleSpec \<Rightarrow> LifecyclePlan \<Rightarrow> (nat \<Rightarrow> u64) \<Rightarrow> LifecycleEvent list \<Rightarrow> 's \<Rightarrow>
    (string, PeerLifecycleWorkflowResult) result \<times> 's \<times> LifecycleEvent list" where
  "run_lifecycle_plan ex spec plan clock sink s =
    (let operation = lp_operation plan;
         prepare = phase_report_for_operation (clock 0) spec operation Prepare;
         p = push_report prepare (emit_event
           \<lparr>le_operation = operation, le_report = prepare, le_message = ''preparing lifecycle operation''\<rparr>
           \<lparr>pg_reports = [], pg_events = [], pg_statuses = [], pg_sink = sink\<rparr>) in
     case run_steps ex spec operation clock 1 (lp_steps plan) s p of
       (Inl err, s, p) \<Rightarrow> (Inl err, s, pg_sink p)
     | (Inr k, s, p) \<Rightarrow>
         let report = phase_report_for_operation (clock k) spec operation HealthyPhase;
             p = push_report report (emit_event
               \<lparr>le_operation = operation, le_report = report, le_message = ''lifecycle operation completed''\<rparr> p) in
         (Inr \<lparr>wr_operation = operation, wr_report = report, wr_phase_reports = pg_reports p,
            wr_events = pg_events p, wr_step_statuses = pg_statuses p,
            wr_redacted_report = report_redacted_value report\<rparr>, s, pg_sink p))"

definition run_lifecycle_commands ::
  "'s PeerExecutor \<Rightarrow> PeerLifecycleSpec \<Rightarrow> LifecycleCommand list \<Rightarrow> (nat \<Rightarrow> u64) \<Rightarrow> 's \<Rightarrow>
    (string, PeerLifecycleWorkflowResult) result \<times> 's \<times> LifecycleEvent list" where
  "run_lifecycle_commands ex spec commands clock s =
    run_lifecycle_plan ex spec (plan_of_commands \<lparr>cp_operation = Ensure, cp_commands = commands\<rparr>) clock [] s"

section \<open>A run ends at the first step that fails\<close>

definition step_ok :: "'s PeerExecutor \<Rightarrow> LifecycleStep \<Rightarrow> 's \<Rightarrow> bool" where
  "step_ok ex step s =
    (case fst (execute_action ex (ls_action step) s) of
       Inl _ \<Rightarrow> False
     | Inr Completed \<Rightarrow> True
     | Inr (CommandOutput out) \<Rightarrow> exit_status out = 0)"

definition after_steps :: "'s PeerExecutor \<Rightarrow> LifecycleStep list \<Rightarrow> 's \<Rightarrow> 's" where
  "after_steps ex steps s = fold (\<lambda>step s. snd (execute_action ex (ls_action step) s)) steps s"

definition all_ok :: "'s PeerExecutor \<Rightarrow> LifecycleStep list \<Rightarrow> 's \<Rightarrow> bool" where
  "all_ok ex steps s \<longleftrightarrow> (\<forall>i<length steps. step_ok ex (steps ! i) (after_steps ex (take i steps) s))"

lemma after_steps_simps [simp]:
  "after_steps ex [] s = s"
  "after_steps ex (step # steps) s = after_steps ex steps (snd (execute_action ex (ls_action step) s))"
  by (simp_all add: after_steps_def)

lemma all_ok_simps [simp]:
  "all_ok ex [] s"
  "all_ok ex (step # steps) s \<longleftrightarrow> step_ok ex step s \<and> all_ok ex steps (snd (execute_action ex (ls_action step) s))"
  by (auto simp: all_ok_def less_Suc_eq_0_disj all_conj_distrib)

lemma first_failure:
  "all_ok ex steps s \<or>
   (\<exists>pre step post. steps = pre @ step # post \<and> all_ok ex pre s \<and> \<not> step_ok ex step (after_steps ex pre s))"
proof (induction steps arbitrary: s)
  case (Cons a steps)
  let ?s = "snd (execute_action ex (ls_action a) s)"
  show ?case
  proof (cases "step_ok ex a s")
    case True
    from Cons.IH [of ?s] show ?thesis
    proof
      assume "all_ok ex steps ?s"
      with True show ?thesis by simp
    next
      assume "\<exists>pre step post. steps = pre @ step # post \<and> all_ok ex pre ?s \<and> \<not> step_ok ex step (after_steps ex pre ?s)"
      then obtain pre step post where "steps = pre @ step # post" "all_ok ex pre ?s" "\<not> step_ok ex step (after_steps ex pre ?s)"
        by blast
      with True have "a # steps = (a # pre) @ step # post \<and> all_ok ex (a # pre) s \<and> \<not> step_ok ex step (after_steps ex (a # pre) s)"
        by simp
      then show ?thesis by blast
    qed
  next
    case False
    then have "a # steps = [] @ a # steps \<and> all_ok ex [] s \<and> \<not> step_ok ex a (after_steps ex [] s)" by simp
    then show ?thesis by blast
  qed
qed simp

definition completed_events ::
  "PeerLifecycleSpec \<Rightarrow> LifecycleOperation \<Rightarrow> (nat \<Rightarrow> u64) \<Rightarrow> nat \<Rightarrow> LifecycleStep list \<Rightarrow> LifecycleEvent list" where
  "completed_events spec operation clock k steps =
    map (\<lambda>(i, step). \<lparr>le_operation = operation,
        le_report = phase_report_for_operation (clock i) spec operation (ls_phase step),
        le_message = ''lifecycle phase '' @ phase_str (ls_phase step) @ '' completed''\<rparr>) (enumerate k steps)"

definition completed_statuses :: "LifecycleStep list \<Rightarrow> LifecycleStepStatus list" where
  "completed_statuses steps = map (\<lambda>step. StepCompleted (ls_phase step) (action_label (ls_action step))) steps"

definition advance ::
  "PeerLifecycleSpec \<Rightarrow> LifecycleOperation \<Rightarrow> (nat \<Rightarrow> u64) \<Rightarrow> nat \<Rightarrow> LifecycleStep list \<Rightarrow> Progress \<Rightarrow> Progress" where
  "advance spec operation clock k steps p =
    (let evs = completed_events spec operation clock k steps in
     p\<lparr>pg_reports := pg_reports p @ map le_report evs, pg_events := pg_events p @ evs,
       pg_statuses := pg_statuses p @ completed_statuses steps, pg_sink := pg_sink p @ evs\<rparr>)"

lemma advance_Nil [simp]: "advance spec operation clock k [] p = p"
  by (simp add: advance_def completed_events_def completed_statuses_def)

lemma advance_Cons:
  "advance spec operation clock (Suc k) steps
     (complete_step operation step (phase_report_for_operation (clock k) spec operation (ls_phase step)) p) =
   advance spec operation clock k (step # steps) p"
  by (simp add: advance_def completed_events_def completed_statuses_def complete_step_def push_report_def
      emit_event_def push_status_def Let_def)

lemma run_steps_ok:
  assumes "step_ok ex step s"
  shows "run_steps ex spec operation clock k (step # steps) s p =
    run_steps ex spec operation clock (Suc k) steps (snd (execute_action ex (ls_action step) s))
      (complete_step operation step (phase_report_for_operation (clock k) spec operation (ls_phase step)) p)"
  using assms
  by (cases "execute_action ex (ls_action step) s")
    (auto simp: step_ok_def split: sum.splits LifecycleActionResult.splits)

lemma run_steps_bad:
  assumes "\<not> step_ok ex step s"
  shows "\<exists>f err. lf_phase f = ls_phase step \<and> lf_action f = action_label (ls_action step) \<and>
    lf_blocker f = phase_str (ls_phase step) @ ''_failed'' \<and>
    run_steps ex spec operation clock k (step # steps) s p =
      (Inl err, snd (execute_action ex (ls_action step) s),
       fail_step operation step f (phase_report_for_operation (clock k) spec operation (ls_phase step)) p)"
proof (cases "execute_action ex (ls_action step) s")
  case (Pair r s')
  show ?thesis
  proof (cases r)
    case (Inl e)
    let ?f = "failure_from_error (ls_phase step) (action_label (ls_action step)) e"
    show ?thesis
      by (rule exI [of _ ?f]) (simp add: Pair Inl failure_from_error_def Let_def)
  next
    case (Inr x)
    with assms Pair obtain out where out: "x = CommandOutput out" "exit_status out \<noteq> 0"
      by (cases x) (auto simp: step_ok_def)
    let ?f = "failure_from_command (ls_phase step) (action_label (ls_action step)) out"
    show ?thesis
      by (rule exI [of _ ?f]) (simp add: Pair Inr out failure_from_command_def Let_def)
  qed
qed

lemma run_steps_prefix:
  "all_ok ex pre s \<Longrightarrow>
   run_steps ex spec operation clock k (pre @ post) s p =
   run_steps ex spec operation clock (k + length pre) post (after_steps ex pre s) (advance spec operation clock k pre p)"
proof (induction pre arbitrary: k s p)
  case (Cons a pre)
  then show ?case by (simp add: run_steps_ok advance_Cons del: run_steps.simps)
qed simp

text \<open>The events of a run up to its last one.\<close>

definition progress_events ::
  "PeerLifecycleSpec \<Rightarrow> LifecycleOperation \<Rightarrow> (nat \<Rightarrow> u64) \<Rightarrow> LifecycleStep list \<Rightarrow> LifecycleEvent list" where
  "progress_events spec operation clock steps =
    \<lparr>le_operation = operation, le_report = phase_report_for_operation (clock 0) spec operation Prepare,
     le_message = ''preparing lifecycle operation''\<rparr> # completed_events spec operation clock 1 steps"

definition success_event :: "PeerLifecycleSpec \<Rightarrow> LifecycleOperation \<Rightarrow> u64 \<Rightarrow> LifecycleEvent" where
  "success_event spec operation now =
    \<lparr>le_operation = operation, le_report = phase_report_for_operation now spec operation HealthyPhase,
     le_message = ''lifecycle operation completed''\<rparr>"

lemma run_plan_succeeds:
  assumes "all_ok ex (lp_steps plan) s"
  shows "run_lifecycle_plan ex spec plan clock sink s =
    (let evs = progress_events spec (lp_operation plan) clock (lp_steps plan) @
           [success_event spec (lp_operation plan) (clock (Suc (length (lp_steps plan))))];
         report = phase_report_for_operation (clock (Suc (length (lp_steps plan)))) spec (lp_operation plan) HealthyPhase
     in (Inr \<lparr>wr_operation = lp_operation plan, wr_report = report, wr_phase_reports = map le_report evs, wr_events = evs,
          wr_step_statuses = completed_statuses (lp_steps plan), wr_redacted_report = report_redacted_value report\<rparr>,
        after_steps ex (lp_steps plan) s, sink @ evs))"
  using run_steps_prefix [OF assms, of spec "lp_operation plan" clock 1 "[]"]
  by (simp add: run_lifecycle_plan_def Let_def advance_def progress_events_def success_event_def push_report_def emit_event_def)

lemma run_plan_fails:
  assumes "lp_steps plan = pre @ step # post" "all_ok ex pre s" "\<not> step_ok ex step (after_steps ex pre s)"
  shows "\<exists>err e. run_lifecycle_plan ex spec plan clock sink s =
      (Inl err, after_steps ex (pre @ [step]) s, sink @ progress_events spec (lp_operation plan) clock pre @ [e]) \<and>
    le_operation e = lp_operation plan \<and> lr_phase (le_report e) = FailedPhase \<and>
    lr_blocker (le_report e) = Some (phase_str (ls_phase step) @ ''_failed'') \<and>
    le_message e = ''lifecycle phase failed action '' @ action_label (ls_action step) @ '' failed''"
proof -
  let ?op = "lp_operation plan"
  let ?p = "advance spec ?op clock 1 pre
    (push_report (phase_report_for_operation (clock 0) spec ?op Prepare)
      (emit_event \<lparr>le_operation = ?op, le_report = phase_report_for_operation (clock 0) spec ?op Prepare,
         le_message = ''preparing lifecycle operation''\<rparr> \<lparr>pg_reports = [], pg_events = [], pg_statuses = [], pg_sink = sink\<rparr>))"
  let ?r = "phase_report_for_operation (clock (1 + length pre)) spec ?op (ls_phase step)"
  obtain f err where f: "lf_blocker f = phase_str (ls_phase step) @ ''_failed''"
    and run: "run_steps ex spec ?op clock (1 + length pre) (step # post) (after_steps ex pre s) ?p =
      (Inl err, snd (execute_action ex (ls_action step) (after_steps ex pre s)), fail_step ?op step f ?r ?p)"
    using run_steps_bad [OF assms(3), of spec ?op clock "1 + length pre" post ?p] by blast
  have "run_lifecycle_plan ex spec plan clock sink s =
    (Inl err, after_steps ex (pre @ [step]) s, pg_sink (fail_step ?op step f ?r ?p))"
    using run by (simp add: run_lifecycle_plan_def Let_def assms(1) run_steps_prefix [OF assms(2)] after_steps_def
        del: run_steps.simps)
  moreover have "pg_sink (fail_step ?op step f ?r ?p) =
    sink @ progress_events spec ?op clock pre @ [failure_event ?op (ls_action step) (apply_failure_to_report f ?r)]"
    by (simp add: fail_step_def Let_def push_status_def push_report_def emit_event_def advance_def progress_events_def)
  ultimately show ?thesis
    by (intro exI [of _ err] exI [of _ "failure_event ?op (ls_action step) (apply_failure_to_report f ?r)"])
      (simp add: failure_event_def apply_failure_to_report_def f)
qed

text \<open>
  C6. Whatever the executor does, a run reports success exactly when every step succeeded in the state its
  predecessors left, and then the sink has received the preparation, one completion per step in the order of the
  plan, and the final event, all of which the result repeats.  Otherwise there is a first failing step: nothing after
  it touches the machine, the sink has the completions of the steps before it and one failure event whose blocker
  names the phase of that step, and the caller gets an error.
\<close>

theorem lifecycle_run_stops_at_first_failure:
  "case run_lifecycle_plan ex spec plan clock sink s of
     (Inr w, s', out) \<Rightarrow>
       all_ok ex (lp_steps plan) s \<and> s' = after_steps ex (lp_steps plan) s \<and> out = sink @ wr_events w \<and>
       wr_events w = progress_events spec (lp_operation plan) clock (lp_steps plan) @
         [success_event spec (lp_operation plan) (clock (Suc (length (lp_steps plan))))] \<and>
       wr_phase_reports w = map le_report (wr_events w) \<and> wr_step_statuses w = completed_statuses (lp_steps plan) \<and>
       wr_redacted_report w = redact_value (lifecycle_report_json (wr_report w))
   | (Inl err, s', out) \<Rightarrow>
       \<exists>pre step post e. lp_steps plan = pre @ step # post \<and> all_ok ex pre s \<and>
         \<not> step_ok ex step (after_steps ex pre s) \<and> s' = after_steps ex (pre @ [step]) s \<and>
         out = sink @ progress_events spec (lp_operation plan) clock pre @ [e] \<and>
         lr_phase (le_report e) = FailedPhase \<and>
         lr_blocker (le_report e) = Some (phase_str (ls_phase step) @ ''_failed'')"
  using first_failure [of ex "lp_steps plan" s]
proof
  assume "all_ok ex (lp_steps plan) s"
  then show ?thesis by (simp add: run_plan_succeeds Let_def report_redacted_value_def)
next
  assume "\<exists>pre step post. lp_steps plan = pre @ step # post \<and> all_ok ex pre s \<and> \<not> step_ok ex step (after_steps ex pre s)"
  then obtain pre step post where *: "lp_steps plan = pre @ step # post" "all_ok ex pre s" "\<not> step_ok ex step (after_steps ex pre s)"
    by blast
  then obtain err e where "run_lifecycle_plan ex spec plan clock sink s =
      (Inl err, after_steps ex (pre @ [step]) s, sink @ progress_events spec (lp_operation plan) clock pre @ [e])"
    "lr_phase (le_report e) = FailedPhase" "lr_blocker (le_report e) = Some (phase_str (ls_phase step) @ ''_failed'')"
    using run_plan_fails [OF *, of spec clock sink] by blast
  with * show ?thesis by auto
qed

text \<open>The property name alone makes the status of a failed unit count as healthy.\<close>

lemma failed_unit_counts_as_healthy: "ps_healthy (classify_provider_status 0 ''ActiveState=failed'' [])"
proof -
  have "str_contains (to_ascii_lowercase (''ActiveState=failed'' @ [CHR 0x0A] @ [])) ''active''" by code_simp
  then show ?thesis by (simp add: classify_provider_status_def Let_def)
qed

lemma manager_name_round_trip: "from_manager_name (manager_name k) = Some k"
  by (cases k) (simp_all add: from_manager_name_def)

end
