(* ===== verification/Remote_Service.thy ===== *)
theory Remote_Service
  imports Lifecycle
begin

text \<open>
  The commands that install the node daemon as a service of a remote host
  (\<^verbatim>\<open>ssh-proxy-lifecycle/src/service_provider/remote.rs\<close>), and how a POSIX shell reads them: the words of the daemon's
  command line and the here-documents that carry its files.
\<close>

section \<open>Quoting\<close>

abbreviation nl :: string where "nl \<equiv> [CHR 0x0A]"
abbreviation dq :: string where "dq \<equiv> [CHR 0x22]"
abbreviation sq :: string where "sq \<equiv> [CHR 0x27]"
abbreviation bs :: string where "bs \<equiv> [CHR 0x5C]"

definition str_replace :: "char \<Rightarrow> string \<Rightarrow> string \<Rightarrow> string" where
  "str_replace c r s = concat (map (\<lambda>x. if x = c then r else [x]) s)"

definition sh_quote :: "string \<Rightarrow> string" where
  "sh_quote v = sq @ str_replace (CHR 0x27) (sq @ bs @ sq @ sq) v @ sq"

definition xml_escape :: "string \<Rightarrow> string" where
  "xml_escape v =
    str_replace (CHR 0x22) ''&quot;'' (str_replace (CHR ''>'') ''&gt;''
      (str_replace (CHR ''<'') ''&lt;'' (str_replace (CHR ''&'') ''&amp;'' v)))"

definition windows_cmd_quote :: "string \<Rightarrow> string" where
  "windows_cmd_quote v = dq @ str_replace (CHR 0x22) (bs @ dq) v @ dq"

section \<open>The service of a remote peer\<close>

record RemotePeerServiceSpec =
  rps_path :: string
  rps_platform :: RemotePlatform
  rps_persistence :: PersistenceMode
  rps_token :: "string option"
  rps_tcp :: SocketAddr
  rps_control :: SocketAddr
  rps_tls_transport :: "SocketAddr option"
  rps_quic_transport :: "SocketAddr option"
  rps_tls_cert :: "string option"
  rps_tls_key :: "string option"
  rps_tls_client_ca :: "string option"

definition service_spec_from_intent :: "string \<Rightarrow> RemoteInstallIntent \<Rightarrow> RemotePeerServiceSpec" where
  "service_spec_from_intent remote_path intent =
    \<lparr>rps_path = remote_path, rps_platform = ii_remote_platform intent, rps_persistence = ii_persistence intent,
     rps_token = ii_remote_token intent, rps_tcp = ii_remote_tcp intent, rps_control = ii_remote_control intent,
     rps_tls_transport = ii_remote_tls_transport intent, rps_quic_transport = ii_remote_quic_transport intent,
     rps_tls_cert = ii_remote_tls_cert intent, rps_tls_key = ii_remote_tls_key intent,
     rps_tls_client_ca = ii_remote_tls_client_ca intent\<rparr>"

definition provider_kind :: "RemotePeerServiceSpec \<Rightarrow> ServiceProviderKind" where
  "provider_kind spec = provider_for_platform (rps_platform spec) (rps_persistence spec)"

definition opt_arg :: "string \<Rightarrow> ('a \<Rightarrow> string) \<Rightarrow> 'a option \<Rightarrow> string" where
  "opt_arg flag f x = (case x of None \<Rightarrow> [] | Some v \<Rightarrow> '' '' @ flag @ '' '' @ f v)"

definition token_arg :: "string option \<Rightarrow> string" where
  "token_arg token = opt_arg ''--token'' sh_quote token"

definition node_daemon_extra_args :: "RemotePeerServiceSpec \<Rightarrow> string" where
  "node_daemon_extra_args spec =
    opt_arg ''--tls-transport'' socket_show (rps_tls_transport spec)
    @ opt_arg ''--quic-transport'' socket_show (rps_quic_transport spec)
    @ opt_arg ''--tls-cert'' sh_quote (rps_tls_cert spec)
    @ opt_arg ''--tls-key'' sh_quote (rps_tls_key spec)
    @ opt_arg ''--tls-client-ca'' sh_quote (rps_tls_client_ca spec)"

definition windows_extra_args :: "RemotePeerServiceSpec \<Rightarrow> string" where
  "windows_extra_args spec =
    opt_arg ''--tls-transport'' socket_show (rps_tls_transport spec)
    @ opt_arg ''--quic-transport'' socket_show (rps_quic_transport spec)"

definition extra_args_to_plist :: "string \<Rightarrow> string" where
  "extra_args_to_plist extra =
    concat (map (\<lambda>part. ''<string>'' @ xml_escape (trim_matches (CHR 0x27) part) @ ''</string>'') (split_whitespace extra))"

definition token_arg_to_plist :: "string \<Rightarrow> string" where
  "token_arg_to_plist arg = (if arg = [] then [] else extra_args_to_plist arg)"

text \<open>A here-document whose delimiter is quoted.\<close>

definition heredoc_body :: "string list \<Rightarrow> string" where
  "heredoc_body lines = concat (map (\<lambda>l. l @ nl) lines)"

definition heredoc :: "string list \<Rightarrow> string" where
  "heredoc lines = ''<<'' @ sq @ ''EOF'' @ sq @ nl @ heredoc_body lines @ ''EOF'' @ nl"

section \<open>The commands\<close>

definition remote_nohup_files :: "SocketAddr \<Rightarrow> string \<times> string \<times> string \<times> string" where
  "remote_nohup_files tcp =
    (let port = show_nat (unat (sa_port tcp)) in
     (''$HOME/.ssh_proxy/run/helper-'' @ port @ ''.pid'', ''$HOME/.ssh_proxy/run/helper-'' @ port @ ''.child.pid'',
      ''$HOME/.ssh_proxy/log/helper-'' @ port @ ''.log'', ''$HOME/.ssh_proxy/run/helper-'' @ port @ ''.supervisor.sh''))"

definition remote_nohup_status_snippet :: "SocketAddr \<Rightarrow> string" where
  "remote_nohup_status_snippet tcp =
    (case remote_nohup_files tcp of (pidfile, childfile, logfile, scriptfile) \<Rightarrow>
     ''pidfile='' @ pidfile @ ''; childfile='' @ childfile @ ''; logfile='' @ logfile @ ''; scriptfile=''
     @ scriptfile @ ''; if [ -f '' @ dq @ ''$pidfile'' @ dq @ '' ]; then pid=$(cat '' @ dq @ ''$pidfile'' @ dq
     @ '' 2>/dev/null || true); if [ -n '' @ dq @ ''$pid'' @ dq @ '' ] && kill -0 '' @ dq @ ''$pid'' @ dq
     @ '' 2>/dev/null; then echo '' @ dq @ ''supervisor running pid=$pid'' @ dq @ ''; else echo '' @ dq
     @ ''stale supervisor pidfile pid=$pid'' @ dq @ ''; fi; else echo '' @ dq @ ''not installed'' @ dq
     @ ''; fi; if [ -f '' @ dq @ ''$childfile'' @ dq @ '' ]; then child=$(cat '' @ dq @ ''$childfile'' @ dq
     @ '' 2>/dev/null || true); if [ -n '' @ dq @ ''$child'' @ dq @ '' ] && kill -0 '' @ dq @ ''$child'' @ dq
     @ '' 2>/dev/null; then echo '' @ dq @ ''helper running pid=$child'' @ dq @ ''; else echo '' @ dq
     @ ''stale helper child pid=$child'' @ dq @ ''; fi; fi; if [ -f '' @ dq @ ''$logfile'' @ dq @ '' ]; then echo ''
     @ dq @ ''log=$logfile'' @ dq @ ''; tail -n 20 '' @ dq @ ''$logfile'' @ dq @ '' 2>/dev/null || true; fi'')"

definition remote_nohup_stop_snippet :: "SocketAddr \<Rightarrow> string" where
  "remote_nohup_stop_snippet tcp =
    (case remote_nohup_files tcp of (pidfile, childfile, _, _) \<Rightarrow>
     ''pidfile='' @ pidfile @ ''; childfile='' @ childfile @ ''; for f in '' @ dq @ ''$childfile'' @ dq @ '' '' @ dq
     @ ''$pidfile'' @ dq @ ''; do if [ -f '' @ dq @ ''$f'' @ dq @ '' ]; then pid=$(cat '' @ dq @ ''$f'' @ dq
     @ '' 2>/dev/null || true); if [ -n '' @ dq @ ''$pid'' @ dq @ '' ] && kill -0 '' @ dq @ ''$pid'' @ dq
     @ '' 2>/dev/null; then kill '' @ dq @ ''$pid'' @ dq @ '' 2>/dev/null || true; for i in 1 2 3 4 5; do kill -0 ''
     @ dq @ ''$pid'' @ dq @ '' 2>/dev/null || break; sleep 1; done; kill -9 '' @ dq @ ''$pid'' @ dq
     @ '' 2>/dev/null || true; fi; rm -f '' @ dq @ ''$f'' @ dq @ ''; fi; done'')"

definition daemon_command :: "RemotePeerServiceSpec \<Rightarrow> string" where
  "daemon_command spec =
    sh_quote (rps_path spec) @ '' node daemon --transport '' @ socket_show (rps_tcp spec)
      @ '' --control tcp://'' @ socket_show (rps_control spec) @ token_arg (rps_token spec)
      @ node_daemon_extra_args spec"

definition systemd_unit :: "RemotePeerServiceSpec \<Rightarrow> string list" where
  "systemd_unit spec =
    [''[Unit]'',
     ''Description=ssh_proxy node daemon'',
     ''After=network-online.target'',
     ''Wants=network-online.target'',
     ''StartLimitIntervalSec=0'',
     ''[Service]'',
     ''ExecStart='' @ daemon_command spec,
     ''Restart=always'',
     ''RestartSec=3'',
     ''KillSignal=SIGINT'',
     ''[Install]'',
     ''WantedBy=default.target'']"

definition remote_systemd_install_command :: "RemotePeerServiceSpec \<Rightarrow> string" where
  "remote_systemd_install_command spec =
     ''set -eu; systemctl --user show-environment >/dev/null; if command -v loginctl >/dev/null 2>&1; then loginctl enable-linger ''
     @ dq @ ''$(id -un)'' @ dq
     @ '' >/dev/null 2>&1 || true; fi; mkdir -p ~/.config/systemd/user; cat > ~/.config/systemd/user/ssh-proxy-helper.service '' @ heredoc (systemd_unit spec)
     @ ''systemctl --user daemon-reload && systemctl --user enable ssh-proxy-helper.service && systemctl --user restart ssh-proxy-helper.service''"

definition launchd_plist :: string where
  "launchd_plist = ''$HOME/Library/LaunchAgents/com.ssh-proxy.helper.plist''"

definition launchd_lines :: "RemotePeerServiceSpec \<Rightarrow> string list" where
  "launchd_lines spec =
    [''<?xml version='' @ dq @ ''1.0'' @ dq @ '' encoding='' @ dq @ ''UTF-8'' @ dq @ ''?>'',
     ''<!DOCTYPE plist PUBLIC '' @ dq @ ''-//Apple//DTD PLIST 1.0//EN'' @ dq @ '' '' @ dq
       @ ''http://www.apple.com/DTDs/PropertyList-1.0.dtd'' @ dq @ ''>'',
     ''<plist version='' @ dq @ ''1.0'' @ dq @ ''><dict>'',
     ''<key>Label</key><string>com.ssh-proxy.helper</string>'',
     ''<key>ProgramArguments</key><array><string>'' @ xml_escape (rps_path spec)
       @ ''</string><string>node</string><string>daemon</string><string>--transport</string><string>''
       @ socket_show (rps_tcp spec) @ ''</string><string>--control</string><string>tcp://''
       @ socket_show (rps_control spec) @ ''</string>'' @ token_arg_to_plist (token_arg (rps_token spec))
       @ extra_args_to_plist (node_daemon_extra_args spec) @ ''</array>'',
     ''<key>RunAtLoad</key><true/>'',
     ''<key>KeepAlive</key><true/>'',
     ''<key>StandardOutPath</key><string>'' @ ''$HOME'' @ ''/.ssh_proxy/log/launchd.log</string>'',
     ''<key>StandardErrorPath</key><string>'' @ ''$HOME'' @ ''/.ssh_proxy/log/launchd.log</string>'',
     ''</dict></plist>'']"

definition remote_launchd_install_command :: "RemotePeerServiceSpec \<Rightarrow> string" where
  "remote_launchd_install_command spec =
     ''set -eu; mkdir -p '' @ dq @ ''$HOME/Library/LaunchAgents'' @ dq @ ''; cat > '' @ launchd_plist @ '' '' @ heredoc (launchd_lines spec)
     @ ''mkdir -p '' @ dq @ ''$HOME/.ssh_proxy/log'' @ dq @ ''; launchctl bootout gui/$(id -u) '' @ launchd_plist
     @ '' >/dev/null 2>&1 || true; launchctl bootstrap gui/$(id -u) '' @ launchd_plist
     @ ''; launchctl kickstart -k gui/$(id -u)/com.ssh-proxy.helper''"

definition supervisor_script :: "RemotePeerServiceSpec \<Rightarrow> string list" where
  "supervisor_script spec =
    (case remote_nohup_files (rps_tcp spec) of (pidfile, childfile, logfile, scriptfile) \<Rightarrow>
    [''#!/bin/sh'',
     ''set -u'',
     ''trap '' @ sq @ ''if [ -f '' @ childfile @ '' ]; then child=$(cat '' @ childfile
       @ '' 2>/dev/null || true); [ -n '' @ dq @ ''$child'' @ dq @ '' ] && kill '' @ dq @ ''$child'' @ dq
       @ '' 2>/dev/null || true; fi; exit 0'' @ sq @ '' INT TERM'',
     ''backoff=1'',
     ''while :; do'',
     ''  echo '' @ dq @ ''$(date -u +%Y-%m-%dT%H:%M:%SZ) starting ssh_proxy node daemon'' @ dq @ '' >>'' @ logfile,
     ''  '' @ daemon_command spec @ '' >>'' @ logfile @ '' 2>&1 &'',
     ''  child=$!'',
     ''  echo '' @ dq @ ''$child'' @ dq @ '' >'' @ childfile,
     ''  wait '' @ dq @ ''$child'' @ dq,
     ''  code=$?'',
     ''  echo '' @ dq
       @ ''$(date -u +%Y-%m-%dT%H:%M:%SZ) ssh_proxy node daemon exited status=$code; restarting in ${backoff}s'' @ dq
       @ '' >>'' @ logfile,
     ''  sleep '' @ dq @ ''$backoff'' @ dq,
     ''  if [ '' @ dq @ ''$backoff'' @ dq @ '' -lt 30 ]; then backoff=$((backoff * 2)); fi'',
     ''done''])"

definition nohup_prepare :: "RemotePeerServiceSpec \<Rightarrow> bool \<Rightarrow> string" where
  "nohup_prepare spec stop_existing =
    (let stop = (if stop_existing then remote_nohup_stop_snippet (rps_tcp spec) @ ''; '' else []) in
     case remote_nohup_files (rps_tcp spec) of (pidfile, childfile, logfile, scriptfile) \<Rightarrow>
     ''set -eu; mkdir -p '' @ dq @ ''$HOME/.ssh_proxy/run'' @ dq @ '' '' @ dq @ ''$HOME/.ssh_proxy/log'' @ dq
     @ ''; '' @ stop @ '' cat > '' @ scriptfile @ '' '')"

definition nohup_launch :: "RemotePeerServiceSpec \<Rightarrow> string" where
  "nohup_launch spec =
    (case remote_nohup_files (rps_tcp spec) of (pidfile, childfile, logfile, scriptfile) \<Rightarrow>
     ''chmod 700 '' @ scriptfile @ ''; nohup /bin/sh '' @ scriptfile @ '' >/dev/null 2>&1 < /dev/null & echo $! > ''
     @ pidfile @ ''; sleep 1; pid=$(cat '' @ pidfile @ ''); kill -0 '' @ dq @ ''$pid'' @ dq)"

definition remote_nohup_start_command :: "RemotePeerServiceSpec \<Rightarrow> bool \<Rightarrow> string" where
  "remote_nohup_start_command spec stop_existing =
    nohup_prepare spec stop_existing @ heredoc (supervisor_script spec) @ nohup_launch spec"

definition remote_auto_install_command :: "RemotePeerServiceSpec \<Rightarrow> string" where
  "remote_auto_install_command spec =
     ''set -eu; if [ '' @ dq @ ''$(uname -s 2>/dev/null || true)'' @ dq
     @ '' = Darwin ] && command -v launchctl >/dev/null 2>&1; then '' @ remote_launchd_install_command spec
     @ ''; elif command -v systemctl >/dev/null 2>&1 && systemctl --user show-environment >/dev/null 2>&1; then ''
     @ remote_systemd_install_command spec @ ''; else '' @ remote_nohup_start_command spec True @ ''; fi''"

definition remote_schtasks_install_command :: "RemotePeerServiceSpec \<Rightarrow> string" where
  "remote_schtasks_install_command spec =
    (let token = (case rps_token spec of Some t \<Rightarrow> '' --token '' @ windows_cmd_quote t | None \<Rightarrow> []);
         command = windows_cmd_quote (rps_path spec) @ '' node daemon --transport '' @ socket_show (rps_tcp spec) @ '' --control tcp://''
           @ socket_show (rps_control spec) @ token @ windows_extra_args spec
     in ''schtasks /Create /TN ssh_proxy_helper /SC ONLOGON /RL LIMITED /F /TR '' @ windows_cmd_quote command
     @ '' && schtasks /Run /TN ssh_proxy_helper'')"

definition remote_install_command :: "RemotePeerServiceSpec \<Rightarrow> string" where
  "remote_install_command spec =
    (case rps_persistence spec of
       NoPersistence \<Rightarrow> []
     | PersistenceMode.Auto \<Rightarrow>
         if rps_platform spec = Windows then remote_schtasks_install_command spec else remote_auto_install_command spec
     | Systemd \<Rightarrow> remote_systemd_install_command spec
     | Nohup \<Rightarrow> remote_nohup_start_command spec True
     | Launchd \<Rightarrow> remote_launchd_install_command spec
     | Schtasks \<Rightarrow> remote_schtasks_install_command spec)"

definition remote_write_peer_artifact_command :: "PeerArtifact \<Rightarrow> RemotePlatform \<Rightarrow> string" where
  "remote_write_peer_artifact_command artifact p =
    (let name = artifact_file_name artifact in
     if p = Windows then
       (let preserve = (if preserve_existing artifact
          then ''if (Test-Path -LiteralPath $p) { Remove-Item -LiteralPath $tmp -Force; exit 0 }; '' else []) in
     ''powershell -NoProfile -ExecutionPolicy Bypass -Command '' @ dq @ ''$ErrorActionPreference='' @ sq @ ''Stop''
     @ sq @ ''; $home=[Environment]::GetFolderPath('' @ sq @ ''UserProfile'' @ sq @ ''); $dir=Join-Path $home '' @ sq
     @ ''.ssh_proxy'' @ sq @ ''; New-Item -ItemType Directory -Force -Path $dir | Out-Null; $p=Join-Path $dir '' @ sq
     @ name @ sq @ ''; $tmp=Join-Path $dir ('' @ sq @ name @ ''.tmp.'' @ sq @ ''+[Guid]::NewGuid().ToString('' @ sq
     @ ''N'' @ sq @ '')); $fs=[IO.File]::Open($tmp,'' @ sq @ ''CreateNew'' @ sq @ '','' @ sq @ ''Write'' @ sq @ '',''
     @ sq @ ''None'' @ sq @ ''); [Console]::OpenStandardInput().CopyTo($fs); $fs.Close(); '' @ preserve
     @ ''Move-Item -LiteralPath $tmp -Destination $p -Force'' @ dq)
     else
       (let preserve = (if preserve_existing artifact then ''[ -f '' @ dq @ ''$p'' @ dq @ '' ] && { rm -f '' @ dq @ ''$tmp'' @ dq @ ''; exit 0; }; '' else []);
            backup = (if backup_existing artifact
              then ''if [ -f '' @ dq @ ''$p'' @ dq @ '' ]; then cp '' @ dq @ ''$p'' @ dq @ '' '' @ dq
     @ ''$HOME/.ssh_proxy/config.toml.bak'' @ dq @ '' 2>/dev/null || true; fi; ''
              else []) in
     ''set -eu; mkdir -p '' @ dq @ ''$HOME/.ssh_proxy'' @ dq @ ''; p='' @ dq @ ''$HOME/.ssh_proxy/'' @ name @ dq
     @ ''; tmp='' @ dq @ ''$p.tmp.$$'' @ dq @ ''; umask 077; cat > '' @ dq @ ''$tmp'' @ dq @ ''; '' @ preserve
     @ backup @ ''mv '' @ dq @ ''$tmp'' @ dq @ '' '' @ dq @ ''$p'' @ dq @ ''; chmod 600 '' @ dq @ ''$p'' @ dq
     @ '' 2>/dev/null || true''))"

section \<open>The plan\<close>

definition reported_service_manager :: "PersistenceMode \<Rightarrow> RemotePlatform \<Rightarrow> ServiceProviderKind \<Rightarrow> string" where
  "reported_service_manager persistence p k =
    (case persistence of
       NoPersistence \<Rightarrow> ''none''
     | PersistenceMode.Auto \<Rightarrow> if p = Windows then manager_name WindowsScheduledTaskUser else ''auto''
     | _ \<Rightarrow> manager_name k)"

text \<open>The text of a JSON value is \<^verbatim>\<open>serde_json\<close>'s and an argument; so is the time.\<close>

definition install_report_bytes :: "(json \<Rightarrow> byte list) \<Rightarrow> u64 \<Rightarrow> string \<Rightarrow> byte list" where
  "install_report_bytes print now service_manager =
    print (json_obj [(''schema'', JStr ''ssh_proxy_remote_install.v1''), (''state'', JStr ''healthy''),
      (''phase'', JStr ''start_service''), (''service_manager'', JStr service_manager), (''updated_at_unix'', json_u64 now)])"

definition health_report_bytes :: "(json \<Rightarrow> byte list) \<Rightarrow> u64 \<Rightarrow> string \<Rightarrow> byte list" where
  "health_report_bytes print now service_manager =
    print (json_obj [(''schema'', JStr ''ssh_proxy_peer_health.v1''), (''state'', JStr ''healthy''),
      (''service_manager'', JStr service_manager), (''updated_at_unix'', json_u64 now)])"

definition remote_scope :: "PersistenceMode \<Rightarrow> PeerLifecycleScope" where
  "remote_scope persistence = (case persistence of NoPersistence \<Rightarrow> ScopeNone | Nohup \<Rightarrow> ScopeManaged | _ \<Rightarrow> ScopeUser)"

record ProviderActionPlan =
  ap_provider :: ServiceProviderPlan
  ap_reported_service_manager :: string
  ap_command :: string
  ap_lifecycle_plan :: LifecyclePlan

definition remote_service_action_plan ::
  "(json \<Rightarrow> byte list) \<Rightarrow> u64 \<Rightarrow> u64 \<Rightarrow> RemotePeerServiceSpec \<Rightarrow> LifecycleOperation \<Rightarrow> ProviderActionPlan" where
  "remote_service_action_plan print now1 now2 spec operation =
    (let kind = provider_kind spec;
         provider = provider_plan_new kind ''ssh-proxy-helper'';
         command = remote_install_command spec;
         manager = reported_service_manager (rps_persistence spec) (rps_platform spec) kind;
         plan = lifecycle_plan
           \<lparr>pls_role = RemotePeer, pls_target = ''remote-peer'',
            pls_platform = platform_from_remote_install (rps_platform spec) (rps_persistence spec),
            pls_scope = remote_scope (rps_persistence spec), pls_provider = kind, pls_service_name = ''ssh-proxy-helper'',
            pls_binary_path = rps_path spec, pls_transport = Some (rps_tcp spec),
            pls_control_endpoint = Some (''tcp://'' @ socket_show (rps_control spec)), pls_token = rps_token spec,
            pls_state_dir = remote_state_dir (rps_platform spec), pls_rollback_policy = PreserveExisting\<rparr>
           operation (Some command);
         plan = (if operation = Install \<and> trim command \<noteq> [] then
             plan_push \<lparr>ls_phase = RecordPhase, ls_action = WriteArtifact
                 (remote_write_peer_artifact_command HealthFile (rps_platform spec)) HealthFile
                 (health_report_bytes print now2 manager)\<rparr>
              (plan_push \<lparr>ls_phase = RecordPhase, ls_action = WriteArtifact
                 (remote_write_peer_artifact_command InstallReport (rps_platform spec)) InstallReport
                 (install_report_bytes print now1 manager)\<rparr> plan)
           else plan)
     in \<lparr>ap_provider = provider, ap_reported_service_manager = manager, ap_command = command,
         ap_lifecycle_plan = plan\<rparr>)"

section \<open>How a shell reads the commands\<close>

text \<open>
  The shell of the remote host is not part of the program.  What the commands rely on are these rules of the POSIX shell
  language: \<open>words_of w s\<close> reads the rest \<open>s\<close> of a simple command up to its first operator, where \<open>w\<close> is the word begun
  so far, if any, and gives the words and what is left.  Blanks end a word; single quotes keep every character (2.2.2); a
  backslash keeps the next one unless that is a line break (2.2.1); letters, digits and a few more characters
  stand for themselves (2.3); an operator between words ends the reading.  \<open>here_of s\<close> reads a here-document with the quoted
  delimiter \<^verbatim>\<open>EOF\<close> (2.7.4): its lines unchanged, up to the line that is the delimiter.
\<close>

definition begun :: "string option \<Rightarrow> string list" where
  "begun w = (case w of None \<Rightarrow> [] | Some v \<Rightarrow> [v])"

lemma begun_simps [simp]: "begun None = []" "begun (Some v) = [v]"
  by (simp_all add: begun_def)

definition sh_operator :: "char \<Rightarrow> bool" where
  "sh_operator c \<longleftrightarrow> c \<in> set (''&|;<>()'' @ nl)"

definition sh_ordinary :: "char \<Rightarrow> bool" where
  "sh_ordinary c \<longleftrightarrow>
    c \<in> set ''abcdefghijklmnopqrstuvwxyzABCDEFGHIJKLMNOPQRSTUVWXYZ0123456789-_./:''"

locale posix_shell =
  fixes words_of :: "string option \<Rightarrow> string \<Rightarrow> (string list \<times> string) option"
    and here_of :: "string \<Rightarrow> (string \<times> string) option"
  assumes lex_blank: "words_of w (CHR '' '' # s) = map_option (\<lambda>(ws, r). (begun w @ ws, r)) (words_of None s)"
    and lex_quotes: "CHR 0x27 \<notin> set v \<Longrightarrow> words_of w (CHR 0x27 # v @ CHR 0x27 # s) = words_of (Some (concat (begun w) @ v)) s"
    and lex_backslash: "c \<noteq> CHR 0x0A \<Longrightarrow> words_of w (CHR 0x5C # c # s) = words_of (Some (concat (begun w) @ [c])) s"
    and lex_ordinary: "sh_ordinary c \<Longrightarrow> words_of w (c # s) = words_of (Some (concat (begun w) @ [c])) s"
    and lex_operator: "sh_operator c \<Longrightarrow> words_of None (c # s) = Some ([], c # s)"
    and here_line: "CHR 0x0A \<notin> set l \<Longrightarrow> l \<noteq> ''EOF'' \<Longrightarrow>
      here_of (l @ CHR 0x0A # s) = map_option (\<lambda>(body, rest). (l @ CHR 0x0A # body, rest)) (here_of s)"
    and here_end: "here_of (''EOF'' @ CHR 0x0A # s) = Some ([], s)"

definition v4_addr :: "SocketAddr \<Rightarrow> bool" where
  "v4_addr a \<longleftrightarrow> (case sa_ip a of V4 _ \<Rightarrow> True | V6 _ \<Rightarrow> False)"

lemma set_str_join: "set (str_join sep ws) \<subseteq> set sep \<union> (\<Union>w\<in>set ws. set w)"
  by (auto simp: str_join_def split: list.splits)

lemma v4_chars:
  assumes "v4_addr a" "c \<in> set (socket_show a)"
  shows "c \<in> set ''.:'' \<or> (\<exists>d<10. c = digit_char d)"
proof -
  obtain octets where "sa_ip a = V4 octets"
    using assms(1) by (auto simp: v4_addr_def split: ip_addr.splits)
  then have "c \<in> set ''.'' \<or> (\<exists>n. c \<in> set (show_nat n)) \<or> c = CHR '':''"
    using assms(2) set_str_join [of "''.''" "map (\<lambda>b. show_nat (unat b)) octets"]
    by (auto simp: socket_show_def display_v4_def)
  then show ?thesis using show_nat_digits by auto
qed

lemma digit_ordinary: "d < 10 \<Longrightarrow> sh_ordinary (digit_char d)"
proof -
  have "list_all (\<lambda>d. sh_ordinary (digit_char d)) [0..<10]" by code_simp
  then show "d < 10 \<Longrightarrow> sh_ordinary (digit_char d)" by (simp add: list_all_iff)
qed

lemma v4_ordinary: "v4_addr a \<Longrightarrow> \<forall>c\<in>set (socket_show a). sh_ordinary c"
proof
  fix c
  assume "v4_addr a" "c \<in> set (socket_show a)"
  then consider "c = CHR ''.''" | "c = CHR '':''" | d where "d < 10" "c = digit_char d"
    using v4_chars [of a c] by auto
  then show "sh_ordinary c"
    by cases (simp_all add: digit_ordinary, simp_all add: sh_ordinary_def)
qed

lemma socket_show_nonempty [simp]: "socket_show a \<noteq> []"
  by (simp add: socket_show_def)

definition opt_words :: "string \<Rightarrow> ('a \<Rightarrow> string) \<Rightarrow> 'a option \<Rightarrow> string list" where
  "opt_words flag f x = (case x of None \<Rightarrow> [] | Some v \<Rightarrow> [flag, f v])"

definition v4_service :: "RemotePeerServiceSpec \<Rightarrow> bool" where
  "v4_service spec \<longleftrightarrow> v4_addr (rps_tcp spec) \<and> v4_addr (rps_control spec) \<and>
    (\<forall>a\<in>set_option (rps_tls_transport spec) \<union> set_option (rps_quic_transport spec). v4_addr a)"

definition daemon_argv :: "RemotePeerServiceSpec \<Rightarrow> string list" where
  "daemon_argv spec =
    [rps_path spec, ''node'', ''daemon'', ''--transport'', socket_show (rps_tcp spec), ''--control'',
     ''tcp://'' @ socket_show (rps_control spec)]
    @ opt_words ''--token'' (\<lambda>v. v) (rps_token spec)
    @ opt_words ''--tls-transport'' socket_show (rps_tls_transport spec)
    @ opt_words ''--quic-transport'' socket_show (rps_quic_transport spec)
    @ opt_words ''--tls-cert'' (\<lambda>v. v) (rps_tls_cert spec)
    @ opt_words ''--tls-key'' (\<lambda>v. v) (rps_tls_key spec)
    @ opt_words ''--tls-client-ca'' (\<lambda>v. v) (rps_tls_client_ca spec)"

lemma flags_ordinary:
  "\<forall>c\<in>set ''--token''. sh_ordinary c" "\<forall>c\<in>set ''--tls-transport''. sh_ordinary c"
  "\<forall>c\<in>set ''--quic-transport''. sh_ordinary c" "\<forall>c\<in>set ''--tls-cert''. sh_ordinary c"
  "\<forall>c\<in>set ''--tls-key''. sh_ordinary c" "\<forall>c\<in>set ''--tls-client-ca''. sh_ordinary c"
  by code_simp+

lemma fixed_words_ordinary:
  "\<forall>c\<in>set ''node''. sh_ordinary c" "\<forall>c\<in>set ''daemon''. sh_ordinary c" "\<forall>c\<in>set ''--transport''. sh_ordinary c"
  "\<forall>c\<in>set ''--control''. sh_ordinary c" "\<forall>c\<in>set ''tcp://''. sh_ordinary c"
  by code_simp+

section \<open>What such a shell makes of the quoting\<close>

context posix_shell
begin

lemma lex_quoted_part:
  "CHR 0x27 \<notin> set u \<Longrightarrow>
    words_of w (CHR 0x27 # u @ str_replace (CHR 0x27) (sq @ bs @ sq @ sq) v @ CHR 0x27 # s) =
    words_of (Some (concat (begun w) @ u @ v)) s"
proof (induction v arbitrary: u w)
  case Nil
  then show ?case by (simp add: str_replace_def lex_quotes)
next
  case (Cons c v)
  show ?case
  proof (cases "c = CHR 0x27")
    case True
    have "words_of w (CHR 0x27 # u @ CHR 0x27 # CHR 0x5C # CHR 0x27 # CHR 0x27 # str_replace (CHR 0x27) (sq @ bs @ sq @ sq) v @ CHR 0x27 # s)
        = words_of (Some (concat (begun w) @ u @ [c])) (CHR 0x27 # str_replace (CHR 0x27) (sq @ bs @ sq @ sq) v @ CHR 0x27 # s)"
      using True Cons.prems by (simp add: lex_quotes lex_backslash)
    also have "\<dots> = words_of (Some (concat (begun w) @ u @ c # v)) s"
      using Cons.IH [of "[]" "Some (concat (begun w) @ u @ [c])"] by simp
    finally show ?thesis using True by (simp add: str_replace_def)
  next
    case False
    then show ?thesis
      using Cons.IH [of "u @ [c]" w] Cons.prems by (simp add: str_replace_def)
  qed
qed

lemma lex_sh_quote: "words_of None (sh_quote v @ s) = words_of (Some v) s"
  using lex_quoted_part [of "[]" None v s] by (simp add: sh_quote_def)

lemma lex_word_in: "\<forall>c\<in>set p. sh_ordinary c \<Longrightarrow> words_of (Some w) (p @ s) = words_of (Some (w @ p)) s"
  by (induction p arbitrary: w) (simp_all add: lex_ordinary)

lemma lex_word:
  assumes "p \<noteq> []" "\<forall>c\<in>set p. sh_ordinary c"
  shows "words_of None (p @ s) = words_of (Some p) s"
  using assms lex_word_in [of "tl p" "[hd p]" s] by (cases p) (simp_all add: lex_ordinary)

text \<open>What follows a word: further words \<open>ws\<close> and the rest \<open>r\<close> of the line.\<close>

definition tail_words :: "string \<Rightarrow> string list \<Rightarrow> string \<Rightarrow> bool" where
  "tail_words s ws r \<longleftrightarrow> (\<forall>w. words_of (Some w) s = Some (w # ws, r))"

lemma tail_words_next:
  assumes "tail_words s ws r" "words_of None (t @ s) = words_of (Some v) s"
  shows "tail_words (CHR '' '' # t @ s) (v # ws) r"
  using assms by (simp add: tail_words_def lex_blank)

lemma tail_words_flag:
  assumes "flag \<noteq> []" "\<forall>c\<in>set flag. sh_ordinary c" "tail_words s ws r"
    and "\<And>v. x = Some v \<Longrightarrow> words_of None (f v @ s) = words_of (Some (g v)) s"
  shows "tail_words (opt_arg flag f x @ s) (opt_words flag g x @ ws) r"
proof (cases x)
  case (Some v)
  have "tail_words (CHR '' '' # f v @ s) (g v # ws) r"
    using tail_words_next assms(3,4) Some by simp
  then have "tail_words (CHR '' '' # flag @ CHR '' '' # f v @ s) (flag # g v # ws) r"
    using tail_words_next lex_word assms(1,2) by simp
  then show ?thesis by (simp add: Some opt_arg_def opt_words_def)
qed (use assms(3) in \<open>simp add: opt_arg_def opt_words_def\<close>)

lemma tail_words_quoted:
  assumes "flag \<noteq> []" "\<forall>c\<in>set flag. sh_ordinary c" "tail_words s ws r"
  shows "tail_words (opt_arg flag sh_quote x @ s) (opt_words flag (\<lambda>v. v) x @ ws) r"
  using tail_words_flag [OF assms, of x sh_quote "\<lambda>v. v"] lex_sh_quote by simp

lemma tail_words_addr:
  assumes "flag \<noteq> []" "\<forall>c\<in>set flag. sh_ordinary c" "tail_words s ws r" "\<forall>a\<in>set_option x. v4_addr a"
  shows "tail_words (opt_arg flag socket_show x @ s) (opt_words flag socket_show x @ ws) r"
  using tail_words_flag [OF assms(1-3), of x socket_show socket_show] assms(4)
    lex_word [OF socket_show_nonempty v4_ordinary] by simp

lemma daemon_command_words:
  assumes v4: "v4_service spec" and tail: "tail_words s [] r"
  shows "words_of None (daemon_command spec @ s) = Some (daemon_argv spec, r)"
proof -
  have addrs: "v4_addr (rps_tcp spec)" "v4_addr (rps_control spec)" "\<forall>a\<in>set_option (rps_tls_transport spec). v4_addr a"
    "\<forall>a\<in>set_option (rps_quic_transport spec). v4_addr a"
    using v4 by (auto simp: v4_service_def)
  let ?args = "drop 7 (daemon_argv spec)" and ?opts = "token_arg (rps_token spec) @ node_daemon_extra_args spec @ s"
  have opts: "tail_words ?opts ?args r"
    using tail_words_quoted [OF _ flags_ordinary(1) tail_words_addr [OF _ flags_ordinary(2) tail_words_addr [OF _ flags_ordinary(3)
        tail_words_quoted [OF _ flags_ordinary(4) tail_words_quoted [OF _ flags_ordinary(5)
        tail_words_quoted [OF _ flags_ordinary(6) tail]]] addrs(4)] addrs(3)]]
    by (simp add: token_arg_def node_daemon_extra_args_def daemon_argv_def)
  have control: "words_of None ((''tcp://'' @ socket_show (rps_control spec)) @ ?opts) = words_of (Some (''tcp://'' @ socket_show (rps_control spec))) ?opts"
    using lex_word [of "''tcp://'' @ socket_show (rps_control spec)"] fixed_words_ordinary(5) v4_ordinary [OF addrs(2)]
    by auto
  note words = lex_word [OF _ fixed_words_ordinary(1)] lex_word [OF _ fixed_words_ordinary(2)]
    lex_word [OF _ fixed_words_ordinary(3)] lex_word [OF _ fixed_words_ordinary(4)]
    lex_word [OF socket_show_nonempty v4_ordinary [OF addrs(1)]]
  have "tail_words (CHR '' '' # ''node'' @ CHR '' '' # ''daemon'' @ CHR '' '' # ''--transport'' @ CHR '' '' # socket_show (rps_tcp spec)
      @ CHR '' '' # ''--control'' @ CHR '' '' # (''tcp://'' @ socket_show (rps_control spec)) @ ?opts) (tl (daemon_argv spec)) r"
    using tail_words_next [OF tail_words_next [OF tail_words_next [OF tail_words_next [OF tail_words_next [OF
        tail_words_next [OF opts control] words(4)] words(5)] words(3)] words(2)] words(1)]
    by (simp add: daemon_argv_def)
  then show ?thesis
    by (simp add: daemon_command_def lex_sh_quote tail_words_def daemon_argv_def)
qed

lemma here_body:
  assumes "\<forall>l\<in>set ls. CHR 0x0A \<notin> set l \<and> l \<noteq> ''EOF''"
  shows "here_of (heredoc_body ls @ ''EOF'' @ nl @ s) = Some (heredoc_body ls, s)"
  using assms
proof (induction ls)
  case Nil
  show ?case using here_end [of s] by (simp add: heredoc_body_def)
next
  case (Cons l ls)
  then show ?case by (simp add: heredoc_body_def here_line)
qed

lemma supervisor_launch_line:
  assumes "v4_service spec" "remote_nohup_files (rps_tcp spec) = (p, c, l, s)"
  shows "words_of None (supervisor_script spec ! 6) = Some (daemon_argv spec, ''>>'' @ l @ '' 2>&1 &'')"
  using daemon_command_words [OF assms(1), of "'' >>'' @ l @ '' 2>&1 &''" "''>>'' @ l @ '' 2>&1 &''"]
  by (simp add: supervisor_script_def assms(2) tail_words_def lex_blank lex_operator sh_operator_def)

end

section \<open>A reader that follows the rules\<close>

text \<open>
  The rules can be met: this reader follows them, and gives up with \<^const>\<open>None\<close> at a character that would start an
  expansion, a pattern, a comment or an assignment.
\<close>

datatype sh_mode = Between | InWord string | Quoted string | Escaped string

fun word_so_far :: "sh_mode \<Rightarrow> string list" where
  "word_so_far Between = []"
| "word_so_far (InWord w) = [w]"
| "word_so_far (Quoted w) = [w]"
| "word_so_far (Escaped w) = [w]"

definition sh_special :: "char \<Rightarrow> bool" where
  "sh_special c \<longleftrightarrow> c \<in> set (''$`*?[]#~=%!{}'' @ dq)"

fun sh_words :: "sh_mode \<Rightarrow> string \<Rightarrow> (string list \<times> string) option" where
  "sh_words (Quoted w) [] = None"
| "sh_words (Escaped w) [] = None"
| "sh_words m [] = Some (word_so_far m, [])"
| "sh_words (Quoted w) (c # s) = (if c = CHR 0x27 then sh_words (InWord w) s else sh_words (Quoted (w @ [c])) s)"
| "sh_words (Escaped w) (c # s) = (if c = CHR 0x0A then None else sh_words (InWord (w @ [c])) s)"
| "sh_words m (c # s) =
    (if c = CHR '' '' \<or> c = CHR 0x09 then map_option (\<lambda>(ws, r). (word_so_far m @ ws, r)) (sh_words Between s)
     else if sh_operator c then Some (word_so_far m, c # s)
     else if c = CHR 0x27 then sh_words (Quoted (concat (word_so_far m))) s
     else if c = CHR 0x5C then sh_words (Escaped (concat (word_so_far m))) s
     else if sh_special c then None
     else sh_words (InWord (concat (word_so_far m) @ [c])) s)"

definition sh_lex :: "string option \<Rightarrow> string \<Rightarrow> (string list \<times> string) option" where
  "sh_lex w = sh_words (case w of None \<Rightarrow> Between | Some v \<Rightarrow> InWord v)"

fun here_doc :: "string \<Rightarrow> string \<Rightarrow> (string \<times> string) option" where
  "here_doc line [] = None"
| "here_doc line (c # s) =
    (if c = CHR 0x0A then
       if line = ''EOF'' then Some ([], s)
       else map_option (\<lambda>(body, rest). (line @ nl @ body, rest)) (here_doc [] s)
     else here_doc (line @ [c]) s)"

lemma sh_words_quoted: "CHR 0x27 \<notin> set v \<Longrightarrow> sh_words (Quoted w) (v @ CHR 0x27 # s) = sh_words (InWord (w @ v)) s"
  by (induction v arbitrary: w) auto

lemma here_doc_line:
  "CHR 0x0A \<notin> set l \<Longrightarrow> here_doc a (l @ CHR 0x0A # s) =
    (if a @ l = ''EOF'' then Some ([], s) else map_option (\<lambda>(body, rest). (a @ l @ nl @ body, rest)) (here_doc [] s))"
  by (induction l arbitrary: a) auto

lemma ordinary_not_special:
  assumes "sh_ordinary c"
  shows "\<not> sh_operator c \<and> \<not> sh_special c \<and> c \<notin> set ('' '' @ [CHR 0x09] @ sq @ bs)"
proof -
  have "list_all (\<lambda>c. \<not> sh_operator c \<and> \<not> sh_special c \<and> c \<notin> set ('' '' @ [CHR 0x09] @ sq @ bs))
      ''abcdefghijklmnopqrstuvwxyzABCDEFGHIJKLMNOPQRSTUVWXYZ0123456789-_./:''"
    by code_simp
  then show ?thesis using assms unfolding list_all_iff sh_ordinary_def by blast
qed

interpretation sh: posix_shell sh_lex "here_doc []"
proof
  fix w c s v l
  show "sh_lex w (CHR '' '' # s) = map_option (\<lambda>(ws, r). (begun w @ ws, r)) (sh_lex None s)"
    by (cases w) (simp_all add: sh_lex_def)
  show "CHR 0x27 \<notin> set v \<Longrightarrow> sh_lex w (CHR 0x27 # v @ CHR 0x27 # s) = sh_lex (Some (concat (begun w) @ v)) s"
    by (cases w) (simp_all add: sh_lex_def sh_operator_def sh_words_quoted)
  show "c \<noteq> CHR 0x0A \<Longrightarrow> sh_lex w (CHR 0x5C # c # s) = sh_lex (Some (concat (begun w) @ [c])) s"
    by (cases w) (simp_all add: sh_lex_def sh_operator_def)
  show "sh_ordinary c \<Longrightarrow> sh_lex w (c # s) = sh_lex (Some (concat (begun w) @ [c])) s"
    using ordinary_not_special [of c] by (cases w) (simp_all add: sh_lex_def)
  show "sh_operator c \<Longrightarrow> sh_lex None (c # s) = Some ([], c # s)"
    by (auto simp: sh_lex_def sh_operator_def)
  show "CHR 0x0A \<notin> set l \<Longrightarrow> l \<noteq> ''EOF'' \<Longrightarrow>
      here_doc [] (l @ CHR 0x0A # s) = map_option (\<lambda>(body, rest). (l @ CHR 0x0A # body, rest)) (here_doc [] s)"
    by (simp add: here_doc_line)
  show "here_doc [] (''EOF'' @ CHR 0x0A # s) = Some ([], s)"
    using here_doc_line [of "''EOF''" "[]" s] by simp
qed

section \<open>The daemon gets exactly its arguments\<close>

lemma split_once_first:
  "CHR ''<'' \<notin> set a \<Longrightarrow> split_once (a @ ''<<'' @ p @ b) (''<<'' @ p) = Some (a, b)"
  by (induction a) (auto simp: starts_with_def)

definition single_line :: "RemotePeerServiceSpec \<Rightarrow> bool" where
  "single_line spec \<longleftrightarrow> CHR 0x0A \<notin> set (rps_path spec) \<and>
    (\<forall>v\<in>\<Union> (set_option ` {rps_token spec, rps_tls_cert spec, rps_tls_key spec, rps_tls_client_ca spec}). CHR 0x0A \<notin> set v)"

lemma set_sh_quote: "c \<in> set (sh_quote v) \<longleftrightarrow> c \<in> set v \<or> c = CHR 0x27 \<or> c = CHR 0x5C \<and> CHR 0x27 \<in> set v"
  by (auto simp: sh_quote_def str_replace_def split: if_splits)

lemma v4_no_special:
  assumes "v4_addr a"
  shows "CHR 0x0A \<notin> set (socket_show a)" "CHR ''<'' \<notin> set (socket_show a)"
proof -
  have "\<not> sh_ordinary (CHR 0x0A)" "\<not> sh_ordinary (CHR ''<'')" by code_simp+
  then show "CHR 0x0A \<notin> set (socket_show a)" "CHR ''<'' \<notin> set (socket_show a)"
    using v4_ordinary [OF assms] by blast+
qed

lemma opt_arg_no_newline:
  assumes "CHR 0x0A \<notin> set flag" "\<forall>v\<in>set_option x. CHR 0x0A \<notin> set (f v)"
  shows "CHR 0x0A \<notin> set (opt_arg flag f x)"
  using assms by (cases x) (simp_all add: opt_arg_def)

lemma daemon_command_single_line:
  assumes "v4_service spec" "single_line spec"
  shows "CHR 0x0A \<notin> set (daemon_command spec)"
proof -
  have "CHR 0x0A \<notin> set (token_arg (rps_token spec))" "CHR 0x0A \<notin> set (node_daemon_extra_args spec)"
    using assms
    by (simp_all add: token_arg_def node_daemon_extra_args_def opt_arg_no_newline set_sh_quote v4_no_special
        single_line_def v4_service_def)
  with assms show ?thesis
    by (simp add: daemon_command_def set_sh_quote v4_no_special single_line_def v4_service_def)
qed

lemma nohup_files_chars:
  assumes "remote_nohup_files a = (p, c, l, s)" "x \<in> set [p, c, l, s]"
  shows "CHR 0x0A \<notin> set x" "CHR ''<'' \<notin> set x"
  using assms show_nat_no_char [of "CHR 0x0A" "unat (sa_port a)"] show_nat_no_char [of "CHR ''<''" "unat (sa_port a)"]
  by (auto simp: remote_nohup_files_def Let_def)

lemma supervisor_script_lines:
  assumes "v4_service spec" "single_line spec"
  shows "\<forall>l\<in>set (supervisor_script spec). CHR 0x0A \<notin> set l \<and> l \<noteq> ''EOF''"
proof -
  obtain p c l s where files: "remote_nohup_files (rps_tcp spec) = (p, c, l, s)" by (metis prod_cases4)
  from nohup_files_chars [OF files] have "CHR 0x0A \<notin> set c" "CHR 0x0A \<notin> set l" by simp_all
  then show ?thesis
    using daemon_command_single_line [OF assms] by (simp add: supervisor_script_def files)
qed

lemma nohup_prepare_chars: "CHR ''<'' \<notin> set (nohup_prepare spec stop)"
proof -
  obtain p c l s where files: "remote_nohup_files (rps_tcp spec) = (p, c, l, s)" by (metis prod_cases4)
  from nohup_files_chars [OF files] have "CHR ''<'' \<notin> set p" "CHR ''<'' \<notin> set c" "CHR ''<'' \<notin> set s" by simp_all
  then show ?thesis by (simp add: nohup_prepare_def remote_nohup_stop_snippet_def files)
qed

text \<open>
  C5. Take any shell that follows the POSIX rules for blanks, single quotes, backslashes, ordinary characters, operators
  and quoted here-documents.  However the path, the token and the certificate paths of a remote peer are spelled, quotes
  and shell operators included, as long as they have no line breaks and the addresses are IPv4: the shell that runs
  the start command reads the supervisor script from the here-document unchanged, and its launch line starts the daemon
  with exactly the intended arguments, followed by the redirection to the log file.
\<close>

theorem nohup_command_starts_daemon_exactly:
  assumes "posix_shell words_of here_of" "v4_service spec" "single_line spec"
  shows "\<exists>body. split_once (remote_nohup_start_command spec stop) (''<<'' @ sq @ ''EOF'' @ sq @ nl) =
      Some (nohup_prepare spec stop, body) \<and>
    here_of body = Some (heredoc_body (supervisor_script spec), nohup_launch spec) \<and>
    words_of None (supervisor_script spec ! 6) =
      Some (daemon_argv spec, ''>>'' @ fst (snd (snd (remote_nohup_files (rps_tcp spec)))) @ '' 2>&1 &'')"
proof -
  let ?body = "heredoc_body (supervisor_script spec) @ ''EOF'' @ nl @ nohup_launch spec"
  have "split_once (remote_nohup_start_command spec stop) (''<<'' @ sq @ ''EOF'' @ sq @ nl) = Some (nohup_prepare spec stop, ?body)"
    using split_once_first [OF nohup_prepare_chars [of spec stop], of "sq @ ''EOF'' @ sq @ nl" ?body]
    by (simp add: remote_nohup_start_command_def heredoc_def)
  moreover have "words_of None (supervisor_script spec ! 6) =
      Some (daemon_argv spec, ''>>'' @ fst (snd (snd (remote_nohup_files (rps_tcp spec)))) @ '' 2>&1 &'')"
    using posix_shell.supervisor_launch_line [OF assms(1,2)] by (metis fst_conv snd_conv prod_cases4)
  ultimately show ?thesis
    using posix_shell.here_body [OF assms(1) supervisor_script_lines [OF assms(2,3)]] by blast
qed

definition sample_service :: RemotePeerServiceSpec where
  "sample_service =
    \<lparr>rps_path = ''/opt/my tools/ssh_proxy'', rps_platform = Unix, rps_persistence = Nohup,
     rps_token = Some (''it'' @ sq @ ''s; rm -rf $HOME''), rps_tcp = \<lparr>sa_ip = V4 [127, 0, 0, 1], sa_port = 80\<rparr>,
     rps_control = \<lparr>sa_ip = V4 [127, 0, 0, 1], sa_port = 81\<rparr>, rps_tls_transport = None, rps_quic_transport = None,
     rps_tls_cert = None, rps_tls_key = None, rps_tls_client_ca = None\<rparr>"

theorem nohup_command_starts_daemon_exactly_witness:
  "posix_shell sh_lex (here_doc []) \<and> v4_service sample_service \<and> single_line sample_service \<and>
   (\<exists>body. split_once (remote_nohup_start_command sample_service True) (''<<'' @ sq @ ''EOF'' @ sq @ nl) =
      Some (nohup_prepare sample_service True, body) \<and>
    here_doc [] body = Some (heredoc_body (supervisor_script sample_service), nohup_launch sample_service) \<and>
    (\<exists>redirect. sh_lex None (supervisor_script sample_service ! 6) = Some (daemon_argv sample_service, redirect))) \<and>
   daemon_argv sample_service ! 8 = ''it'' @ sq @ ''s; rm -rf $HOME''"
proof -
  have *: "v4_service sample_service" "single_line sample_service"
    by (simp_all add: sample_service_def v4_service_def v4_addr_def single_line_def)
  moreover have "daemon_argv sample_service ! 8 = ''it'' @ sq @ ''s; rm -rf $HOME''"
    by (simp add: sample_service_def daemon_argv_def opt_words_def)
  ultimately show ?thesis
    using nohup_command_starts_daemon_exactly [OF sh.posix_shell_axioms *, of True] sh.posix_shell_axioms by blast
qed

text \<open>The property list of \<^verbatim>\<open>launchd\<close> is not quoted for a shell: a token with a blank becomes two arguments.\<close>

lemma launchd_token_is_split:
  "token_arg_to_plist (token_arg (Some ''a b'')) = ''<string>--token</string><string>a</string><string>b</string>''"
proof -
  have "token_arg (Some ''a b'') = CHR '' '' # ''--token'' @ CHR '' '' # (sq @ ''a'') @ CHR '' '' # (''b'' @ sq)"
    by (simp add: token_arg_def opt_arg_def sh_quote_def str_replace_def)
  moreover have "split_whitespace (CHR '' '' # ''--token'' @ CHR '' '' # (sq @ ''a'') @ CHR '' '' # (''b'' @ sq)) =
      [''--token'', sq @ ''a'', ''b'' @ sq]"
    using split_plain [of "''b'' @ sq" "[]" "[]"]
    by (simp add: split_whitespace_def split_space split_plain plain_char_iff del: append_Cons split_whitespace_from.simps(2))
  ultimately show ?thesis
    by (simp add: token_arg_to_plist_def extra_args_to_plist_def trim_matches_def xml_escape_def str_replace_def)
qed

text \<open>A line break in a value can end the here-document early.\<close>

lemma newline_ends_here_document:
  "here_doc [] (heredoc_body [sh_quote (''x'' @ nl @ ''EOF'' @ nl @ ''reboot'')] @ ''EOF'' @ nl) =
    Some (sq @ ''x'' @ nl, ''reboot'' @ sq @ nl @ ''EOF'' @ nl)"
  by code_simp

section \<open>Health is recorded last\<close>

lemma install_command_nonempty:
  assumes "rps_persistence spec \<noteq> NoPersistence"
  shows "trim (remote_install_command spec) \<noteq> []"
proof (rule trim_nonempty)
  obtain t where t: "nohup_prepare spec True = CHR ''s'' # t"
    by (cases "remote_nohup_files (rps_tcp spec)") (simp add: nohup_prepare_def)
  then have "\<exists>t. remote_install_command spec = CHR ''s'' # t"
    using assms
    by (cases "rps_persistence spec")
      (simp_all add: remote_install_command_def remote_schtasks_install_command_def remote_auto_install_command_def
        remote_systemd_install_command_def remote_launchd_install_command_def remote_nohup_start_command_def Let_def)
  then show "CHR ''s'' \<in> set (remote_install_command spec)" by auto
qed

definition record_step :: "(json \<Rightarrow> byte list) \<Rightarrow> u64 \<Rightarrow> RemotePeerServiceSpec \<Rightarrow> PeerArtifact \<Rightarrow>
    ((json \<Rightarrow> byte list) \<Rightarrow> u64 \<Rightarrow> string \<Rightarrow> byte list) \<Rightarrow> LifecycleStep" where
  "record_step print now spec artifact bytes =
    \<lparr>ls_phase = RecordPhase, ls_action = WriteArtifact (remote_write_peer_artifact_command artifact (rps_platform spec)) artifact
      (bytes print now (reported_service_manager (rps_persistence spec) (rps_platform spec) (provider_kind spec)))\<rparr>"

lemma install_plan_steps:
  assumes "rps_persistence spec \<noteq> NoPersistence"
  shows "lp_steps (ap_lifecycle_plan (remote_service_action_plan print now1 now2 spec Install)) =
    [\<lparr>ls_phase = DependencyCheck, ls_action = Noop\<rparr>,
     \<lparr>ls_phase = InstallService, ls_action = RunCommand (remote_install_command spec) None\<rparr>,
     record_step print now1 spec InstallReport install_report_bytes,
     record_step print now2 spec HealthFile health_report_bytes]"
  using install_command_nonempty [OF assms]
  by (simp add: remote_service_action_plan_def Let_def lifecycle_plan_def plan_push_def plan_new_def record_step_def)

text \<open>
  C26. Installing the service of a remote peer with any persistence runs the install command first and records the
  host as healthy only when that command exits with status 0: otherwise the caller gets an error and the machine is
  left as the command left it, with no artifact written.
\<close>

theorem host_recorded_healthy_only_after_start:
  assumes "rps_persistence service \<noteq> NoPersistence"
  shows "case run_lifecycle_plan ex spec (ap_lifecycle_plan (remote_service_action_plan print now1 now2 service Install)) clock sink s of
      (result, s', out) \<Rightarrow>
        (case exec_capture ex (remote_install_command service) None s of
           (Inr output, s1) \<Rightarrow>
             if exit_status output = 0
             then s' = after_steps ex (record_step print now1 service InstallReport install_report_bytes #
                 (if step_ok ex (record_step print now1 service InstallReport install_report_bytes) s1
                  then [record_step print now2 service HealthFile health_report_bytes] else [])) s1
             else s' = s1 \<and> (\<exists>err. result = Inl err)
         | (Inl e, s1) \<Rightarrow> s' = s1 \<and> (\<exists>err. result = Inl err))"
proof -
  let ?plan = "ap_lifecycle_plan (remote_service_action_plan print now1 now2 service Install)"
  let ?dep = "\<lparr>ls_phase = DependencyCheck, ls_action = Noop\<rparr>"
  let ?run = "\<lparr>ls_phase = InstallService, ls_action = RunCommand (remote_install_command service) None\<rparr>"
  let ?r1 = "record_step print now1 service InstallReport install_report_bytes"
  let ?r2 = "record_step print now2 service HealthFile health_report_bytes"
  note steps = install_plan_steps [OF assms, of print now1 now2]
  obtain r s1 where exec: "exec_capture ex (remote_install_command service) None s = (r, s1)" by fastforce
  have dep: "step_ok ex ?dep s" "snd (execute_action ex (ls_action ?dep) s) = s" by (simp_all add: step_ok_def)
  have run: "step_ok ex ?run s \<longleftrightarrow> (\<exists>out. r = Inr out \<and> exit_status out = 0)" "snd (execute_action ex (ls_action ?run) s) = s1"
    by (auto simp: step_ok_def exec split: sum.splits)
  consider (bad) "\<not> step_ok ex ?run s" | (r1) "step_ok ex ?run s" "\<not> step_ok ex ?r1 s1"
    | (r2) "step_ok ex ?run s" "step_ok ex ?r1 s1" "\<not> step_ok ex ?r2 (after_steps ex [?r1] s1)"
    | (ok) "step_ok ex ?run s" "step_ok ex ?r1 s1" "step_ok ex ?r2 (after_steps ex [?r1] s1)" by blast
  then show ?thesis
  proof cases
    case bad
    then show ?thesis
      using run_plan_fails [of ?plan "[?dep]" ?run "[?r1, ?r2]" ex s spec clock sink] dep run exec by (auto simp: steps split: sum.splits)
  next
    case r1
    then show ?thesis
      using run_plan_fails [of ?plan "[?dep, ?run]" ?r1 "[?r2]" ex s spec clock sink] dep run exec by (auto simp: steps)
  next
    case r2
    then show ?thesis
      using run_plan_fails [of ?plan "[?dep, ?run, ?r1]" ?r2 "[]" ex s spec clock sink] dep run exec by (auto simp: steps)
  next
    case ok
    then show ?thesis
      using run_plan_succeeds [of ex ?plan s spec clock sink] dep run exec by (auto simp: steps Let_def)
  qed
qed

definition failing_host :: FakeExecutor where
  "failing_host =
    \<lparr>fx_outputs = [\<lparr>exit_status = 1, out_stdout = [], out_stderr = ''no systemd''\<rparr>], fx_commands = [], fx_artifacts = [],
     fx_service_controls = []\<rparr>"

theorem host_recorded_healthy_only_after_start_witness:
  "\<exists>result s' out. run_lifecycle_plan fake_executor
      (as_spec_view (context_from_spec (local_daemon PlLinux ''edge'' [] NohupSupervisor ''ssh-proxy-helper'' None None None [])))
      (ap_lifecycle_plan (remote_service_action_plan (\<lambda>v. []) 1 2 sample_service Install)) (\<lambda>k. 0) [] failing_host = (result, s', out) \<and>
    fx_artifacts s' = [] \<and> (\<exists>err. result = Inl err)"
proof -
  have p: "rps_persistence sample_service \<noteq> NoPersistence" by (simp add: sample_service_def)
  show ?thesis
    using host_recorded_healthy_only_after_start [OF p, where ex = fake_executor and
        spec = "as_spec_view (context_from_spec (local_daemon PlLinux ''edge'' [] NohupSupervisor ''ssh-proxy-helper'' None None None []))"
        and print = "\<lambda>v. []" and ?now1.0 = 1 and ?now2.0 = 2 and clock = "\<lambda>k. 0" and sink = "[]" and s = failing_host]
    by (auto simp: fake_executor_def default_executor_def fx_pop_def failing_host_def split: prod.splits)
qed

text \<open>The operation does not reach the command: a plan to stop the service runs the install command.\<close>

lemma stop_plan_runs_install_command:
  assumes "rps_persistence spec \<noteq> NoPersistence"
  shows "lp_steps (ap_lifecycle_plan (remote_service_action_plan print now1 now2 spec Stop)) =
    [\<lparr>ls_phase = DependencyCheck, ls_action = Noop\<rparr>,
     \<lparr>ls_phase = Repairing, ls_action = RunCommand (remote_install_command spec) None\<rparr>]"
  using install_command_nonempty [OF assms]
  by (simp add: remote_service_action_plan_def Let_def lifecycle_plan_def plan_push_def plan_new_def)

end
