(* ===== verification/Peer_Handshake.thy ===== *)
theory Peer_Handshake
  imports Byte_IO Version_Compat Route_Decision
begin

text \<open>
  How two peers agree on a data plane (\<^verbatim>\<open>ssh-proxy-protocol/src/protocol_core/peer.rs\<close> and
  \<^verbatim>\<open>ssh-proxy-transport/src/peer_transport.rs\<close>): the messages, their framing, both ends of the handshake, the candidates
  of an automatic choice and the options of a QUIC transport.  The JSON text of a message is \<^verbatim>\<open>serde_json\<close>'s and an
  argument, as are the expiry of a timer and the platform the program was built for.
\<close>

section \<open>Protocols and messages\<close>

datatype PeerProtocol = SshNativeP | QuicNativeP | QuicP | TlsTcpP | TcpP | SshDirectP | SshExecP

fun protocol_show :: "PeerProtocol \<Rightarrow> string" where
  "protocol_show SshNativeP = ''ssh-native''"
| "protocol_show QuicNativeP = ''quic-native''"
| "protocol_show QuicP = ''quic''"
| "protocol_show TlsTcpP = ''tls-tcp''"
| "protocol_show TcpP = ''tcp''"
| "protocol_show SshDirectP = ''ssh-direct''"
| "protocol_show SshExecP = ''ssh-exec''"

fun data_plane_label :: "PeerProtocol \<Rightarrow> string" where
  "data_plane_label SshNativeP = ''ssh-native''"
| "data_plane_label QuicNativeP = ''quic-native''"
| "data_plane_label QuicP = ''quic-framed''"
| "data_plane_label TlsTcpP = ''tls-spx-framed''"
| "data_plane_label TcpP = ''plain-spx-framed''"
| "data_plane_label SshDirectP = ''ssh-direct-spx''"
| "data_plane_label SshExecP = ''ssh-exec-spx''"

definition protocol_from_str :: "string \<Rightarrow> PeerProtocol option" where
  "protocol_from_str s =
    (let v = to_ascii_lowercase s in
     if v = ''quic'' then Some QuicP
     else if v \<in> set [''quic-native'', ''quic_native'', ''native-quic'', ''native_quic''] then Some QuicNativeP
     else if v \<in> set [''ssh-native'', ''ssh_native'', ''native-ssh'', ''native_ssh''] then Some SshNativeP
     else if v \<in> set [''tls-tcp'', ''tls_tcp'', ''tls''] then Some TlsTcpP
     else if v \<in> set [''tcp'', ''plain-tcp'', ''plain_tcp'', ''direct-tcp'', ''direct_tcp''] then Some TcpP
     else if v \<in> set [''ssh-direct'', ''ssh_direct'', ''ssh-tcp'', ''ssh_tcp''] then Some SshDirectP
     else if v \<in> set [''ssh-exec'', ''ssh_exec'', ''exec''] then Some SshExecP
     else None)"

record PeerEndpoint =
  pe_protocol :: PeerProtocol
  pe_addr :: "SocketAddr option"

record PeerHello =
  hl_version :: u16
  hl_node :: string
  hl_protocols :: "PeerProtocol list"
  hl_features :: "string list"
  hl_feature_bits :: "(string, json) omap"
  hl_binary_version :: "string option"
  hl_os :: "string option"
  hl_arch :: "string option"

record PeerWelcome =
  wl_version :: u16
  wl_node :: string
  wl_accepted :: "PeerProtocol option"
  wl_features :: "string list"
  wl_feature_bits :: "(string, json) omap"
  wl_binary_version :: "string option"
  wl_os :: "string option"
  wl_arch :: "string option"
  wl_message :: string

definition default_features :: "string list" where
  "default_features =
    [''frames-v1'', ''socks5h'', ''tcp-connect'', ''udp-associate'', ''ssh-native-direct-tcpip'', ''quic-native-streams-v1'']"

definition default_feature_bits :: "(string, json) omap" where
  "default_feature_bits = om_from_list (map (\<lambda>f. (f, JBool True)) default_features)"

definition select_supported_protocol :: "PeerProtocol list \<Rightarrow> PeerProtocol list \<Rightarrow> PeerProtocol option" where
  "select_supported_protocol requested supported = find (\<lambda>p. p \<in> set supported) requested"

section \<open>Framing\<close>

datatype handshake_error =
    HandshakeTooLarge nat
  | MagicIo io_error
  | BadMagic
  | LengthIo io_error
  | HandshakePayloadIo io_error
  | Undecodable
  | HandshakeWriteIo io_error
  | HandshakeTimeout string
  | PeerVersionMismatch u16
  | UnexpectedProtocol PeerProtocol
  | RejectedByPeer string
  | HandshakeRejected string

definition HANDSHAKE_MAGIC :: "byte list" where "HANDSHAKE_MAGIC = [0x53, 0x50, 0x58, 0x31]"
definition MAX_HANDSHAKE :: nat where "MAX_HANDSHAKE = 64 * 1024"
definition PEER_VERSION :: u16 where "PEER_VERSION = PEER_PROTOCOL_VERSION"

definition write_handshake :: "byte list \<Rightarrow> writer \<Rightarrow> (handshake_error, unit) result \<times> writer" where
  "write_handshake payload w =
    (if length payload > MAX_HANDSHAKE then (Inl (HandshakeTooLarge (length payload)), w)
     else case write_seq [HANDSHAKE_MAGIC, u32_to_be (word_of_nat (length payload)), payload] w of
       (Inl e, w) \<Rightarrow> (Inl (HandshakeWriteIo e), w)
     | (Inr _, w) \<Rightarrow> (case flush w of Inl e \<Rightarrow> (Inl (HandshakeWriteIo e), w) | Inr _ \<Rightarrow> (Inr (), w)))"

definition read_handshake :: "(byte list \<Rightarrow> 'm option) \<Rightarrow> reader \<Rightarrow> (handshake_error, 'm \<times> reader) result" where
  "read_handshake dec rd =
    (case read_exact 4 rd of
       Inl e \<Rightarrow> Inl (MagicIo e)
     | Inr (magic, rd) \<Rightarrow>
         if magic \<noteq> HANDSHAKE_MAGIC then Inl BadMagic
         else case read_exact 4 rd of
           Inl e \<Rightarrow> Inl (LengthIo e)
         | Inr (len, rd) \<Rightarrow>
             (let n = unat (u32_from_be len) in
              if n > MAX_HANDSHAKE then Inl (HandshakeTooLarge n)
              else case read_exact n rd of
                Inl e \<Rightarrow> Inl (HandshakePayloadIo e)
              | Inr (payload, rd) \<Rightarrow>
                  (case dec payload of None \<Rightarrow> Inl Undecodable | Some m \<Rightarrow> Inr (m, rd))))"

section \<open>The two ends\<close>

text \<open>What the build and the timers contribute.\<close>

record build_info =
  bi_version :: string
  bi_os :: string
  bi_arch :: string

definition with_handshake_timeout :: "bool \<Rightarrow> string \<Rightarrow> (handshake_error, 'a) result \<Rightarrow> (handshake_error, 'a) result" where
  "with_handshake_timeout elapsed label r = (if elapsed then Inl (HandshakeTimeout label) else r)"

definition client_hello :: "build_info \<Rightarrow> string \<Rightarrow> PeerProtocol \<Rightarrow> PeerHello" where
  "client_hello b node protocol =
    \<lparr>hl_version = PEER_VERSION, hl_node = node, hl_protocols = [protocol], hl_features = default_features,
     hl_feature_bits = default_feature_bits, hl_binary_version = Some (bi_version b), hl_os = Some (bi_os b),
     hl_arch = Some (bi_arch b)\<rparr>"

definition check_welcome :: "PeerProtocol \<Rightarrow> PeerWelcome \<Rightarrow> (handshake_error, PeerWelcome) result" where
  "check_welcome protocol welcome =
    (if wl_version welcome \<noteq> PEER_VERSION then Inl (PeerVersionMismatch (wl_version welcome))
     else case wl_accepted welcome of
       Some accepted \<Rightarrow> if accepted = protocol then Inr welcome else Inl (UnexpectedProtocol accepted)
     | None \<Rightarrow> Inl (RejectedByPeer (wl_message welcome)))"

definition client_handshake ::
  "(PeerHello \<Rightarrow> byte list) \<Rightarrow> (byte list \<Rightarrow> PeerWelcome option) \<Rightarrow> build_info \<Rightarrow> bool \<Rightarrow> bool \<Rightarrow> string \<Rightarrow> PeerProtocol \<Rightarrow>
    writer \<Rightarrow> reader \<Rightarrow> (handshake_error, PeerWelcome \<times> reader) result \<times> writer" where
  "client_handshake enc dec b late1 late2 node protocol w rd =
    (case write_handshake (enc (client_hello b node protocol)) w of (sent, w) \<Rightarrow>
      (and_then (with_handshake_timeout late1 ''write peer hello'' sent) (\<lambda>_.
       and_then (with_handshake_timeout late2 ''read peer welcome'' (read_handshake dec rd)) (\<lambda>(welcome, rd).
       and_then (check_welcome protocol welcome) (\<lambda>welcome. Inr (welcome, rd)))), w))"

definition accepted_protocol :: "PeerHello \<Rightarrow> PeerProtocol list \<Rightarrow> PeerProtocol option" where
  "accepted_protocol hello supported =
    (if hl_version hello = PEER_VERSION then select_supported_protocol (hl_protocols hello) supported else None)"

definition server_welcome :: "build_info \<Rightarrow> string \<Rightarrow> PeerProtocol list \<Rightarrow> PeerHello \<Rightarrow> PeerWelcome" where
  "server_welcome b node supported hello =
    (let accepted = accepted_protocol hello supported in
     \<lparr>wl_version = PEER_VERSION, wl_node = node, wl_accepted = accepted, wl_features = default_features,
      wl_feature_bits = default_feature_bits, wl_binary_version = Some (bi_version b), wl_os = Some (bi_os b),
      wl_arch = Some (bi_arch b),
      wl_message =
        (if hl_version hello \<noteq> PEER_VERSION
         then ''unsupported peer version '' @ show_nat (unat (hl_version hello)) @ ''; expected ''
           @ show_nat (unat PEER_VERSION)
         else if accepted = None then ''no mutually supported peer protocol''
         else ''ok'')\<rparr>)"

definition server_handshake ::
  "(byte list \<Rightarrow> PeerHello option) \<Rightarrow> (PeerWelcome \<Rightarrow> byte list) \<Rightarrow> build_info \<Rightarrow> bool \<Rightarrow> bool \<Rightarrow> string \<Rightarrow>
    PeerProtocol list \<Rightarrow> writer \<Rightarrow> reader \<Rightarrow> (handshake_error, PeerHello \<times> reader) result \<times> writer" where
  "server_handshake dec enc b late1 late2 node supported w rd =
    (case with_handshake_timeout late1 ''read peer hello'' (read_handshake dec rd) of
       Inl e \<Rightarrow> (Inl e, w)
     | Inr (hello, rd) \<Rightarrow>
         (let welcome = server_welcome b node supported hello in
          case write_handshake (enc welcome) w of (sent, w) \<Rightarrow>
            (and_then (with_handshake_timeout late2 ''write peer welcome'' sent) (\<lambda>_.
               if wl_accepted welcome = None then Inl (HandshakeRejected (wl_message welcome)) else Inr (hello, rd)), w)))"

section \<open>Automatic candidates\<close>

record NetworkHints =
  nh_peer_addr :: "SocketAddr option"
  nh_ssh_available :: bool
  nh_allow_plain_tcp :: bool
  nh_prefer_low_latency :: bool

definition network_hints_default :: NetworkHints where
  "network_hints_default =
    \<lparr>nh_peer_addr = None, nh_ssh_available = True, nh_allow_plain_tcp = False, nh_prefer_low_latency = True\<rparr>"

definition auto_candidates :: "NetworkHints \<Rightarrow> PeerEndpoint list" where
  "auto_candidates h =
    (case nh_peer_addr h of
       None \<Rightarrow> []
     | Some addr \<Rightarrow>
         (if nh_prefer_low_latency h then [\<lparr>pe_protocol = QuicP, pe_addr = Some addr\<rparr>] else [])
         @ [\<lparr>pe_protocol = TlsTcpP, pe_addr = Some addr\<rparr>]
         @ (if nh_allow_plain_tcp h then [\<lparr>pe_protocol = TcpP, pe_addr = Some addr\<rparr>] else []))
    @ (if nh_ssh_available h then [\<lparr>pe_protocol = SshDirectP, pe_addr = nh_peer_addr h\<rparr>] else [])"

definition implemented_auto_candidates :: "NetworkHints \<Rightarrow> PeerEndpoint list" where
  "implemented_auto_candidates h =
    filter (\<lambda>c. pe_protocol c \<in> set [QuicP, TlsTcpP, TcpP, SshDirectP]) (auto_candidates h)"

section \<open>QUIC options\<close>

record QuicTransportOptions =
  qo_max_bidi_streams :: u32
  qo_stream_receive_window :: u32
  qo_receive_window :: u32
  qo_keep_alive_interval_secs :: u64
  qo_idle_timeout_secs :: u64

definition quic_options_default :: QuicTransportOptions where
  "quic_options_default =
    \<lparr>qo_max_bidi_streams = 256, qo_stream_receive_window = 2 * 1024 * 1024, qo_receive_window = 16 * 1024 * 1024,
     qo_keep_alive_interval_secs = 10, qo_idle_timeout_secs = 60\<rparr>"

definition quic_options_validate :: "QuicTransportOptions \<Rightarrow> (string, QuicTransportOptions) result" where
  "quic_options_validate q =
    (if qo_max_bidi_streams q = 0 then Inl ''quic_max_bidi_streams must be greater than zero''
     else if qo_stream_receive_window q = 0 then Inl ''quic_stream_receive_window must be greater than zero''
     else if qo_receive_window q = 0 then Inl ''quic_receive_window must be greater than zero''
     else if qo_keep_alive_interval_secs q = 0 then Inl ''quic_keep_alive_interval_secs must be greater than zero''
     else if qo_idle_timeout_secs q = 0 then Inl ''quic_idle_timeout_secs must be greater than zero''
     else Inr
       \<lparr>qo_max_bidi_streams = min (qo_max_bidi_streams q) 4096,
        qo_stream_receive_window = min (qo_stream_receive_window q) (64 * 1024 * 1024),
        qo_receive_window = min (qo_receive_window q) (256 * 1024 * 1024),
        qo_keep_alive_interval_secs = min (qo_keep_alive_interval_secs q) 300,
        qo_idle_timeout_secs = min (qo_idle_timeout_secs q) 3600\<rparr>)"

section \<open>The framing is exact\<close>

definition handshake_wire :: "byte list \<Rightarrow> byte list" where
  "handshake_wire payload = HANDSHAKE_MAGIC @ u32_to_be (word_of_nat (length payload)) @ payload"

lemma magic_length [simp]: "length HANDSHAKE_MAGIC = 4"
  by (simp add: HANDSHAKE_MAGIC_def)

lemma unat_handshake_length: "n \<le> MAX_HANDSHAKE \<Longrightarrow> unat (word_of_nat n :: u32) = n"
  by (simp add: MAX_HANDSHAKE_def unat_of_nat)

lemma read_handshake_iff:
  "(\<exists>rd'. read_handshake dec rd = Inr (m, rd') \<and> flat rd' = rest) \<longleftrightarrow>
    (\<exists>payload. length payload \<le> MAX_HANDSHAKE \<and> dec payload = Some m \<and> flat rd = handshake_wire payload @ rest)"
  (is "?l \<longleftrightarrow> ?r")
proof
  assume ?l
  then obtain rd1 len rd2 payload rd' where r: "read_exact 4 rd = Inr (HANDSHAKE_MAGIC, rd1)" "read_exact 4 rd1 = Inr (len, rd2)"
      "unat (u32_from_be len) \<le> MAX_HANDSHAKE" "read_exact (unat (u32_from_be len)) rd2 = Inr (payload, rd')"
      "dec payload = Some m" "flat rd' = rest"
    by (auto simp: read_handshake_def Let_def split: sum.splits if_splits option.splits)
  have "flat rd = HANDSHAKE_MAGIC @ flat rd1" "flat rd1 = len @ flat rd2" "length len = 4"
      "flat rd2 = payload @ rest" "length payload = unat (u32_from_be len)"
    using read_exact_Inr_iff [of 4 rd HANDSHAKE_MAGIC "flat rd1"] read_exact_Inr_iff [of 4 rd1 len "flat rd2"]
      read_exact_Inr_iff [of "unat (u32_from_be len)" rd2 payload rest] r by auto
  with r(3,5) show ?r
    by (intro exI [of _ payload]) (simp add: handshake_wire_def u32_field.put_get)
next
  assume ?r
  then obtain payload where p: "length payload \<le> MAX_HANDSHAKE" "dec payload = Some m" "flat rd = handshake_wire payload @ rest"
    by blast
  let ?len = "u32_to_be (word_of_nat (length payload))"
  have n: "unat (u32_from_be ?len) = length payload"
    using unat_handshake_length [OF p(1)] by simp
  obtain rd1 where rd1: "read_exact 4 rd = Inr (HANDSHAKE_MAGIC, rd1)" "flat rd1 = ?len @ payload @ rest"
    using read_exact_Inr_iff [of 4 rd HANDSHAKE_MAGIC "?len @ payload @ rest"] p(3) by (auto simp: handshake_wire_def)
  obtain rd2 where rd2: "read_exact 4 rd1 = Inr (?len, rd2)" "flat rd2 = payload @ rest"
    using read_exact_Inr_iff [of 4 rd1 ?len "payload @ rest"] rd1(2) by auto
  obtain rd' where "read_exact (length payload) rd2 = Inr (payload, rd')" "flat rd' = rest"
    using read_exact_Inr_iff [of "length payload" rd2 payload rest] rd2(2) by auto
  then show ?l using rd1 rd2 n p by (simp add: read_handshake_def)
qed

lemma handshake_wire_prefix:
  assumes "length p \<le> MAX_HANDSHAKE" "length q \<le> MAX_HANDSHAKE" "handshake_wire p @ r = take n (handshake_wire q) @ s" "s = []"
  shows "p = q \<and> r = []"
proof -
  obtain d where "handshake_wire q = (handshake_wire p @ r) @ d"
    using assms(3,4) by (metis append_Nil2 append_take_drop_id)
  then have "u32_to_be (word_of_nat (length q)) @ q = u32_to_be (word_of_nat (length p)) @ (p @ r @ d)"
    unfolding handshake_wire_def append_assoc same_append_eq .
  then have both: "u32_to_be (word_of_nat (length q)) = u32_to_be (word_of_nat (length p)) \<and> q = p @ r @ d"
    by (rule iffD1 [OF append_eq_append_conv, rotated]) simp
  note pay = conjunct2 [OF both]
  from conjunct1 [OF both] have "word_of_nat (length q) = (word_of_nat (length p) :: u32)"
    by (metis u32_field.get_put)
  then have "length q = length p"
    using unat_handshake_length [OF assms(1)] unat_handshake_length [OF assms(2)] by metis
  then show ?thesis using arg_cong [OF pay, of length] pay by simp
qed

text \<open>A write that fails has sent the front of its bytes.\<close>

lemma write_all_front: "write_all bs w = (r, w') \<Longrightarrow> \<exists>n. written w' = written w @ take n bs"
proof (induction bs w rule: write_all.induct)
  case (1 bs w)
  show ?case
  proof (cases "bs = []")
    case False
    show ?thesis
    proof (cases rule: write_vectored_cases [of "[bs]" w])
      case (fault w1)
      then show ?thesis using "1.prems" write_all_fault [OF False fault(1)] by (auto intro: exI [of _ 0])
    next
      case (took n w1)
      show ?thesis
      proof (cases "n = 0")
        case True
        then show ?thesis using "1.prems" write_all_step [OF False took(1)] took(3) by auto
      next
        case n: False
        then obtain m where "written w' = written w1 @ take m (drop n bs)"
          using "1.IH" [OF False took(1) [symmetric]] "1.prems" write_all_step [OF False took(1)] by auto
        then show ?thesis using took(3) by (auto simp: take_add [symmetric])
      qed
    qed
  qed (use "1.prems" in auto)
qed

lemma write_seq_front: "write_seq bss w = (r, w') \<Longrightarrow> \<exists>n. written w' = written w @ take n (concat bss)"
proof (induction bss arbitrary: w)
  case (Cons bs bss)
  obtain r1 w1 where w1: "write_all bs w = (r1, w1)" by fastforce
  show ?case
  proof (cases r1)
    case (Inl e)
    with Cons.prems w1 have "w' = w1" by simp
    then obtain n where n: "written w' = written w @ take n bs" using write_all_front [OF w1] by blast
    then have "written w' = written w @ take (min n (length bs)) (concat (bs # bss))"
      by (simp add: min_def)
    then show ?thesis by blast
  next
    case (Inr u)
    with Cons.prems w1 have "write_seq bss w1 = (r, w')" by simp
    then obtain n where "written w' = written w1 @ take n (concat bss)" using Cons.IH by blast
    then have "written w' = written w @ take (length bs + n) (concat (bs # bss))"
      using write_all_ok [of bs w w1] w1 Inr by simp
    then show ?thesis by blast
  qed
qed auto

lemma write_handshake_front:
  assumes "write_handshake payload w = (r, w')"
  shows "\<exists>n. written w' = written w @ take n (handshake_wire payload) \<and> (length payload > MAX_HANDSHAKE \<longrightarrow> n = 0)"
proof (cases "length payload > MAX_HANDSHAKE")
  case True
  then show ?thesis using assms by (auto simp: write_handshake_def)
next
  case False
  obtain r1 w1 where w1: "write_seq [HANDSHAKE_MAGIC, u32_to_be (word_of_nat (length payload)), payload] w = (r1, w1)"
    by fastforce
  with assms False have "w' = w1"
    by (auto simp: write_handshake_def split: sum.splits)
  then show ?thesis using write_seq_front [OF w1] False by (auto simp: handshake_wire_def)
qed

lemma write_handshake_ok:
  assumes "write_handshake payload w = (Inr (), w')"
  shows "length payload \<le> MAX_HANDSHAKE" "written w' = written w @ handshake_wire payload"
proof -
  show "length payload \<le> MAX_HANDSHAKE" using assms by (auto simp: write_handshake_def split: if_splits)
  then obtain w1 where "write_seq [HANDSHAKE_MAGIC, u32_to_be (word_of_nat (length payload)), payload] w = (Inr (), w1)" "w' = w1"
    using assms by (auto simp: write_handshake_def split: sum.splits prod.splits)
  then show "written w' = written w @ handshake_wire payload"
    using write_seq_ok by (fastforce simp: handshake_wire_def)
qed

lemma write_handshake_ideal:
  assumes "length payload \<le> MAX_HANDSHAKE" "accepts w = []" "\<not> flush_fault w"
  shows "write_handshake payload w = (Inr (), w\<lparr>written := written w @ handshake_wire payload\<rparr>)"
  using assms by (simp add: write_handshake_def write_seq_ideal handshake_wire_def flush_def del: write_seq.simps)

section \<open>Both ends agree\<close>

lemma select_single: "select_supported_protocol [p] supported = (if p \<in> set supported then Some p else None)"
  by (simp add: select_supported_protocol_def)

lemma accepted_client_hello:
  "accepted_protocol (client_hello b node p) supported = (if p \<in> set supported then Some p else None)"
  by (simp add: accepted_protocol_def client_hello_def select_single)

lemma handshake_runs:
  assumes hello_json: "dec_hello (enc_hello (client_hello bc cnode p)) = Some (client_hello bc cnode p)"
    and welcome_json: "dec_welcome (enc_welcome (server_welcome bs snode supported (client_hello bc cnode p))) =
      Some (server_welcome bs snode supported (client_hello bc cnode p))"
    and fits: "length (enc_hello (client_hello bc cnode p)) \<le> MAX_HANDSHAKE"
      "length (enc_welcome (server_welcome bs snode supported (client_hello bc cnode p))) \<le> MAX_HANDSHAKE"
    and ideal: "accepts wc = []" "\<not> flush_fault wc" "accepts ws = []" "\<not> flush_fault ws"
    and client: "client_handshake enc_hello dec_welcome bc False False cnode p wc rc = (cres, wc')"
    and server: "server_handshake dec_hello enc_welcome bs False False snode supported ws rs = (sres, ws')"
    and links: "written wc = []" "written ws = []" "flat rs = written wc'" "flat rc = written ws'"
  shows "(if p \<in> set supported
     then (\<exists>rc' rs'. cres = Inr (server_welcome bs snode supported (client_hello bc cnode p), rc') \<and>
       sres = Inr (client_hello bc cnode p, rs'))
     else cres = Inl (RejectedByPeer ''no mutually supported peer protocol'') \<and>
       sres = Inl (HandshakeRejected ''no mutually supported peer protocol''))"
proof -
  let ?h = "client_hello bc cnode p"
  let ?w = "server_welcome bs snode supported ?h"
  note send_c = write_handshake_ideal [OF fits(1) ideal(1,2)] and send_s = write_handshake_ideal [OF fits(2) ideal(3,4)]
  have "written wc' = handshake_wire (enc_hello ?h)"
    using client send_c links(1) by (auto simp: client_handshake_def)
  then obtain rs' where rs': "read_handshake dec_hello rs = Inr (?h, rs')"
    using read_handshake_iff [of dec_hello rs ?h "[]"] hello_json fits(1) links(3) by auto
  then have "written ws' = handshake_wire (enc_welcome ?w)"
    using server send_s links(2) by (auto simp: server_handshake_def with_handshake_timeout_def Let_def)
  then obtain rc' where rc': "read_handshake dec_welcome rc = Inr (?w, rc')"
    using read_handshake_iff [of dec_welcome rc ?w "[]"] welcome_json fits(2) links(4) by auto
  have w: "wl_version ?w = PEER_VERSION" "wl_accepted ?w = (if p \<in> set supported then Some p else None)"
    "p \<notin> set supported \<Longrightarrow> wl_message ?w = ''no mutually supported peer protocol''"
    by (simp_all add: server_welcome_def Let_def accepted_client_hello) (simp add: client_hello_def)
  have c: "cres = and_then (check_welcome p ?w) (\<lambda>x. Inr (x, rc'))"
    using client send_c rc' by (simp add: client_handshake_def with_handshake_timeout_def)
  have s: "sres = (if wl_accepted ?w = None then Inl (HandshakeRejected (wl_message ?w)) else Inr (?h, rs'))"
    using server send_s rs' by (simp add: server_handshake_def with_handshake_timeout_def Let_def)
  show ?thesis
    unfolding c s check_welcome_def using w by auto
qed

definition sample_build :: build_info where
  "sample_build = \<lparr>bi_version = ''1'', bi_os = ''linux'', bi_arch = ''x''\<rparr>"

definition sample_hello :: PeerHello where
  "sample_hello = client_hello sample_build ''c'' TlsTcpP"

definition sample_welcome :: PeerWelcome where
  "sample_welcome = server_welcome sample_build ''s'' [QuicP, TlsTcpP] sample_hello"

definition sample_writer :: writer where
  "sample_writer = \<lparr>written = [], accepts = [], flush_fault = False\<rparr>"

definition sample_reader :: "byte list \<Rightarrow> reader" where
  "sample_reader payload = \<lparr>chunks = map (\<lambda>b. [b]) (handshake_wire payload), fault = False\<rparr>"

lemma sample_facts:
  "Some sample_hello = Some (client_hello sample_build ''c'' TlsTcpP)"
  "Some sample_welcome = Some (server_welcome sample_build ''s'' [QuicP, TlsTcpP] (client_hello sample_build ''c'' TlsTcpP))"
  "length [b :: byte] \<le> MAX_HANDSHAKE" "accepts sample_writer = []" "\<not> flush_fault sample_writer" "written sample_writer = []"
  by (simp_all add: sample_hello_def sample_welcome_def sample_writer_def MAX_HANDSHAKE_def)

lemma sample_streams:
  obtains cres wc' sres ws' where
    "client_handshake (\<lambda>_. [1]) (\<lambda>_. Some sample_welcome) sample_build False False ''c'' TlsTcpP sample_writer (sample_reader [2]) = (cres, wc')"
    "server_handshake (\<lambda>_. Some sample_hello) (\<lambda>_. [2]) sample_build False False ''s'' [QuicP, TlsTcpP] sample_writer (sample_reader [1]) = (sres, ws')"
    "flat (sample_reader [1]) = written wc'" "flat (sample_reader [2]) = written ws'"
proof -
  have flat: "flat (sample_reader x) = handshake_wire x" for x by (simp add: sample_reader_def flat_def)
  have send: "write_handshake [b] sample_writer = (Inr (), sample_writer\<lparr>written := handshake_wire [b]\<rparr>)" for b
    using write_handshake_ideal [of "[b]" sample_writer] by (simp add: sample_writer_def MAX_HANDSHAKE_def)
  obtain cres wc' where c: "client_handshake (\<lambda>_. [1]) (\<lambda>_. Some sample_welcome) sample_build False False ''c'' TlsTcpP
      sample_writer (sample_reader [2]) = (cres, wc')" by fastforce
  obtain sres ws' where s: "server_handshake (\<lambda>_. Some sample_hello) (\<lambda>_. [2]) sample_build False False ''s'' [QuicP, TlsTcpP]
      sample_writer (sample_reader [1]) = (sres, ws')" by fastforce
  obtain rd' where "read_handshake (\<lambda>_. Some sample_hello) (sample_reader [1]) = Inr (sample_hello, rd')"
    using iffD2 [OF read_handshake_iff [of "\<lambda>_. Some sample_hello" "sample_reader [1]" sample_hello "[]"]
        exI [of _ "[1]"]]
    by (simp add: flat MAX_HANDSHAKE_def) blast
  then have "written ws' = handshake_wire [2]"
    using s by (auto simp: server_handshake_def with_handshake_timeout_def send Let_def)
  moreover have "written wc' = handshake_wire [1]"
    using c by (auto simp: client_handshake_def send)
  ultimately show thesis using that [OF c s] by (simp add: flat)
qed

text \<open>
  C7. Two peers that are connected by any transport, with short writes, faults and timeouts at the server, agree:
  if the client's handshake succeeds, then the server supports the client's protocol, the welcome the client holds is
  the server's own answer to the hello the client sent, and no byte of the server's side is left over.
\<close>

theorem peer_handshake_agreement:
  assumes hello_json: "dec_hello (enc_hello (client_hello bc cnode p)) = Some (client_hello bc cnode p)"
    and welcome_json: "dec_welcome (enc_welcome (server_welcome bs snode supported (client_hello bc cnode p))) =
      Some (server_welcome bs snode supported (client_hello bc cnode p))"
    and client: "client_handshake enc_hello dec_welcome bc late1 late2 cnode p wc rc = (Inr (welcome, rc'), wc')"
    and server: "server_handshake dec_hello enc_welcome bs late3 late4 snode supported ws rs = (sres, ws')"
    and up: "flat rs = written wc'" "written wc = []"
    and down: "flat rc = written ws'" "written ws = []"
  shows "p \<in> set supported \<and> welcome = server_welcome bs snode supported (client_hello bc cnode p) \<and> flat rc' = []"
proof -
  let ?hello = "client_hello bc cnode p"
  from client have sent: "write_handshake (enc_hello ?hello) wc = (Inr (), wc')"
    and got: "read_handshake dec_welcome rc = Inr (welcome, rc')" and ok: "check_welcome p welcome = Inr welcome"
    by (auto simp: client_handshake_def with_handshake_timeout_def check_welcome_def result_simps
        split: prod.splits if_splits sum.splits option.splits)
  note fits = write_handshake_ok [OF sent]
  from got obtain payload where payload: "length payload \<le> MAX_HANDSHAKE" "dec_welcome payload = Some welcome"
      "flat rc = handshake_wire payload @ flat rc'"
    using read_handshake_iff [of dec_welcome rc "welcome" "flat rc'"] by blast
  have "HANDSHAKE_MAGIC \<noteq> []" by (simp add: HANDSHAKE_MAGIC_def)
  with payload(3) down have "written ws' \<noteq> []" by (simp add: handshake_wire_def)
  with server down(2) obtain h rs' where h: "read_handshake dec_hello rs = Inr (h, rs')"
      and wrote: "\<exists>r. write_handshake (enc_welcome (server_welcome bs snode supported h)) ws = (r, ws')"
    by (auto simp: server_handshake_def with_handshake_timeout_def Let_def split: if_splits sum.splits prod.splits)
  from h obtain q where q: "length q \<le> MAX_HANDSHAKE" "dec_hello q = Some h" "flat rs = handshake_wire q @ flat rs'"
    using read_handshake_iff [of dec_hello rs h "flat rs'"] by blast
  have "q = enc_hello ?hello"
    using handshake_wire_prefix [OF q(1) fits(1), of "flat rs'" "length (handshake_wire (enc_hello ?hello))" "[]"] q(3) up fits(2)
    by simp
  with q(2) hello_json have h_eq: "h = ?hello" by simp
  let ?w = "server_welcome bs snode supported ?hello"
  obtain n where n: "written ws' = take n (handshake_wire (enc_welcome ?w))" "length (enc_welcome ?w) > MAX_HANDSHAKE \<longrightarrow> n = 0"
    using wrote write_handshake_front [of "enc_welcome ?w" ws] h_eq down(2) by fastforce
  with \<open>written ws' \<noteq> []\<close> have len: "length (enc_welcome ?w) \<le> MAX_HANDSHAKE" by (cases "n = 0") auto
  have "payload = enc_welcome ?w \<and> flat rc' = []"
    using handshake_wire_prefix [OF payload(1) len, of "flat rc'" n "[]"] payload(3) down(1) n(1) by simp
  with payload(2) welcome_json have answer: "welcome = ?w" "flat rc' = []" by auto
  moreover have "p \<in> set supported"
    using ok answer(1) accepted_client_hello [of bc cnode p supported]
    by (auto simp: check_welcome_def server_welcome_def Let_def split: if_splits)
  ultimately show ?thesis by simp
qed

theorem peer_handshake_agreement_witness:
  "\<exists>rc' wc'. client_handshake (\<lambda>_. [1]) (\<lambda>_. Some sample_welcome) sample_build False False ''c'' TlsTcpP sample_writer
      (sample_reader [2]) = (Inr (sample_welcome, rc'), wc') \<and> flat rc' = [] \<and> TlsTcpP \<in> set [QuicP, TlsTcpP]"
proof -
  obtain cres wc' sres ws' where runs:
    "client_handshake (\<lambda>_. [1]) (\<lambda>_. Some sample_welcome) sample_build False False ''c'' TlsTcpP sample_writer (sample_reader [2]) = (cres, wc')"
    "server_handshake (\<lambda>_. Some sample_hello) (\<lambda>_. [2]) sample_build False False ''s'' [QuicP, TlsTcpP] sample_writer (sample_reader [1]) = (sres, ws')"
    "flat (sample_reader [1]) = written wc'" "flat (sample_reader [2]) = written ws'" by (rule sample_streams)
  obtain rc' where rc': "cres = Inr (sample_welcome, rc')"
    using handshake_runs [OF sample_facts(1,2,3,3,4,5,4,5) runs(1,2) sample_facts(6,6) runs(3,4)] sample_facts(2) by auto
  with runs show ?thesis
    using peer_handshake_agreement [OF sample_facts(1,2) runs(1) [unfolded rc'] runs(2,3) sample_facts(6) runs(4) sample_facts(6)]
    by auto
qed

text \<open>
  C14. Between a client and a server on a transport that takes all bytes, with messages that fit, the handshake always
  ends: both ends succeed when the server supports the client's protocol, however the bytes are chunked, and otherwise
  both report an error.
\<close>

theorem peer_handshake_completes:
  assumes hello_json: "dec_hello (enc_hello (client_hello bc cnode p)) = Some (client_hello bc cnode p)"
    and welcome_json: "dec_welcome (enc_welcome (server_welcome bs snode supported (client_hello bc cnode p))) =
      Some (server_welcome bs snode supported (client_hello bc cnode p))"
    and fits: "length (enc_hello (client_hello bc cnode p)) \<le> MAX_HANDSHAKE"
      "length (enc_welcome (server_welcome bs snode supported (client_hello bc cnode p))) \<le> MAX_HANDSHAKE"
    and ideal: "accepts wc = []" "\<not> flush_fault wc" "accepts ws = []" "\<not> flush_fault ws"
    and client: "client_handshake enc_hello dec_welcome bc False False cnode p wc rc = (cres, wc')"
    and server: "server_handshake dec_hello enc_welcome bs False False snode supported ws rs = (sres, ws')"
    and links: "written wc = []" "written ws = []" "flat rs = written wc'" "flat rc = written ws'"
  shows "(if p \<in> set supported
     then (\<exists>rc' rs'. cres = Inr (server_welcome bs snode supported (client_hello bc cnode p), rc') \<and>
       sres = Inr (client_hello bc cnode p, rs'))
     else cres = Inl (RejectedByPeer ''no mutually supported peer protocol'') \<and>
       sres = Inl (HandshakeRejected ''no mutually supported peer protocol''))"
  using assms by (rule handshake_runs)

theorem peer_handshake_completes_witness:
  "\<exists>rc' wc'. client_handshake (\<lambda>_. [1]) (\<lambda>_. Some sample_welcome) sample_build False False ''c'' TlsTcpP sample_writer
      (sample_reader [2]) = (Inr (sample_welcome, rc'), wc')"
proof -
  obtain cres wc' sres ws' where runs:
    "client_handshake (\<lambda>_. [1]) (\<lambda>_. Some sample_welcome) sample_build False False ''c'' TlsTcpP sample_writer (sample_reader [2]) = (cres, wc')"
    "server_handshake (\<lambda>_. Some sample_hello) (\<lambda>_. [2]) sample_build False False ''s'' [QuicP, TlsTcpP] sample_writer (sample_reader [1]) = (sres, ws')"
    "flat (sample_reader [1]) = written wc'" "flat (sample_reader [2]) = written ws'" by (rule sample_streams)
  then show ?thesis
    using peer_handshake_completes [OF sample_facts(1,2,3,3,4,5,4,5) runs(1,2) sample_facts(6,6) runs(3,4)] sample_facts(2) by auto
qed

lemma protocol_round_trip: "protocol_from_str (protocol_show p) = Some p"
proof -
  have "list_all (\<lambda>p. protocol_from_str (protocol_show p) = Some p)
    [SshNativeP, QuicNativeP, QuicP, TlsTcpP, TcpP, SshDirectP, SshExecP]" by code_simp
  then show ?thesis by (cases p) simp_all
qed

lemma auto_never_plain: "\<not> nh_allow_plain_tcp h \<Longrightarrow> TcpP \<notin> pe_protocol ` set (auto_candidates h)"
  by (auto simp: auto_candidates_def split: option.splits)

lemma min_word_eq_0: "min x c = (0 :: 'a :: len word) \<longleftrightarrow> x = 0 \<or> c = 0"
  by (auto simp: min_def)

lemma quic_options_validate_idem: "quic_options_validate q = Inr q' \<Longrightarrow> quic_options_validate q' = Inr q'"
  by (auto simp: quic_options_validate_def min_word_eq_0 split: if_splits)

end
