(* ===== verification/Session_Pool.thy ===== *)
theory Session_Pool
  imports Route_Decision
begin

text \<open>
  The pool of SSH sessions that carries the flows of an \<^verbatim>\<open>ssh-native\<close> route (\<^verbatim>\<open>ssh_native.rs\<close>,
  \<^verbatim>\<open>ssh_native/scheduler.rs\<close>, \<^verbatim>\<open>ssh_native/metrics_guard.rs\<close>): how a session is chosen, and how the channel counters
  follow the streams while calls run, fail and are cancelled.  Connecting to a host and opening a channel are
  inputs; counters have the width of their atomics and wrap.  A step is the code between two suspension points of
  a call; the lock of the session list is held while a new session connects, other calls may go on meanwhile.
\<close>

section \<open>Scores\<close>

definition sat_add :: "u64 \<Rightarrow> u64 \<Rightarrow> u64" where
  "sat_add a b = (if unat a + unat b < 2 ^ 64 then a + b else - 1)"

definition sat_mul :: "u64 \<Rightarrow> u64 \<Rightarrow> u64" where
  "sat_mul a b = (if unat a * unat b < 2 ^ 64 then a * b else - 1)"

definition sat_sub :: "u64 \<Rightarrow> u64 \<Rightarrow> u64" where
  "sat_sub a b = (if b \<le> a then a - b else 0)"

definition RECENT_FAILURE_WINDOW_MS :: u64 where "RECENT_FAILURE_WINDOW_MS = 30000"
definition SSH_SESSION_GROWTH_MIN_ACTIVE_CHANNELS :: u32 where "SSH_SESSION_GROWTH_MIN_ACTIVE_CHANNELS = 2"

record SessionScoreComponents =
  sk_active_channels :: u64
  sk_open_failures :: u64
  sk_last_open_latency_ms :: u64
  sk_first_byte_latency_ms :: u64
  sk_bytes_in_flight :: u64
  sk_recent_failure_penalty :: u64
  sk_error_closes :: u64

definition calculate_session_score :: "SessionScoreComponents \<Rightarrow> u64" where
  "calculate_session_score c =
    sat_add (sat_add (sat_add (sat_add (sat_add (sat_add
      (sat_mul (sk_active_channels c) 10000)
      (sat_mul (sk_open_failures c) 1000))
      (sat_mul (sk_error_closes c) 750))
      (min (sk_last_open_latency_ms c) 5000))
      (min (sk_first_byte_latency_ms c) 5000))
      (sk_bytes_in_flight c div (1024 * 1024)))
      (sk_recent_failure_penalty c)"

definition should_open_new_session :: "nat \<Rightarrow> nat \<Rightarrow> u32 \<Rightarrow> bool" where
  "should_open_new_session existing pool_size min_active \<longleftrightarrow>
    existing = 0 \<or> existing < pool_size \<and> SSH_SESSION_GROWTH_MIN_ACTIVE_CHANNELS \<le> min_active"

section \<open>First-byte latencies\<close>

definition duration_millis :: "nat \<Rightarrow> u64" where
  "duration_millis ms = (if ms < 2 ^ 64 then of_nat ms else - 1)"

definition FIRST_BYTE_LATENCY_BUCKETS :: "u64 list" where
  "FIRST_BYTE_LATENCY_BUCKETS = [10, 25, 50, 100, 250, 500, 1000, 5000]"

record LatencySamples =
  la_samples :: u64
  la_total_ms :: u64
  la_last_ms :: u64
  la_max_ms :: u64
  la_buckets :: "u64 list"

definition no_samples :: LatencySamples where
  "no_samples = \<lparr>la_samples = 0, la_total_ms = 0, la_last_ms = 0, la_max_ms = 0,
    la_buckets = replicate (length FIRST_BYTE_LATENCY_BUCKETS + 1) 0\<rparr>"

fun position :: "('a \<Rightarrow> bool) \<Rightarrow> 'a list \<Rightarrow> nat option" where
  "position q [] = None"
| "position q (x # xs) = (if q x then Some 0 else map_option Suc (position q xs))"

definition latency_bucket :: "u64 \<Rightarrow> nat" where
  "latency_bucket ms = unwrap_or (position (\<lambda>limit. ms \<le> limit) FIRST_BYTE_LATENCY_BUCKETS) (length FIRST_BYTE_LATENCY_BUCKETS)"

definition record_latency_sample :: "u64 \<Rightarrow> LatencySamples \<Rightarrow> LatencySamples" where
  "record_latency_sample ms l =
    (let b = latency_bucket ms in
     l\<lparr>la_samples := la_samples l + 1, la_total_ms := la_total_ms l + ms, la_last_ms := ms,
       la_max_ms := max (la_max_ms l) ms, la_buckets := (la_buckets l)[b := la_buckets l ! b + 1]\<rparr>)"

definition last_sampled_u64 :: "u64 \<Rightarrow> u64 \<Rightarrow> u64 option" where
  "last_sampled_u64 samples v = (if samples > 0 then Some v else None)"

definition average_sampled_u64 :: "u64 \<Rightarrow> u64 \<Rightarrow> u64 option" where
  "average_sampled_u64 samples sum_ms = (if samples = 0 then None else Some (sum_ms div samples))"

definition div_ceil :: "u64 \<Rightarrow> u64 \<Rightarrow> u64" where
  "div_ceil a b = (if a mod b = 0 then a div b else a div b + 1)"

fun percentile_scan :: "u64 \<Rightarrow> u64 \<Rightarrow> nat \<Rightarrow> u64 list \<Rightarrow> u64" where
  "percentile_scan target seen index [] = - 1"
| "percentile_scan target seen index (b # bs) =
    (let seen = sat_add seen b in
     if target \<le> seen
     then (if index < length FIRST_BYTE_LATENCY_BUCKETS then FIRST_BYTE_LATENCY_BUCKETS ! index else - 1)
     else percentile_scan target seen (Suc index) bs)"

definition latency_percentile :: "u64 list \<Rightarrow> u64 \<Rightarrow> u64 \<Rightarrow> u64 option" where
  "latency_percentile buckets sample_count percentile =
    (if sample_count = 0 then None
     else Some (percentile_scan (div_ceil (sat_mul sample_count percentile) 100) 0 0 buckets))"

section \<open>State\<close>

record Session =
  ss_id :: u32
  ss_active_channels :: u32
  ss_opened_channels :: u64
  ss_open_failures :: u64
  ss_last_open_latency_ms :: u64
  ss_last_failure_elapsed_ms :: u64
  ss_bytes_client_to_remote :: u64
  ss_bytes_remote_to_client :: u64
  ss_first_byte :: LatencySamples
  ss_graceful_closes :: u64
  ss_error_closes :: u64
  ss_last_close_reason :: "string option"
  ss_last_channel_queue_depth :: u64
  ss_max_channel_queue_depth :: u64

record PoolState =
  po_sessions :: "Session list"
  po_pool_size :: nat
  po_next_session_id :: u32
  po_tcp_open_attempts :: u64
  po_tcp_open_successes :: u64
  po_tcp_open_failures :: u64
  po_last_tcp_open_latency_ms :: u64
  po_ssh_session_connect_attempts :: u64
  po_ssh_session_connect_failures :: u64
  po_ssh_channel_open_attempts :: u64
  po_ssh_channel_open_failures :: u64
  po_active_ssh_channels :: u64
  po_total_tcp :: u64
  po_active_tcp :: u64
  po_bytes_client_to_remote :: u64
  po_bytes_remote_to_client :: u64
  po_first_byte :: LatencySamples
  po_graceful_closes :: u64
  po_error_closes :: u64
  po_last_close_reason :: "string option"
  po_session_growth_events :: u64
  po_session_growth_suppressed :: u64
  po_last_channel_queue_depth :: u64
  po_max_channel_queue_depth :: u64
  po_last_error :: "string option"

text \<open>A stream names its session by its place in the list, which only grows.\<close>

record Stream =
  sm_session :: nat
  sm_first_byte_recorded :: bool
  sm_close_recorded :: bool

definition pool_new :: "nat option \<Rightarrow> bool \<Rightarrow> PoolState" where
  "pool_new configured fixed_target =
    \<lparr>po_sessions = [], po_pool_size = max (unwrap_or configured (if fixed_target then 1 else 2)) 1,
     po_next_session_id = 1, po_tcp_open_attempts = 0, po_tcp_open_successes = 0, po_tcp_open_failures = 0,
     po_last_tcp_open_latency_ms = 0, po_ssh_session_connect_attempts = 0, po_ssh_session_connect_failures = 0,
     po_ssh_channel_open_attempts = 0, po_ssh_channel_open_failures = 0, po_active_ssh_channels = 0,
     po_total_tcp = 0, po_active_tcp = 0, po_bytes_client_to_remote = 0, po_bytes_remote_to_client = 0,
     po_first_byte = no_samples, po_graceful_closes = 0, po_error_closes = 0, po_last_close_reason = None,
     po_session_growth_events = 0, po_session_growth_suppressed = 0, po_last_channel_queue_depth = 0,
     po_max_channel_queue_depth = 0, po_last_error = None\<rparr>"

definition session_new :: "u32 \<Rightarrow> Session" where
  "session_new sid =
    \<lparr>ss_id = sid, ss_active_channels = 0, ss_opened_channels = 0, ss_open_failures = 0, ss_last_open_latency_ms = 0,
     ss_last_failure_elapsed_ms = 0, ss_bytes_client_to_remote = 0, ss_bytes_remote_to_client = 0,
     ss_first_byte = no_samples, ss_graceful_closes = 0, ss_error_closes = 0, ss_last_close_reason = None,
     ss_last_channel_queue_depth = 0, ss_max_channel_queue_depth = 0\<rparr>"

definition update_session :: "nat \<Rightarrow> (Session \<Rightarrow> Session) \<Rightarrow> PoolState \<Rightarrow> PoolState" where
  "update_session i f p = p\<lparr>po_sessions := (po_sessions p)[i := f (po_sessions p ! i)]\<rparr>"

section \<open>Choosing a session\<close>

definition failure_age_ms :: "Session \<Rightarrow> u64 \<Rightarrow> u64 option" where
  "failure_age_ms s now =
    (let failed_at = ss_last_failure_elapsed_ms s in
     if failed_at > 0 then Some (sat_sub now (sat_sub failed_at 1)) else None)"

definition session_score_components :: "u64 \<Rightarrow> Session \<Rightarrow> SessionScoreComponents" where
  "session_score_components now s =
    \<lparr>sk_active_channels = ucast (ss_active_channels s),
     sk_open_failures = ss_open_failures s,
     sk_last_open_latency_ms = ss_last_open_latency_ms s,
     sk_first_byte_latency_ms = unwrap_or (last_sampled_u64 (la_samples (ss_first_byte s)) (la_last_ms (ss_first_byte s))) 0,
     sk_bytes_in_flight = sat_add (ss_bytes_client_to_remote s) (ss_bytes_remote_to_client s),
     sk_recent_failure_penalty =
       (case failure_age_ms s now of
          Some age \<Rightarrow> if age < RECENT_FAILURE_WINDOW_MS then sat_add (sat_sub RECENT_FAILURE_WINDOW_MS age) 10000 else 0
        | None \<Rightarrow> 0),
     sk_error_closes = ss_error_closes s\<rparr>"

definition session_score :: "u64 \<Rightarrow> Session \<Rightarrow> u64" where
  "session_score now s = calculate_session_score (session_score_components now s)"

text \<open>\<^verbatim>\<open>Iterator::min_by_key\<close>: the first of the least elements, as an index.\<close>

fun min_index :: "('a \<Rightarrow> u64) \<Rightarrow> 'a list \<Rightarrow> nat option" where
  "min_index f [] = None"
| "min_index f (x # xs) =
    (case min_index f xs of
       None \<Rightarrow> Some 0
     | Some j \<Rightarrow> if f x \<le> f (xs ! j) then Some 0 else Some (Suc j))"

fun min_active :: "Session list \<Rightarrow> u32" where
  "min_active [] = 0"
| "min_active [s] = ss_active_channels s"
| "min_active (s # ss) = min (ss_active_channels s) (min_active ss)"

definition acquire_session_channel :: "nat \<Rightarrow> PoolState \<Rightarrow> PoolState" where
  "acquire_session_channel i p =
    (let depth = ucast (ss_active_channels (po_sessions p ! i)) in
     update_session i (\<lambda>s. s\<lparr>ss_active_channels := ss_active_channels s + 1, ss_last_channel_queue_depth := depth,
         ss_max_channel_queue_depth := max (ss_max_channel_queue_depth s) depth\<rparr>)
       (p\<lparr>po_active_ssh_channels := po_active_ssh_channels p + 1,
          po_ssh_channel_open_attempts := po_ssh_channel_open_attempts p + 1,
          po_last_channel_queue_depth := depth,
          po_max_channel_queue_depth := max (po_max_channel_queue_depth p) depth\<rparr>))"

datatype choice = Connect u32 | Use nat | PoolEmpty

text \<open>The part of \<^verbatim>\<open>session\<close> up to the connect, or to its end when no session is opened.\<close>

definition session_choose :: "nat \<Rightarrow> PoolState \<Rightarrow> choice \<times> PoolState" where
  "session_choose elapsed p =
    (let n = length (po_sessions p);
         m = min_active (po_sessions p);
         all_sessions_busy = (po_sessions p \<noteq> [] \<and> m > 0);
         p = (if n > 0 \<and> n < po_pool_size p \<and> all_sessions_busy \<and> m < SSH_SESSION_GROWTH_MIN_ACTIVE_CHANNELS
              then p\<lparr>po_session_growth_suppressed := po_session_growth_suppressed p + 1\<rparr> else p) in
     if should_open_new_session n (po_pool_size p) m
     then (Connect (po_next_session_id p),
           p\<lparr>po_ssh_session_connect_attempts := po_ssh_session_connect_attempts p + 1,
             po_next_session_id := po_next_session_id p + 1\<rparr>)
     else case min_index (session_score (duration_millis elapsed)) (po_sessions p) of
       None \<Rightarrow> (PoolEmpty, p)
     | Some i \<Rightarrow> (Use i, acquire_session_channel i p))"

definition session_connect_failed :: "PoolState \<Rightarrow> PoolState" where
  "session_connect_failed p = p\<lparr>po_ssh_session_connect_failures := po_ssh_session_connect_failures p + 1\<rparr>"

definition session_connected :: "u32 \<Rightarrow> PoolState \<Rightarrow> PoolState" where
  "session_connected sid p =
    acquire_session_channel (length (po_sessions p))
      (p\<lparr>po_sessions := po_sessions p @ [session_new sid], po_session_growth_events := po_session_growth_events p + 1\<rparr>)"

section \<open>Opening a stream\<close>

definition set_last_error :: "string option \<Rightarrow> PoolState \<Rightarrow> PoolState" where
  "set_last_error err p = p\<lparr>po_last_error := err\<rparr>"

text \<open>What an armed guard does when it is dropped; the end of a stream does the same.\<close>

definition release_channel :: "nat \<Rightarrow> PoolState \<Rightarrow> PoolState" where
  "release_channel i p =
    update_session i (\<lambda>s. s\<lparr>ss_active_channels := ss_active_channels s - 1\<rparr>)
      (p\<lparr>po_active_ssh_channels := po_active_ssh_channels p - 1\<rparr>)"

definition opened_channel :: "nat \<Rightarrow> nat \<Rightarrow> PoolState \<Rightarrow> PoolState" where
  "opened_channel i took p =
    update_session i (\<lambda>s. s\<lparr>ss_opened_channels := ss_opened_channels s + 1, ss_last_open_latency_ms := duration_millis took\<rparr>) p"

definition open_failed :: "nat \<Rightarrow> nat \<Rightarrow> PoolState \<Rightarrow> PoolState" where
  "open_failed i elapsed p =
    update_session i (\<lambda>s. s\<lparr>ss_open_failures := ss_open_failures s + 1,
        ss_last_failure_elapsed_ms := sat_add (duration_millis elapsed) 1\<rparr>)
      (p\<lparr>po_ssh_channel_open_failures := po_ssh_channel_open_failures p + 1\<rparr>)"

definition new_stream :: "nat \<Rightarrow> Stream" where
  "new_stream i = \<lparr>sm_session = i, sm_first_byte_recorded = False, sm_close_recorded = False\<rparr>"

section \<open>Using and closing a stream\<close>

definition record_first_byte_latency :: "nat \<Rightarrow> nat \<Rightarrow> PoolState \<Rightarrow> PoolState" where
  "record_first_byte_latency i took p =
    (let ms = duration_millis took in
     update_session i (\<lambda>s. s\<lparr>ss_first_byte := record_latency_sample ms (ss_first_byte s)\<rparr>)
       (p\<lparr>po_first_byte := record_latency_sample ms (po_first_byte p)\<rparr>))"

text \<open>A read that is ready with \<open>got\<close> new bytes, \<open>took\<close> milliseconds after the stream was opened.\<close>

definition poll_read :: "nat \<Rightarrow> nat \<Rightarrow> Stream \<Rightarrow> PoolState \<Rightarrow> Stream \<times> PoolState" where
  "poll_read got took st p =
    (if got > 0 \<and> \<not> sm_first_byte_recorded st
     then (st\<lparr>sm_first_byte_recorded := True\<rparr>, record_first_byte_latency (sm_session st) took p)
     else (st, p))"

definition record_client_to_remote_bytes :: "nat \<Rightarrow> nat \<Rightarrow> PoolState \<Rightarrow> PoolState" where
  "record_client_to_remote_bytes i n p =
    update_session i (\<lambda>s. s\<lparr>ss_bytes_client_to_remote := ss_bytes_client_to_remote s + of_nat n\<rparr>)
      (p\<lparr>po_bytes_client_to_remote := po_bytes_client_to_remote p + of_nat n\<rparr>)"

definition record_remote_to_client_bytes :: "nat \<Rightarrow> nat \<Rightarrow> PoolState \<Rightarrow> PoolState" where
  "record_remote_to_client_bytes i n p =
    update_session i (\<lambda>s. s\<lparr>ss_bytes_remote_to_client := ss_bytes_remote_to_client s + of_nat n\<rparr>)
      (p\<lparr>po_bytes_remote_to_client := po_bytes_remote_to_client p + of_nat n\<rparr>)"

datatype CloseKind = GracefulClose | ErrorClose

definition record_close :: "CloseKind \<Rightarrow> string \<Rightarrow> Stream \<Rightarrow> PoolState \<Rightarrow> Stream \<times> PoolState" where
  "record_close kind reason st p =
    (if sm_close_recorded st then (st, p)
     else
       (let p = (case kind of
                   GracefulClose \<Rightarrow> update_session (sm_session st) (\<lambda>s. s\<lparr>ss_graceful_closes := ss_graceful_closes s + 1\<rparr>)
                     (p\<lparr>po_graceful_closes := po_graceful_closes p + 1\<rparr>)
                 | ErrorClose \<Rightarrow> update_session (sm_session st) (\<lambda>s. s\<lparr>ss_error_closes := ss_error_closes s + 1\<rparr>)
                     (p\<lparr>po_error_closes := po_error_closes p + 1\<rparr>)) in
        (st\<lparr>sm_close_recorded := True\<rparr>,
         update_session (sm_session st) (\<lambda>s. s\<lparr>ss_last_close_reason := Some reason\<rparr>)
           (p\<lparr>po_last_close_reason := Some reason\<rparr>))))"

definition drop_stream :: "Stream \<Rightarrow> PoolState \<Rightarrow> PoolState" where
  "drop_stream st p =
    release_channel (sm_session st)
      (if \<not> sm_close_recorded st then snd (record_close ErrorClose ''dropped before relay recorded close'' st p) else p)"

section \<open>Counters of the proxy connections\<close>

definition record_tcp_open :: "PoolState \<Rightarrow> PoolState" where
  "record_tcp_open p = p\<lparr>po_total_tcp := po_total_tcp p + 1, po_active_tcp := po_active_tcp p + 1\<rparr>"

definition record_tcp_close :: "PoolState \<Rightarrow> PoolState" where
  "record_tcp_close p = p\<lparr>po_active_tcp := po_active_tcp p - 1\<rparr>"

definition record_tcp_open_attempt :: "PoolState \<Rightarrow> PoolState" where
  "record_tcp_open_attempt p = p\<lparr>po_tcp_open_attempts := po_tcp_open_attempts p + 1\<rparr>"

definition record_tcp_open_success :: "PoolState \<Rightarrow> PoolState" where
  "record_tcp_open_success p = set_last_error None (p\<lparr>po_tcp_open_successes := po_tcp_open_successes p + 1\<rparr>)"

definition record_tcp_open_failure :: "string \<Rightarrow> PoolState \<Rightarrow> PoolState" where
  "record_tcp_open_failure err p = set_last_error (Some err) (p\<lparr>po_tcp_open_failures := po_tcp_open_failures p + 1\<rparr>)"

definition record_tcp_open_latency :: "nat \<Rightarrow> PoolState \<Rightarrow> PoolState" where
  "record_tcp_open_latency took p = p\<lparr>po_last_tcp_open_latency_ms := duration_millis took\<rparr>"

section \<open>Calls running side by side\<close>

text \<open>Where a call of \<^verbatim>\<open>open_stream\<close> is suspended, or what became of it.\<close>

datatype call =
    Connecting u32           \<comment> \<open>connecting a new session, holding the lock of the list\<close>
  | Unconnected string       \<comment> \<open>the connect failed, about to store the error, still holding the lock\<close>
  | Opening nat              \<comment> \<open>opening the channel, the guard armed\<close>
  | Failing nat string       \<comment> \<open>the open failed, about to store the error, the guard armed\<close>
  | Finishing nat            \<comment> \<open>the channel is open, about to clear the error, the guard disarmed\<close>
  | Streaming Stream         \<comment> \<open>returned, the caller holds the stream\<close>
  | Ended
  | Abandoned nat            \<comment> \<open>dropped while \<open>Finishing\<close>\<close>

type_synonym pool_system = "PoolState \<times> call list"

fun holds_lock :: "call \<Rightarrow> bool" where
  "holds_lock (Connecting _) = True"
| "holds_lock (Unconnected _) = True"
| "holds_lock _ = False"

inductive pool_step :: "pool_system \<Rightarrow> pool_system \<Rightarrow> bool" where
  reuse: "list_all (\<lambda>c. \<not> holds_lock c) cs \<Longrightarrow> session_choose now p = (Use i, p') \<Longrightarrow>
    pool_step (p, cs) (p', cs @ [Opening i])"
| connect: "list_all (\<lambda>c. \<not> holds_lock c) cs \<Longrightarrow> session_choose now p = (Connect sid, p') \<Longrightarrow>
    pool_step (p, cs) (p', cs @ [Connecting sid])"
| no_session: "list_all (\<lambda>c. \<not> holds_lock c) cs \<Longrightarrow> session_choose now p = (PoolEmpty, p') \<Longrightarrow>
    pool_step (p, cs) (p', cs @ [Ended])"
| connected: "k < length cs \<Longrightarrow> cs ! k = Connecting sid \<Longrightarrow>
    pool_step (p, cs) (session_connected sid p, cs[k := Opening (length (po_sessions p))])"
| unconnected: "k < length cs \<Longrightarrow> cs ! k = Connecting sid \<Longrightarrow>
    pool_step (p, cs) (session_connect_failed p, cs[k := Unconnected err])"
| connect_error: "k < length cs \<Longrightarrow> cs ! k = Unconnected err \<Longrightarrow>
    pool_step (p, cs) (set_last_error (Some err) p, cs[k := Ended])"
| opened: "k < length cs \<Longrightarrow> cs ! k = Opening i \<Longrightarrow>
    pool_step (p, cs) (opened_channel i took p, cs[k := Finishing i])"
| failed: "k < length cs \<Longrightarrow> cs ! k = Opening i \<Longrightarrow>
    pool_step (p, cs) (open_failed i now p, cs[k := Failing i err])"
| finished: "k < length cs \<Longrightarrow> cs ! k = Finishing i \<Longrightarrow>
    pool_step (p, cs) (set_last_error None p, cs[k := Streaming (new_stream i)])"
| open_error: "k < length cs \<Longrightarrow> cs ! k = Failing i err \<Longrightarrow>
    pool_step (p, cs) (release_channel i (set_last_error (Some err) p), cs[k := Ended])"
| read: "k < length cs \<Longrightarrow> cs ! k = Streaming st \<Longrightarrow> poll_read got took st p = (st', p') \<Longrightarrow>
    pool_step (p, cs) (p', cs[k := Streaming st'])"
| sent: "k < length cs \<Longrightarrow> cs ! k = Streaming st \<Longrightarrow>
    pool_step (p, cs) (record_client_to_remote_bytes (sm_session st) n p, cs)"
| received: "k < length cs \<Longrightarrow> cs ! k = Streaming st \<Longrightarrow>
    pool_step (p, cs) (record_remote_to_client_bytes (sm_session st) n p, cs)"
| closed: "k < length cs \<Longrightarrow> cs ! k = Streaming st \<Longrightarrow> record_close kind reason st p = (st', p') \<Longrightarrow>
    pool_step (p, cs) (p', cs[k := Streaming st'])"
| dropped: "k < length cs \<Longrightarrow> cs ! k = Streaming st \<Longrightarrow>
    pool_step (p, cs) (drop_stream st p, cs[k := Ended])"
| drop_locked: "k < length cs \<Longrightarrow> holds_lock (cs ! k) \<Longrightarrow> pool_step (p, cs) (p, cs[k := Ended])"
| drop_opening: "k < length cs \<Longrightarrow> cs ! k = Opening i \<Longrightarrow>
    pool_step (p, cs) (release_channel i p, cs[k := Ended])"
| drop_failing: "k < length cs \<Longrightarrow> cs ! k = Failing i err \<Longrightarrow>
    pool_step (p, cs) (release_channel i p, cs[k := Ended])"
| drop_finishing: "k < length cs \<Longrightarrow> cs ! k = Finishing i \<Longrightarrow>
    pool_step (p, cs) (p, cs[k := Abandoned i])"

inductive pool_reach :: "nat option \<Rightarrow> bool \<Rightarrow> pool_system \<Rightarrow> bool" for configured fixed_target where
  start: "pool_reach configured fixed_target (pool_new configured fixed_target, [])"
| step: "pool_reach configured fixed_target s \<Longrightarrow> pool_step s t \<Longrightarrow> pool_reach configured fixed_target t"

text \<open>The session a call counts for.\<close>

fun counted :: "call \<Rightarrow> nat option" where
  "counted (Opening i) = Some i"
| "counted (Failing i _) = Some i"
| "counted (Finishing i) = Some i"
| "counted (Streaming st) = Some (sm_session st)"
| "counted (Abandoned i) = Some i"
| "counted _ = None"

definition channels_of :: "nat \<Rightarrow> call list \<Rightarrow> nat" where
  "channels_of i cs = length (filter (\<lambda>c. counted c = Some i) cs)"

definition channels :: "call list \<Rightarrow> nat" where
  "channels cs = length (filter (\<lambda>c. counted c \<noteq> None) cs)"

text \<open>What the accounting depends on: the channel counters and the size of the pool.\<close>

type_synonym pool_counts = "u32 list \<times> u64 \<times> nat"

definition pool_counts :: "PoolState \<Rightarrow> pool_counts" where
  "pool_counts p = (map ss_active_channels (po_sessions p), po_active_ssh_channels p, po_pool_size p)"

fun pool_inv :: "pool_counts \<Rightarrow> call list \<Rightarrow> bool" where
  "pool_inv (actives, active, cap) cs \<longleftrightarrow>
     (\<forall>i < length actives. actives ! i = of_nat (channels_of i cs)) \<and>
     active = of_nat (channels cs) \<and>
     (\<forall>c \<in> set cs. \<forall>i. counted c = Some i \<longrightarrow> i < length actives) \<and>
     length actives + length (filter (\<lambda>c. \<exists>sid. c = Connecting sid) cs) \<le> cap \<and>
     length (filter holds_lock cs) \<le> 1"

section \<open>Lemmas on the pool\<close>

lemma length_filter_update:
  "k < length xs \<Longrightarrow>
    length (filter q (xs[k := y])) + (if q (xs ! k) then 1 else 0) = length (filter q xs) + (if q y then 1 else (0 :: nat))"
proof (induction xs arbitrary: k)
  case (Cons x xs)
  then show ?case by (cases k) auto
qed simp

lemma channels_of_append: "channels_of i (cs @ [c]) = channels_of i cs + (if counted c = Some i then 1 else 0)"
  by (simp add: channels_of_def)

lemma channels_append: "channels (cs @ [c]) = channels cs + (if counted c \<noteq> None then 1 else 0)"
  by (simp add: channels_def)

lemma channels_of_update:
  "k < length cs \<Longrightarrow> channels_of i (cs[k := c]) + (if counted (cs ! k) = Some i then 1 else 0)
     = channels_of i cs + (if counted c = Some i then 1 else 0)"
  unfolding channels_of_def by (rule length_filter_update)

lemma channels_update:
  "k < length cs \<Longrightarrow> channels (cs[k := c]) + (if counted (cs ! k) \<noteq> None then 1 else 0)
     = channels cs + (if counted c \<noteq> None then 1 else 0)"
  unfolding channels_def by (rule length_filter_update)

lemma counts_update_session:
  assumes "\<And>s. ss_active_channels (f s) = ss_active_channels s"
  shows "pool_counts (update_session i f p) = pool_counts p"
proof -
  have "map ss_active_channels ((po_sessions p)[i := f (po_sessions p ! i)]) = map ss_active_channels (po_sessions p)"
    by (cases "i < length (po_sessions p)") (simp_all add: map_update assms list_update_same_conv list_update_beyond)
  then show ?thesis by (simp add: pool_counts_def update_session_def)
qed

lemma counts_fields [simp]:
  "pool_counts (p\<lparr>po_ssh_session_connect_attempts := v0\<rparr>) = pool_counts p"
  "pool_counts (p\<lparr>po_ssh_session_connect_failures := v1\<rparr>) = pool_counts p"
  "pool_counts (p\<lparr>po_next_session_id := v2\<rparr>) = pool_counts p"
  "pool_counts (p\<lparr>po_ssh_channel_open_attempts := v3\<rparr>) = pool_counts p"
  "pool_counts (p\<lparr>po_ssh_channel_open_failures := v4\<rparr>) = pool_counts p"
  "pool_counts (p\<lparr>po_bytes_client_to_remote := v5\<rparr>) = pool_counts p"
  "pool_counts (p\<lparr>po_bytes_remote_to_client := v6\<rparr>) = pool_counts p"
  "pool_counts (p\<lparr>po_first_byte := v7\<rparr>) = pool_counts p"
  "pool_counts (p\<lparr>po_graceful_closes := v8\<rparr>) = pool_counts p"
  "pool_counts (p\<lparr>po_error_closes := v9\<rparr>) = pool_counts p"
  "pool_counts (p\<lparr>po_last_close_reason := v10\<rparr>) = pool_counts p"
  "pool_counts (p\<lparr>po_session_growth_events := v11\<rparr>) = pool_counts p"
  "pool_counts (p\<lparr>po_session_growth_suppressed := v12\<rparr>) = pool_counts p"
  "pool_counts (p\<lparr>po_last_channel_queue_depth := v13\<rparr>) = pool_counts p"
  "pool_counts (p\<lparr>po_max_channel_queue_depth := v14\<rparr>) = pool_counts p"
  "pool_counts (p\<lparr>po_last_error := v15\<rparr>) = pool_counts p"
  by (simp_all add: pool_counts_def)

lemma counts_simps [simp]:
  "pool_counts (set_last_error e p) = pool_counts p"
  "pool_counts (session_connect_failed p) = pool_counts p"
  "pool_counts (opened_channel i took p) = pool_counts p"
  "pool_counts (open_failed i now p) = pool_counts p"
  "pool_counts (record_client_to_remote_bytes i n p) = pool_counts p"
  "pool_counts (record_remote_to_client_bytes i n p) = pool_counts p"
  "pool_counts (record_first_byte_latency i took p) = pool_counts p"
  by (simp_all add: set_last_error_def session_connect_failed_def opened_channel_def open_failed_def
      record_client_to_remote_bytes_def record_remote_to_client_bytes_def record_first_byte_latency_def Let_def
      counts_update_session)

lemma record_close_keeps:
  assumes "record_close kind reason st p = (st', p')"
  shows "pool_counts p' = pool_counts p" "sm_session st' = sm_session st"
  using assms by (auto simp: record_close_def Let_def counts_update_session split: if_splits CloseKind.splits)

lemma poll_read_keeps:
  assumes "poll_read got took st p = (st', p')"
  shows "pool_counts p' = pool_counts p" "sm_session st' = sm_session st"
  using assms by (auto simp: poll_read_def split: if_splits)

lemma counts_release:
  assumes "pool_counts p = (ws, a, n)" "i < length ws"
  shows "pool_counts (release_channel i p) = (ws[i := ws ! i - 1], a - 1, n)"
  using assms by (auto simp: pool_counts_def release_channel_def update_session_def map_update)

lemma counts_drop_stream:
  assumes "pool_counts p = (ws, a, n)" "sm_session st < length ws"
  shows "pool_counts (drop_stream st p) = (ws[sm_session st := ws ! sm_session st - 1], a - 1, n)"
  unfolding drop_stream_def
  by (rule counts_release) (auto simp: assms record_close_keeps(1)[OF surjective_pairing])

lemma counts_acquire:
  assumes "pool_counts p = (ws, a, n)" "i < length ws"
  shows "pool_counts (acquire_session_channel i p) = (ws[i := ws ! i + 1], a + 1, n)"
  using assms by (auto simp: pool_counts_def acquire_session_channel_def update_session_def map_update Let_def)

lemma counts_connected:
  assumes "pool_counts p = (ws, a, n)"
  shows "pool_counts (session_connected sid p) = (ws @ [1], a + 1, n)"
  using assms by (auto simp: pool_counts_def session_connected_def acquire_session_channel_def update_session_def
      session_new_def Let_def)

lemma min_index_least:
  "min_index f xs = Some i \<Longrightarrow>
    i < length xs \<and> (\<forall>j < length xs. f (xs ! i) \<le> f (xs ! j)) \<and> (\<forall>j < i. f (xs ! i) < f (xs ! j))"
proof (induction xs arbitrary: i)
  case (Cons x xs)
  show ?case
  proof (cases "min_index f xs")
    case None
    then have "xs = []" by (cases xs) (auto split: option.splits if_splits)
    with Cons.prems show ?thesis by simp
  next
    case (Some j)
    from Cons.IH[OF Some] Cons.prems Some show ?thesis
      by (auto simp: nth_Cons less_Suc_eq_0_disj not_le split: if_splits nat.splits
          intro: order_trans less_imp_le)
  qed
qed simp

lemma min_index_None: "min_index f xs = None \<longleftrightarrow> xs = []"
  by (cases xs) (auto split: option.splits)

lemma min_active_le: "s \<in> set ss \<Longrightarrow> min_active ss \<le> ss_active_channels s"
  by (induction ss rule: min_active.induct) (auto simp: min_le_iff_disj)

lemma session_choose_cases:
  assumes "session_choose now p = (c, p')"
  shows "case c of
      Connect sid \<Rightarrow> pool_counts p' = pool_counts p \<and>
        (po_sessions p = [] \<or> length (po_sessions p) < po_pool_size p \<and>
          (\<forall>s \<in> set (po_sessions p). SSH_SESSION_GROWTH_MIN_ACTIVE_CHANNELS \<le> ss_active_channels s))
    | Use i \<Rightarrow> i < length (po_sessions p) \<and> pool_counts p' = pool_counts (acquire_session_channel i p) \<and>
        (\<forall>s \<in> set (po_sessions p). session_score (duration_millis now) (po_sessions p ! i) \<le> session_score (duration_millis now) s) \<and>
        (po_pool_size p \<le> length (po_sessions p) \<or> min_active (po_sessions p) < SSH_SESSION_GROWTH_MIN_ACTIVE_CHANNELS)
    | PoolEmpty \<Rightarrow> False"
proof -
  define q where "q = (if length (po_sessions p) > 0 \<and> length (po_sessions p) < po_pool_size p \<and>
      (po_sessions p \<noteq> [] \<and> min_active (po_sessions p) > 0) \<and> min_active (po_sessions p) < SSH_SESSION_GROWTH_MIN_ACTIVE_CHANNELS
    then p\<lparr>po_session_growth_suppressed := po_session_growth_suppressed p + 1\<rparr> else p)"
  have q: "po_sessions q = po_sessions p" "po_pool_size q = po_pool_size p" "pool_counts q = pool_counts p"
    by (simp_all add: q_def)
  have acq: "pool_counts (acquire_session_channel i q) = pool_counts (acquire_session_channel i p)" for i
    using q by (simp add: pool_counts_def acquire_session_channel_def update_session_def Let_def)
  note choose = assms[unfolded session_choose_def Let_def, folded q_def, unfolded q(1,2)]
  show ?thesis
  proof (cases "should_open_new_session (length (po_sessions p)) (po_pool_size p) (min_active (po_sessions p))")
    case True
    with choose show ?thesis
      by (auto simp: q should_open_new_session_def intro: order_trans[OF _ min_active_le])
  next
    case False
    then have "po_sessions p \<noteq> []" by (auto simp: should_open_new_session_def)
    then obtain i where i: "min_index (session_score (duration_millis now)) (po_sessions p) = Some i"
      by (metis min_index_None not_None_eq)
    from choose False i have "c = Use i" "p' = acquire_session_channel i q" by auto
    with False min_index_least[OF i] show ?thesis
      by (auto simp: acq should_open_new_session_def not_le in_set_conv_nth)
  qed
qed

lemma min_active_below: "i < length ss \<Longrightarrow> min_active ss < m \<Longrightarrow> \<exists>s \<in> set ss. ss_active_channels s < m"
  by (induction ss arbitrary: i rule: min_active.induct) (fastforce simp: min_def split: if_splits)+

text \<open>The ways a step changes the accounting.\<close>

lemma inv_neutral:
  assumes "pool_inv v cs" "k < length cs" "counted c = counted (cs ! k)"
    "holds_lock c \<longrightarrow> holds_lock (cs ! k)" "\<forall>sid. c \<noteq> Connecting sid"
  shows "pool_inv v (cs[k := c])"
proof -
  obtain ws a n where v: "v = (ws, a, n)" by (cases v)
  have "channels_of i (cs[k := c]) = channels_of i cs" for i
    using channels_of_update[OF assms(2), of i c] assms(3) by auto
  moreover have "channels (cs[k := c]) = channels cs"
    using channels_update[OF assms(2), of c] assms(3) by auto
  moreover have "length (filter (\<lambda>c. \<exists>sid. c = Connecting sid) (cs[k := c])) \<le> length (filter (\<lambda>c. \<exists>sid. c = Connecting sid) cs)"
    using length_filter_update[OF assms(2), of "\<lambda>c. \<exists>sid. c = Connecting sid" c] assms(5) by auto
  moreover have "length (filter holds_lock (cs[k := c])) \<le> length (filter holds_lock cs)"
    using length_filter_update[OF assms(2), of holds_lock c] assms(4) by (auto split: if_splits)
  moreover have "\<forall>x \<in> set (cs[k := c]). \<forall>i. counted x = Some i \<longrightarrow> i < length ws"
  proof
    fix x assume "x \<in> set (cs[k := c])"
    then have "x \<in> set cs \<or> x = c" using set_update_subset_insert by fastforce
    then show "\<forall>i. counted x = Some i \<longrightarrow> i < length ws"
      using assms(1,3) nth_mem[OF assms(2)] v by auto
  qed
  ultimately show ?thesis using assms(1) v by simp
qed

lemma inv_release:
  assumes "pool_inv (ws, a, n) cs" "k < length cs" "counted (cs ! k) = Some i"
  shows "i < length ws" "pool_inv (ws[i := ws ! i - 1], a - 1, n) (cs[k := Ended])"
proof -
  show i: "i < length ws" using assms nth_mem[OF assms(2)] by auto
  have c: "channels_of j cs = channels_of j (cs[k := Ended]) + (if j = i then 1 else 0)" for j
    using channels_of_update[OF assms(2), of j Ended] assms(3) by auto
  have t: "channels cs = channels (cs[k := Ended]) + 1"
    using channels_update[OF assms(2), of Ended] assms(3) by auto
  have l: "length (filter holds_lock (cs[k := Ended])) \<le> length (filter holds_lock cs)"
    using length_filter_update[OF assms(2), of holds_lock Ended] by (simp split: if_splits)
  have m: "length (filter (\<lambda>c. \<exists>sid. c = Connecting sid) (cs[k := Ended])) \<le> length (filter (\<lambda>c. \<exists>sid. c = Connecting sid) cs)"
    using length_filter_update[OF assms(2), of "\<lambda>c. \<exists>sid. c = Connecting sid" Ended] by (simp split: if_splits)
  have s: "\<forall>x \<in> set (cs[k := Ended]). \<forall>j. counted x = Some j \<longrightarrow> j < length ws"
    using assms(1) set_update_subset_insert[of cs k Ended] by fastforce
  show "pool_inv (ws[i := ws ! i - 1], a - 1, n) (cs[k := Ended])"
    using assms(1) i c t l m s by (auto simp: nth_list_update)
qed

lemma inv_reuse:
  assumes "pool_inv (ws, a, n) cs" "i < length ws"
  shows "pool_inv (ws[i := ws ! i + 1], a + 1, n) (cs @ [Opening i])"
  using assms by (auto simp: nth_list_update channels_of_append channels_append)

lemma inv_connected:
  assumes "pool_inv (ws, a, n) cs" "k < length cs" "cs ! k = Connecting sid"
  shows "pool_inv (ws @ [1], a + 1, n) (cs[k := Opening (length ws)])"
proof -
  let ?c = "Opening (length ws)"
  have c: "channels_of j (cs[k := ?c]) = channels_of j cs + (if j = length ws then 1 else 0)" for j
    using channels_of_update[OF assms(2), of j ?c] assms(3) by auto
  have z: "channels_of (length ws) cs = 0"
    using assms(1) by (auto simp: channels_of_def filter_empty_conv)
  have t: "channels (cs[k := ?c]) = channels cs + 1"
    using channels_update[OF assms(2), of ?c] assms(3) by auto
  have l: "length (filter holds_lock (cs[k := ?c])) \<le> length (filter holds_lock cs)"
    using length_filter_update[OF assms(2), of holds_lock ?c] by (simp split: if_splits)
  have m: "length (filter (\<lambda>c. \<exists>sid. c = Connecting sid) (cs[k := ?c])) + 1 = length (filter (\<lambda>c. \<exists>sid. c = Connecting sid) cs)"
    using length_filter_update[OF assms(2), of "\<lambda>c. \<exists>sid. c = Connecting sid" ?c] assms(3) by simp
  have s: "\<forall>x \<in> set (cs[k := ?c]). \<forall>j. counted x = Some j \<longrightarrow> j < Suc (length ws)"
    using assms(1) set_update_subset_insert[of cs k ?c] by fastforce
  show ?thesis using assms(1) c z t l m s by (auto simp: nth_append less_Suc_eq)
qed

lemma inv_locked:
  assumes "pool_inv v cs" "k < length cs" "holds_lock (cs ! k)" "counted c = None" "\<forall>sid. c \<noteq> Connecting sid"
  shows "pool_inv v (cs[k := c])"
  using assms by (intro inv_neutral) (auto elim: holds_lock.elims)

lemma inv_begin:
  assumes "pool_inv (ws, a, n) cs" "list_all (\<lambda>c. \<not> holds_lock c) cs" "length ws < n"
  shows "pool_inv (ws, a, n) (cs @ [Connecting sid])"
proof -
  have "filter holds_lock cs = []" using assms(2) by (simp add: filter_empty_conv list_all_iff)
  moreover have "filter (\<lambda>c. \<exists>sid. c = Connecting sid) cs = []"
    using assms(2) by (auto simp: filter_empty_conv list_all_iff)
  ultimately show ?thesis using assms by (simp add: channels_of_append channels_append)
qed

lemma counts_length: "pool_counts p = (ws, a, n) \<Longrightarrow> length ws = length (po_sessions p) \<and> n = po_pool_size p"
  by (auto simp: pool_counts_def)

declare pool_inv.simps [simp del]

lemma pool_step_inv:
  assumes "pool_step s t" "pool_inv (pool_counts (fst s)) (snd s)" "0 < snd (snd (pool_counts (fst s)))"
  shows "pool_inv (pool_counts (fst t)) (snd t) \<and> snd (snd (pool_counts (fst t))) = snd (snd (pool_counts (fst s)))"
  using assms
proof (induction rule: pool_step.induct)
  case (reuse cs now p i p')
  obtain ws a n where v: "pool_counts p = (ws, a, n)" by (metis prod_cases3)
  from session_choose_cases[OF reuse(2)] have i: "i < length ws" and p': "pool_counts p' = pool_counts (acquire_session_channel i p)"
    using counts_length[OF v] by auto
  from inv_reuse[OF _ i] reuse.prems(1) show ?case by (simp add: v p' counts_acquire[OF v i])
next
  case (connect cs now p sid p')
  obtain ws a n where v: "pool_counts p = (ws, a, n)" by (metis prod_cases3)
  from session_choose_cases[OF connect(2)] have p': "pool_counts p' = pool_counts p" and "length ws < n"
    using connect.prems(2) counts_length[OF v] v by auto
  with inv_begin[OF _ connect(1)] connect.prems(1) show ?case by (simp add: v)
next
  case (no_session cs now p p')
  from session_choose_cases[OF no_session(2)] show ?case by simp
next
  case (connected k cs sid p)
  obtain ws a n where v: "pool_counts p = (ws, a, n)" by (metis prod_cases3)
  then have "length (po_sessions p) = length ws" by (simp add: counts_length)
  with inv_connected[of ws a n cs k sid] connected v show ?case by (simp add: counts_connected[OF v])
next
  case (open_error k cs i err p)
  obtain ws a n where v: "pool_counts (set_last_error (Some err) p) = (ws, a, n)" by (metis prod_cases3)
  with open_error show ?case
    using inv_release[of ws a n cs k i] by (simp add: counts_release[OF v])
next
  case (dropped k cs st p)
  obtain ws a n where v: "pool_counts p = (ws, a, n)" by (metis prod_cases3)
  with dropped show ?case
    using inv_release[of ws a n cs k "sm_session st"] by (simp add: counts_drop_stream[OF v])
next
  case (drop_opening k cs i p)
  obtain ws a n where v: "pool_counts p = (ws, a, n)" by (metis prod_cases3)
  with drop_opening show ?case
    using inv_release[of ws a n cs k i] by (simp add: counts_release[OF v])
next
  case (drop_failing k cs i err p)
  obtain ws a n where v: "pool_counts p = (ws, a, n)" by (metis prod_cases3)
  with drop_failing show ?case
    using inv_release[of ws a n cs k i] by (simp add: counts_release[OF v])
next
  case (read k cs st got took p st' p')
  then show ?case using poll_read_keeps[OF read(3)] by (simp add: inv_neutral)
next
  case (closed k cs st kind reason p st' p')
  then show ?case using record_close_keeps[OF closed(3)] by (simp add: inv_neutral)
qed (simp_all add: new_stream_def inv_neutral inv_locked)

lemma pool_reach_inv:
  assumes "pool_reach configured fixed_target s"
  shows "pool_inv (pool_counts (fst s)) (snd s) \<and>
    snd (snd (pool_counts (fst s))) = max (unwrap_or configured (if fixed_target then 1 else 2)) 1"
  using assms
proof induction
  case start
  show ?case by (simp add: pool_counts_def pool_new_def pool_inv.simps channels_of_def channels_def)
next
  case (step s t)
  with pool_step_inv[OF step(2)] show ?case by simp
qed

lemma channels_of_le: "channels_of i cs \<le> channels cs"
  unfolding channels_of_def channels_def by (induction cs) auto

section \<open>Properties\<close>

text \<open>
  C9.  In every state the calls of a pool reach, however they interleave, fail or are dropped, the pool holds at most
  the configured number of sessions.  While fewer than \<open>2 ^ 32\<close> channels are in use, the counter of each
  session is the number of calls that count for it and the counter of the pool is the number of all such calls,
  so no decrement ever wraps.
\<close>

theorem pool_channel_accounting:
  assumes "pool_reach configured fixed_target (p, cs)" "channels cs < 2 ^ 32"
  shows "length (po_sessions p) \<le> max (unwrap_or configured (if fixed_target then 1 else 2)) 1 \<and>
    (\<forall>i < length (po_sessions p). unat (ss_active_channels (po_sessions p ! i)) = channels_of i cs) \<and>
    unat (po_active_ssh_channels p) = channels cs \<and>
    (\<forall>i. length (po_sessions p) \<le> i \<longrightarrow> channels_of i cs = 0)"
proof -
  from pool_reach_inv[OF assms(1)] have inv:
    "\<forall>i < length (po_sessions p). ss_active_channels (po_sessions p ! i) = of_nat (channels_of i cs)"
    "po_active_ssh_channels p = of_nat (channels cs)"
    "\<forall>c \<in> set cs. \<forall>i. counted c = Some i \<longrightarrow> i < length (po_sessions p)"
    "length (po_sessions p) \<le> max (unwrap_or configured (if fixed_target then 1 else 2)) 1"
    by (auto simp: pool_counts_def pool_inv.simps)
  have "unat (of_nat (channels_of i cs) :: u32) = channels_of i cs" for i
    using channels_of_le[of i cs] assms(2) by (simp add: unat_of_nat take_bit_nat_eq_self)
  moreover have "unat (of_nat (channels cs) :: u64) = channels cs"
    using assms(2) by (simp add: unat_of_nat take_bit_nat_eq_self)
  moreover have "channels_of i cs = 0" if "length (po_sessions p) \<le> i" for i
    using inv(3) that by (fastforce simp: channels_of_def filter_empty_conv)
  ultimately show ?thesis using inv by simp
qed

text \<open>A run: the first call connects a session and gets its stream, a second call shares the session.\<close>

lemma pool_reach_connected:
  "pool_reach configured fixed_target (session_connected 1 (snd (session_choose 0 (pool_new configured fixed_target))), [Opening 0])"
proof -
  let ?p = "pool_new configured fixed_target" and ?q = "snd (session_choose 0 (pool_new configured fixed_target))"
  have choose: "session_choose 0 ?p = (Connect 1, ?q)" and empty: "po_sessions ?q = []"
    by (simp_all add: session_choose_def pool_new_def should_open_new_session_def Let_def)
  have "pool_reach configured fixed_target (?q, [] @ [Connecting 1])"
    by (rule pool_reach.step[OF pool_reach.start pool_step.connect[OF _ choose]]) simp
  from pool_reach.step[OF this pool_step.connected[of 0 _ 1]] show ?thesis by (simp add: empty)
qed

theorem pool_channel_accounting_witness:
  "length (po_sessions (session_connected 1 (snd (session_choose 0 (pool_new (Some 4) False))))) \<le> 4 \<and>
    unat (po_active_ssh_channels (session_connected 1 (snd (session_choose 0 (pool_new (Some 4) False))))) = 1"
  using pool_channel_accounting[OF pool_reach_connected[of "Some 4" False]] by (simp add: channels_def)

text \<open>
  A call that is dropped between disarming its guard and returning its stream keeps its channel counted for ever.
  The callers in \<^verbatim>\<open>socks.rs\<close> run in detached tasks that nothing aborts, so this needs a caller that gives up on the
  call, or the end of the runtime.
\<close>

lemma abandoned_call_stays_counted:
  "\<exists>p. pool_reach configured fixed_target (p, [Abandoned 0]) \<and> po_active_ssh_channels p = 1"
proof -
  let ?p = "session_connected 1 (snd (session_choose 0 (pool_new configured fixed_target)))"
  have "pool_reach configured fixed_target (opened_channel 0 5 ?p, [Finishing 0])"
    using pool_reach.step[OF pool_reach_connected pool_step.opened[of 0 _ 0 _ 5]] by simp
  from pool_reach.step[OF this pool_step.drop_finishing[of 0 _ 0]]
  have "pool_reach configured fixed_target (opened_channel 0 5 ?p, [Abandoned 0])" by simp
  moreover have "po_active_ssh_channels (opened_channel 0 5 ?p) = 1"
    by (simp add: opened_channel_def update_session_def session_connected_def acquire_session_channel_def
        session_choose_def pool_new_def should_open_new_session_def Let_def)
  ultimately show ?thesis by blast
qed

text \<open>
  C16.  What a call is given: a new session is connected only when there is none, or when there is room and every
  session carries at least two channels already; otherwise an existing session whose score is the least, because
  the pool is full or some session carries fewer than two channels.  The call never finds the pool empty.
\<close>

theorem pool_grows_only_under_load:
  "case fst (session_choose now p) of
      Connect sid \<Rightarrow> po_sessions p = [] \<or>
        length (po_sessions p) < po_pool_size p \<and> list_all (\<lambda>s. 2 \<le> ss_active_channels s) (po_sessions p)
    | Use i \<Rightarrow> i < length (po_sessions p) \<and>
        list_all (\<lambda>s. session_score (duration_millis now) (po_sessions p ! i) \<le> session_score (duration_millis now) s) (po_sessions p) \<and>
        (po_pool_size p \<le> length (po_sessions p) \<or> list_ex (\<lambda>s. ss_active_channels s < 2) (po_sessions p))
    | PoolEmpty \<Rightarrow> False"
  using session_choose_cases[of now p "fst (session_choose now p)" "snd (session_choose now p)"]
  by (auto simp: SSH_SESSION_GROWTH_MIN_ACTIVE_CHANNELS_def list_all_iff list_ex_iff split: choice.splits
      dest: min_active_below)

text \<open>A full pool only reuses its sessions: no operation removes one, whether or not its connection still works.\<close>

lemma full_pool_never_reconnects:
  assumes "po_sessions p \<noteq> []" "po_pool_size p \<le> length (po_sessions p)"
  shows "\<exists>i. fst (session_choose now p) = Use i"
  using session_choose_cases[of now p "fst (session_choose now p)" "snd (session_choose now p)"] assms
  by (auto split: choice.splits)

section \<open>Percentiles\<close>

definition count_le :: "u64 \<Rightarrow> u64 list \<Rightarrow> nat" where
  "count_le limit ls = length (filter (\<lambda>l. l \<le> limit) ls)"

abbreviation bucket_count :: "nat \<Rightarrow> u64 list \<Rightarrow> nat" where
  "bucket_count b ls \<equiv> length (filter (\<lambda>l. latency_bucket l = b) ls)"

abbreviation below_bucket :: "nat \<Rightarrow> u64 list \<Rightarrow> nat" where
  "below_bucket b ls \<equiv> length (filter (\<lambda>l. latency_bucket l < b) ls)"

definition bucket_limit :: "nat \<Rightarrow> u64" where
  "bucket_limit k = (if k < length FIRST_BYTE_LATENCY_BUCKETS then FIRST_BYTE_LATENCY_BUCKETS ! k else - 1)"

lemma length_buckets: "length FIRST_BYTE_LATENCY_BUCKETS = 8"
  by (simp add: FIRST_BYTE_LATENCY_BUCKETS_def)

lemma latency_bucket_less: "latency_bucket l < 9"
  by (simp add: latency_bucket_def FIRST_BYTE_LATENCY_BUCKETS_def)

lemma sorted_buckets: "sorted FIRST_BYTE_LATENCY_BUCKETS"
  by (simp add: FIRST_BYTE_LATENCY_BUCKETS_def)

lemma position_le:
  assumes "sorted xs" "k < length xs"
  shows "(case position (\<lambda>x. l \<le> x) xs of None \<Rightarrow> length xs | Some j \<Rightarrow> j) \<le> k \<longleftrightarrow> l \<le> (xs ! k :: u64)"
  using assms
proof (induction xs arbitrary: k)
  case (Cons x xs)
  show ?case
  proof (cases k)
    case 0
    then show ?thesis by (simp split: option.split)
  next
    case (Suc k')
    with Cons.prems have "x \<le> xs ! k'" by simp
    with Suc Cons.prems Cons.IH[of k'] show ?thesis by (auto split: option.splits dest: order_trans)
  qed
qed simp

lemma latency_bucket_le:
  assumes "k < 9"
  shows "latency_bucket l < Suc k \<longleftrightarrow> l \<le> bucket_limit k"
proof (cases "k < 8")
  case True
  then show ?thesis
    using position_le[OF sorted_buckets, of k l]
    by (auto simp: latency_bucket_def unwrap_or_def bucket_limit_def length_buckets less_Suc_eq_le split: option.splits)
next
  case False
  with assms have "k = 8" by simp
  then show ?thesis using latency_bucket_less[of l] by (simp add: bucket_limit_def length_buckets)
qed

lemma count_le_limit: "k < 9 \<Longrightarrow> count_le (bucket_limit k) ls = below_bucket (Suc k) ls"
  by (simp add: count_le_def latency_bucket_le)

lemma below_Suc: "below_bucket (Suc b) ls = below_bucket b ls + bucket_count b ls"
  by (induction ls) (auto simp: less_Suc_eq)

lemma below_mono: "j \<le> k \<Longrightarrow> below_bucket j ls \<le> below_bucket k ls"
  by (induction ls) auto

lemma bucket_limit_less:
  assumes "j < 9" "k < 9" "bucket_limit j < bucket_limit k"
  shows "j < k"
proof (rule ccontr)
  assume "\<not> j < k"
  then have "bucket_limit k \<le> bucket_limit j"
    using assms(1) sorted_nth_mono[OF sorted_buckets, of k j] by (simp add: bucket_limit_def length_buckets)
  with assms(3) show False by simp
qed

lemma recorded_buckets:
  "la_samples (fold record_latency_sample ls no_samples) = of_nat (length ls) \<and>
   la_buckets (fold record_latency_sample ls no_samples) = map (\<lambda>b. of_nat (bucket_count b ls)) [0..<9]"
proof (induction ls rule: rev_induct)
  case Nil
  show ?case by (simp add: no_samples_def length_buckets map_replicate_const)
next
  case (snoc l ls)
  have "(map (\<lambda>b. of_nat (bucket_count b ls)) [0..<9])[latency_bucket l := of_nat (bucket_count (latency_bucket l) ls) + 1]
      = (map (\<lambda>b. of_nat (bucket_count b (ls @ [l]))) [0..<9] :: u64 list)"
    by (rule nth_equalityI) (auto simp: nth_list_update latency_bucket_less)
  with snoc latency_bucket_less[of l] show ?case by (simp add: record_latency_sample_def Let_def)
qed

lemma sat_add_of_nat: "a + b < 2 ^ 64 \<Longrightarrow> sat_add (of_nat a) (of_nat b) = of_nat (a + b)"
  by (simp add: sat_add_def unat_of_nat take_bit_nat_eq_self)

lemma percentile_scan_finds:
  assumes "\<And>k. cum (Suc k) = cum k + cnt k" "\<And>k. cum k < 2 ^ 64" "target \<le> of_nat (cum 9)" "k < 9"
  shows "\<exists>j. k \<le> j \<and> j < 9 \<and> percentile_scan target (of_nat (cum k)) k (map (\<lambda>b. of_nat (cnt b)) [k..<9]) = bucket_limit j \<and>
    target \<le> of_nat (cum (Suc j)) \<and> (\<forall>i. k \<le> i \<and> i < j \<longrightarrow> of_nat (cum (Suc i)) < target)"
  using assms(4)
proof (induction "8 - k" arbitrary: k)
  case (0 k)
  have seen: "sat_add (of_nat (cum k)) (of_nat (cnt k)) = of_nat (cum (Suc k))"
    using assms(1)[of k] assms(2)[of "Suc k"] by (simp only: sat_add_of_nat)
  from 0 have "k = 8" by simp
  then have "[k..<9] = [k]" "target \<le> of_nat (cum (Suc k))" using assms(3) by simp_all
  then show ?case using 0(2) by (intro exI[of _ k]) (auto simp: seen bucket_limit_def)
next
  case (Suc x k)
  have seen: "sat_add (of_nat (cum k)) (of_nat (cnt k)) = of_nat (cum (Suc k))"
    using assms(1)[of k] assms(2)[of "Suc k"] by (simp only: sat_add_of_nat)
  have up: "[k..<9] = k # [Suc k..<9]" using Suc(3) by (simp add: upt_conv_Cons)
  show ?case
  proof (cases "target \<le> of_nat (cum (Suc k))")
    case True
    with Suc(3) show ?thesis by (intro exI[of _ k]) (auto simp: up seen bucket_limit_def)
  next
    case False
    from Suc have "Suc k < 9" "x = 8 - Suc k" by auto
    from Suc(1)[OF this(2,1)] obtain j where j: "Suc k \<le> j" "j < 9"
      "percentile_scan target (of_nat (cum (Suc k))) (Suc k) (map (\<lambda>b. of_nat (cnt b)) [Suc k..<9]) = bucket_limit j"
      "target \<le> of_nat (cum (Suc j))" "\<forall>i. Suc k \<le> i \<and> i < j \<longrightarrow> of_nat (cum (Suc i)) < target" by blast
    have "of_nat (cum (Suc i)) < target" if "k \<le> i" "i < j" for i
      using that False j(5) by (cases "i = k") auto
    moreover have "percentile_scan target (of_nat (cum k)) k (map (\<lambda>b. of_nat (cnt b)) [k..<9]) = bucket_limit j"
      using False j(3) by (simp only: up list.map percentile_scan.simps seen Let_def if_False)
    ultimately show ?thesis using j(1,2,4) by (intro exI[of _ j]) simp
  qed
qed

lemma ceil_le: "(if x mod 100 = 0 then x div 100 else x div 100 + 1) \<le> c \<longleftrightarrow> x \<le> 100 * (c :: nat)"
proof -
  define d m where "d = x div 100" and "m = x mod 100"
  then have "x = 100 * d + m" "m < 100" by simp_all
  then show ?thesis unfolding d_def[symmetric] m_def[symmetric] by auto
qed

lemma percentile_target:
  assumes "n * 100 < 2 ^ 64" "q \<le> (100 :: u64)" "c \<le> n"
  shows "div_ceil (sat_mul (of_nat n) q) 100 \<le> of_nat c \<longleftrightarrow> unat q * n \<le> 100 * c"
proof -
  have q: "unat q \<le> 100" using assms(2) by (simp add: word_le_nat_alt)
  then have small: "n * unat q \<le> n * 100" by simp
  have n: "unat (of_nat n :: u64) = n" "unat (of_nat c :: u64) = c" using assms by (simp_all add: unat_of_nat take_bit_nat_eq_self)
  let ?m = "sat_mul (of_nat n) q"
  have m: "unat ?m = n * unat q"
  proof -
    have "unat (of_nat n :: u64) * unat q < 2 ^ 64" unfolding n by (rule le_less_trans[OF small assms(1)])
    then show ?thesis using n by (simp add: sat_mul_def unat_mult_lem[THEN iffD1])
  qed
  have "unat (div_ceil ?m 100) = (if n * unat q mod 100 = 0 then n * unat q div 100 else n * unat q div 100 + 1)"
  proof -
    have z: "?m mod 100 = 0 \<longleftrightarrow> n * unat q mod 100 = 0" by (simp add: unat_mod m flip: unat_eq_0)
    have "unat (?m div 100 + 1) = unat (?m div 100) + 1"
      using le_less_trans[OF small assms(1)] by (subst unat_add_lem[THEN iffD1]) (simp_all add: unat_div m)
    then show ?thesis unfolding div_ceil_def z by (simp add: unat_div m)
  qed
  then show ?thesis using ceil_le[of "n * unat q" c] n by (simp only: word_le_nat_alt mult.commute)
qed

text \<open>
  C24.  The percentile the status reports is right up to the width of a bucket: it is the least limit of a bucket
  (or the greatest number, for the open bucket) that at least that share of the recorded latencies does not exceed.
\<close>

theorem latency_percentile_correct:
  assumes "ls \<noteq> []" "length ls * 100 < 2 ^ 64" "q \<le> 100" "r = fold record_latency_sample ls no_samples"
  shows "\<exists>limit. latency_percentile (la_buckets r) (la_samples r) q = Some limit \<and>
    unat q * length ls \<le> 100 * count_le limit ls \<and>
    (\<forall>lower \<in> set FIRST_BYTE_LATENCY_BUCKETS. lower < limit \<longrightarrow> 100 * count_le lower ls < unat q * length ls)"
proof -
  let ?t = "div_ceil (sat_mul (of_nat (length ls)) q) 100"
  have target: "?t \<le> of_nat c \<longleftrightarrow> unat q * length ls \<le> 100 * c" if "c \<le> length ls" for c
    using percentile_target[OF assms(2,3) that] .
  have "unat q \<le> 100" using assms(3) by (simp add: word_le_nat_alt)
  then have all: "?t \<le> of_nat (below_bucket 9 ls)" using target[of "length ls"] by (simp add: latency_bucket_less)
  have small: "below_bucket k ls < 2 ^ 64" for k
    using length_filter_le[of "\<lambda>l. latency_bucket l < k" ls] assms(2) by linarith
  obtain j where j: "j < 9"
    "percentile_scan ?t (of_nat (below_bucket 0 ls)) 0 (map (\<lambda>b. of_nat (bucket_count b ls)) [0..<9]) = bucket_limit j"
    "?t \<le> of_nat (below_bucket (Suc j) ls)" "\<forall>i < j. of_nat (below_bucket (Suc i) ls) < ?t"
    using percentile_scan_finds[of "\<lambda>k. below_bucket k ls" "\<lambda>k. bucket_count k ls" ?t 0, OF below_Suc small all]
    by (auto simp only: le0 simp_thms zero_less_numeral)
  have "(of_nat (length ls) :: u64) \<noteq> 0"
    using assms(1,2) by (simp add: unat_of_nat take_bit_nat_eq_self flip: unat_eq_0)
  then have found: "latency_percentile (la_buckets r) (la_samples r) q = Some (bucket_limit j)"
    using j(2) by (simp add: assms(4) latency_percentile_def recorded_buckets)
  have "100 * count_le lower ls < unat q * length ls" if "lower \<in> set FIRST_BYTE_LATENCY_BUCKETS" "lower < bucket_limit j" for lower
  proof -
    from that(1) obtain i where i: "i < 8" "lower = bucket_limit i"
      by (auto simp: in_set_conv_nth bucket_limit_def length_buckets)
    with that(2) j(1) bucket_limit_less[of i j] have "i < j" by simp
    with j(4) have "\<not> ?t \<le> of_nat (below_bucket (Suc i) ls)" by (simp add: not_le)
    with target[of "below_bucket (Suc i) ls"] i show ?thesis by (simp add: count_le_limit)
  qed
  with found j(1,3) target[of "below_bucket (Suc j) ls"] show ?thesis by (auto simp: count_le_limit)
qed

theorem latency_percentile_correct_witness:
  "\<exists>limit. latency_percentile (la_buckets (fold record_latency_sample [7, 30, 9000] no_samples))
      (la_samples (fold record_latency_sample [7, 30, 9000] no_samples)) 50 = Some limit \<and>
    150 \<le> 100 * count_le limit [7, 30, 9000]"
  using latency_percentile_correct[of "[7, 30, 9000]" 50 "fold record_latency_sample [7, 30, 9000] no_samples"] by auto

end
