(* ===== verification/Session_Spec.thy ===== *)
theory Session_Spec
  imports Jobs Route_Decision
begin

text \<open>
  Proxy sessions of the daemon: the specification of a session, its identifiers, the remote ports it may use and
  when a running session matches a request (\<^verbatim>\<open>ssh-proxy-daemon/src/session_spec.rs\<close>), and the classification of jobs and
  failures (\<^verbatim>\<open>ssh-proxy/src/node_daemon/proxy_session/state_machine.rs\<close>).  Strings and paths are UTF-8 bytes.
\<close>

section \<open>Specifications\<close>

record SshTargetSpec =
  sp_host_name :: "string option"
  sp_user :: "string option"
  sp_port :: "u16 option"
  sp_identity :: "string list"
  sp_config :: "string option"
  sp_known_hosts :: "string option"
  sp_jump :: "string list"
  sp_accept_new :: bool

record RemotePortPolicy =
  rp_preferred :: u16
  rp_auto_pick :: bool
  rp_range_size :: u16

record ApplyPolicy =
  ap_vscode_settings :: bool
  ap_terminal_env :: bool
  ap_server_env :: bool
  ap_git :: bool
  ap_git_global :: bool
  ap_git_workspace :: bool
  ap_git_force_override :: bool
  ap_remote_status_file :: bool
  ap_verify_remote_port :: bool
  ap_no_proxy :: string
  ap_proxy_support :: string
  ap_server_dir :: string

record ProxySessionSpec =
  px_target :: string
  px_workspace_id :: "string option"
  px_ssh :: "SshTargetSpec option"
  px_workspace_paths :: "string list"
  px_local_proxy :: string
  px_remote_bind :: ip_addr
  px_remote_port_policy :: RemotePortPolicy
  px_connect_mode :: RouteConnectMode
  px_apply_policy :: ApplyPolicy

definition apply_policy_default :: ApplyPolicy where
  "apply_policy_default =
    \<lparr>ap_vscode_settings = True, ap_terminal_env = True, ap_server_env = True, ap_git = True, ap_git_global = True,
     ap_git_workspace = True, ap_git_force_override = True, ap_remote_status_file = True, ap_verify_remote_port = True,
     ap_no_proxy = ''localhost,127.0.0.1,::1'', ap_proxy_support = ''override'', ap_server_dir = ''.vscode-server''\<rparr>"

section \<open>Serialized form\<close>

definition skip_empty :: "string \<Rightarrow> string list \<Rightarrow> (string \<times> json) list" where
  "skip_empty k xs = (if xs = [] then [] else [(k, JArr (map JStr xs))])"

definition ssh_target_json :: "SshTargetSpec \<Rightarrow> json" where
  "ssh_target_json s = json_obj
    (skip_none ''host_name'' JStr (sp_host_name s)
     @ skip_none ''user'' JStr (sp_user s)
     @ skip_none ''port'' (\<lambda>p. JNum (uint p)) (sp_port s)
     @ skip_empty ''identity'' (sp_identity s)
     @ skip_none ''config'' JStr (sp_config s)
     @ skip_none ''known_hosts'' JStr (sp_known_hosts s)
     @ skip_empty ''jump'' (sp_jump s)
     @ (if sp_accept_new s then [(''accept_new'', JBool True)] else []))"

definition port_policy_json :: "RemotePortPolicy \<Rightarrow> json" where
  "port_policy_json r = json_obj
    [(''preferred'', JNum (uint (rp_preferred r))), (''auto_pick'', JBool (rp_auto_pick r)),
     (''range_size'', JNum (uint (rp_range_size r)))]"

definition apply_policy_json :: "ApplyPolicy \<Rightarrow> json" where
  "apply_policy_json a = json_obj
    [(''vscode_settings'', JBool (ap_vscode_settings a)), (''terminal_env'', JBool (ap_terminal_env a)),
     (''server_env'', JBool (ap_server_env a)), (''git'', JBool (ap_git a)), (''git_global'', JBool (ap_git_global a)),
     (''git_workspace'', JBool (ap_git_workspace a)), (''git_force_override'', JBool (ap_git_force_override a)),
     (''remote_status_file'', JBool (ap_remote_status_file a)), (''verify_remote_port'', JBool (ap_verify_remote_port a)),
     (''no_proxy'', JStr (ap_no_proxy a)), (''proxy_support'', JStr (ap_proxy_support a)),
     (''server_dir'', JStr (ap_server_dir a))]"

definition session_spec_json :: "ProxySessionSpec \<Rightarrow> json" where
  "session_spec_json s = json_obj
    ([(''target'', JStr (px_target s))]
     @ skip_none ''workspace_id'' JStr (px_workspace_id s)
     @ skip_none ''ssh'' ssh_target_json (px_ssh s)
     @ skip_empty ''workspace_paths'' (px_workspace_paths s)
     @ [(''local_proxy'', JStr (px_local_proxy s)), (''remote_bind'', JStr (ip_display (px_remote_bind s))),
        (''remote_port_policy'', port_policy_json (px_remote_port_policy s)),
        (''connect_mode'', JStr (route_connect_mode_show (px_connect_mode s))),
        (''apply_policy'', apply_policy_json (px_apply_policy s))])"

section \<open>Identifiers and addresses\<close>

text \<open>Every character has one byte that is not a continuation byte.\<close>

definition continuation_byte :: "char \<Rightarrow> bool" where
  "continuation_byte c \<longleftrightarrow> 0x80 \<le> (of_char c :: nat) \<and> (of_char c :: nat) < 0xC0"

definition key_char :: "char \<Rightarrow> bool" where
  "key_char c \<longleftrightarrow> (let n = (of_char c :: nat) in
    0x30 \<le> n \<and> n \<le> 0x39 \<or> 0x41 \<le> n \<and> n \<le> 0x5A \<or> 0x61 \<le> n \<and> n \<le> 0x7A) \<or> c = CHR ''-'' \<or> c = CHR ''_''"

definition sanitize_key :: "string \<Rightarrow> string" where
  "sanitize_key key =
    (let normalized = map (\<lambda>c. if key_char c then char_to_lower c else CHR ''-'') (filter (\<lambda>c. \<not> continuation_byte c) key);
         trimmed = take 64 (trim_matches (CHR ''-'') normalized) in
     if trimmed = [] then ''default'' else trimmed)"

definition spec_key :: "ProxySessionSpec \<Rightarrow> string" where
  "spec_key s = unwrap_or (px_workspace_id s) (px_target s)"

definition route_id_for_key :: "string \<Rightarrow> string" where "route_id_for_key key = ''v3-'' @ sanitize_key key"
definition job_id_for_key :: "string \<Rightarrow> string" where "job_id_for_key key = ''proxy:'' @ sanitize_key key"
definition session_id_for_key :: "string \<Rightarrow> string" where "session_id_for_key key = ''session:'' @ sanitize_key key"

definition proxy_url_for_remote :: "string \<Rightarrow> string \<Rightarrow> u16 \<Rightarrow> string" where
  "proxy_url_for_remote local_proxy bind port =
    (case split_once local_proxy ''://'' of
       None \<Rightarrow> ''http://'' @ bind @ '':'' @ show_nat (unat port)
     | Some (scheme, rest) \<Rightarrow>
         (let authority = takeWhile (\<lambda>c. c \<noteq> CHR ''/'') rest;
              suffix = dropWhile (\<lambda>c. c \<noteq> CHR ''/'') rest;
              userinfo = (case rsplit_once_char authority (CHR ''@'') of None \<Rightarrow> [] | Some (u, _) \<Rightarrow> u @ ''@'') in
          scheme @ ''://'' @ userinfo @ bind @ '':'' @ show_nat (unat port) @ suffix))"

definition remote_url_for_port :: "ProxySessionSpec \<Rightarrow> u16 \<Rightarrow> string" where
  "remote_url_for_port s port = proxy_url_for_remote (px_local_proxy s) (ip_display (px_remote_bind s)) port"

definition with_remote_port :: "u16 \<Rightarrow> ProxySessionSpec \<Rightarrow> ProxySessionSpec" where
  "with_remote_port port s = s\<lparr>px_remote_port_policy := (px_remote_port_policy s)\<lparr>rp_preferred := port\<rparr>\<rparr>"

definition ssh_args :: "SshTargetSpec \<Rightarrow> string list" where
  "ssh_args s = (case sp_host_name s of Some h \<Rightarrow> [''-o'', ''HostName='' @ h] | None \<Rightarrow> [])"

section \<open>Remote ports\<close>

definition port_policy_new :: "u16 \<Rightarrow> RemotePortPolicy" where
  "port_policy_new preferred = \<lparr>rp_preferred = preferred, rp_auto_pick = True, rp_range_size = 20\<rparr>"

definition port_policy_fixed :: "u16 \<Rightarrow> RemotePortPolicy" where
  "port_policy_fixed preferred = \<lparr>rp_preferred = preferred, rp_auto_pick = False, rp_range_size = 1\<rparr>"

text \<open>The loop over the offsets stops where \<^verbatim>\<open>checked_add\<close> overflows; \<open>left\<close> offsets remain.\<close>

fun candidate_loop :: "u16 \<Rightarrow> nat \<Rightarrow> nat \<Rightarrow> u16 list" where
  "candidate_loop preferred offset 0 = []"
| "candidate_loop preferred offset (Suc left) =
    (if unat preferred + offset < 2 ^ 16
     then (preferred + of_nat offset) # candidate_loop preferred (Suc offset) left else [])"

definition port_candidates :: "RemotePortPolicy \<Rightarrow> u16 list" where
  "port_candidates r =
    (let count = (if rp_auto_pick r then max (rp_range_size r) 1 else 1);
         candidates = candidate_loop (rp_preferred r) 0 (unat count) in
     if candidates = [] then [rp_preferred r] else candidates)"

section \<open>Reuse\<close>

definition normalize_for_live_reuse :: "ProxySessionSpec \<Rightarrow> ProxySessionSpec" where
  "normalize_for_live_reuse s = s\<lparr>px_ssh := map_option (\<lambda>t. t\<lparr>sp_identity := []\<rparr>) (px_ssh s)\<rparr>"

definition specs_match_at_selected_port :: "ProxySessionSpec \<Rightarrow> ProxySessionSpec \<Rightarrow> u16 \<Rightarrow> bool" where
  "specs_match_at_selected_port existing requested port =
    (let existing = (with_remote_port port existing)\<lparr>px_remote_port_policy := port_policy_fixed port\<rparr>;
         requested = (with_remote_port port requested)\<lparr>px_remote_port_policy := port_policy_fixed port\<rparr> in
     session_spec_json (normalize_for_live_reuse existing) = session_spec_json (normalize_for_live_reuse requested))"

definition proxy_session_specs_match :: "ProxySessionSpec \<Rightarrow> ProxySessionSpec \<Rightarrow> bool" where
  "proxy_session_specs_match left right =
    (let port = rp_preferred (px_remote_port_policy left); wanted = px_remote_port_policy right in
     if port = rp_preferred wanted then specs_match_at_selected_port left right port
     else if rp_auto_pick wanted \<and> port \<in> set (port_candidates wanted) then specs_match_at_selected_port left right port
     else False)"

section \<open>Jobs of a session\<close>

definition route_start_conflict_is_repairable :: "string \<Rightarrow> bool" where
  "route_start_conflict_is_repairable err = str_contains err ''is already running with a different spec''"

definition route_start_blocker :: "string \<Rightarrow> string" where
  "route_start_blocker err =
    (if route_start_conflict_is_repairable err then ''route_already_running_different_spec''
     else if str_contains err ''SSH authentication failed'' then ''ssh_auth_failed''
     else if str_contains err ''ProxyCommand'' \<or> str_contains err ''unsupported --ssh-arg'' \<or> str_contains err ''unsupported -o''
     then ''ssh_config_unsupported''
     else ''route_start_failed'')"

definition remote_port_failure_is_retryable :: "string \<Rightarrow> string \<Rightarrow> bool" where
  "remote_port_failure_is_retryable blocker message =
    (if blocker = ''remote_port_conflict'' then True
     else if blocker \<noteq> ''route_failed'' then False
     else let lower = to_ascii_lowercase message in
       str_contains lower ''address already in use'' \<or> str_contains lower ''already in use'' \<or>
       str_contains lower ''cannot assign requested address'' \<or> str_contains lower ''bind'')"

definition reusable_proxy_session_job :: "DaemonJobRecord \<Rightarrow> bool \<Rightarrow> bool" where
  "reusable_proxy_session_job job live_route =
    (case jr_state job of
       WaitingRetry \<Rightarrow> jr_blocker job \<noteq> Some ''route_not_running''
     | Queued \<Rightarrow> True
     | Running \<Rightarrow> True
     | Healthy \<Rightarrow> live_route
     | Failed \<Rightarrow> False
     | Cancelled \<Rightarrow> False)"

section \<open>Ports\<close>

lemma candidate_loop_eq:
  "candidate_loop q k n = map of_nat [unat q + k ..< min (unat q + k + n) (max (unat q + k) (2 ^ 16))]"
proof (induction n arbitrary: k)
  case (Suc n)
  show ?case
  proof (cases "unat q + k < 2 ^ 16")
    case True
    then have "[unat q + k ..< min (unat q + k + Suc n) (max (unat q + k) (2 ^ 16))] =
        (unat q + k) # [unat q + Suc k ..< min (unat q + Suc k + n) (max (unat q + Suc k) (2 ^ 16))]"
      by (subst upt_conv_Cons) (auto simp: min_def max_def)
    with True show ?thesis by (simp add: Suc.IH)
  qed simp
qed simp

text \<open>The candidates are the ports from the preferred one up, as many as the policy allows and none past 65535.\<close>

lemma port_candidates_eq:
  "port_candidates r = map of_nat [unat (rp_preferred r) ..<
     min (unat (rp_preferred r) + (if rp_auto_pick r then max (unat (rp_range_size r)) 1 else 1)) (2 ^ 16)]"
proof -
  let ?p = "rp_preferred r"
  have count: "unat (if rp_auto_pick r then max (rp_range_size r) 1 else 1) =
      (if rp_auto_pick r then max (unat (rp_range_size r)) 1 else 1)"
    by (simp add: max_def word_le_nat_alt)
  have "unat ?p < 2 ^ 16" using unsigned_less[of ?p, where 'a = nat] by simp
  then show ?thesis
    by (auto simp: port_candidates_def Let_def candidate_loop_eq count max_def min_def simp del: upt.simps)
qed

lemma port_candidates_set:
  "port \<in> set (port_candidates r) \<longleftrightarrow> unat (rp_preferred r) \<le> unat port \<and>
    unat port < unat (rp_preferred r) + (if rp_auto_pick r then max (unat (rp_range_size r)) 1 else 1)"
proof -
  have lt: "unat port < 2 ^ 16" using unsigned_less[of port, where 'a = nat] by simp
  have "port \<in> of_nat ` {a..<min b (2 ^ 16)} \<longleftrightarrow> a \<le> unat port \<and> unat port < b" for a b
  proof
    assume "port \<in> of_nat ` {a..<min b (2 ^ 16)}"
    then show "a \<le> unat port \<and> unat port < b" by (auto simp: unat_of_nat take_bit_nat_eq_self)
  next
    assume "a \<le> unat port \<and> unat port < b"
    with lt show "port \<in> of_nat ` {a..<min b (2 ^ 16)}" by (intro image_eqI[of _ _ "unat port"]) simp_all
  qed
  then show ?thesis by (simp only: port_candidates_eq set_map set_upt)
qed

section \<open>The serialized form determines the specification\<close>

lemma map_JStr_inj [simp]: "map JStr xs = map JStr ys \<longleftrightarrow> xs = ys"
  by (simp add: inj_map_eq_map inj_def)

lemma get_skip: "json_get j k = json_get j' k \<Longrightarrow> json_get j k = map_option f x \<Longrightarrow> json_get j' k = map_option f y \<Longrightarrow>
    (\<And>a b. f a = f b \<Longrightarrow> a = b) \<Longrightarrow> x = y"
  by (cases x; cases y) auto

lemma ssh_target_json_get:
  "json_get (ssh_target_json s) ''host_name'' = map_option JStr (sp_host_name s)"
  "json_get (ssh_target_json s) ''user'' = map_option JStr (sp_user s)"
  "json_get (ssh_target_json s) ''port'' = map_option (\<lambda>p. JNum (uint p)) (sp_port s)"
  "json_get (ssh_target_json s) ''identity'' = (if sp_identity s = [] then None else Some (JArr (map JStr (sp_identity s))))"
  "json_get (ssh_target_json s) ''config'' = map_option JStr (sp_config s)"
  "json_get (ssh_target_json s) ''known_hosts'' = map_option JStr (sp_known_hosts s)"
  "json_get (ssh_target_json s) ''jump'' = (if sp_jump s = [] then None else Some (JArr (map JStr (sp_jump s))))"
  "json_get (ssh_target_json s) ''accept_new'' = (if sp_accept_new s then Some (JBool True) else None)"
  by (simp_all add: ssh_target_json_def skip_none_def skip_empty_def map_add_def split: option.split)

lemma ssh_target_json_inj: "ssh_target_json s = ssh_target_json t \<Longrightarrow> s = t"
proof -
  assume eq: "ssh_target_json s = ssh_target_json t"
  note get = arg_cong[OF eq, of "\<lambda>j. json_get j _"]
  have "sp_host_name s = sp_host_name t" "sp_user s = sp_user t" "sp_config s = sp_config t" "sp_known_hosts s = sp_known_hosts t"
    using get[of "''host_name''"] get[of "''user''"] get[of "''config''"] get[of "''known_hosts''"]
    by (auto simp: ssh_target_json_get map_option_case split: option.splits)
  moreover have "sp_port s = sp_port t"
    using get[of "''port''"] by (auto simp: ssh_target_json_get map_option_case word_uint_eq_iff split: option.splits)
  moreover have "sp_identity s = sp_identity t" "sp_jump s = sp_jump t" "sp_accept_new s = sp_accept_new t"
    using get[of "''identity''"] get[of "''jump''"] get[of "''accept_new''"] by (auto simp: ssh_target_json_get split: if_splits)
  ultimately show ?thesis by simp
qed

lemma apply_policy_json_inj: "apply_policy_json a = apply_policy_json b \<Longrightarrow> a = b"
proof -
  assume eq: "apply_policy_json a = apply_policy_json b"
  note get = arg_cong[OF eq, of "\<lambda>j. json_get j _"]
  have "ap_vscode_settings a = ap_vscode_settings b" "ap_terminal_env a = ap_terminal_env b" "ap_server_env a = ap_server_env b"
    "ap_git a = ap_git b" "ap_git_global a = ap_git_global b" "ap_git_workspace a = ap_git_workspace b"
    "ap_git_force_override a = ap_git_force_override b" "ap_remote_status_file a = ap_remote_status_file b"
    "ap_verify_remote_port a = ap_verify_remote_port b" "ap_no_proxy a = ap_no_proxy b"
    "ap_proxy_support a = ap_proxy_support b" "ap_server_dir a = ap_server_dir b"
    using get[of "''vscode_settings''"] get[of "''terminal_env''"] get[of "''server_env''"] get[of "''git''"]
      get[of "''git_global''"] get[of "''git_workspace''"] get[of "''git_force_override''"] get[of "''remote_status_file''"]
      get[of "''verify_remote_port''"] get[of "''no_proxy''"] get[of "''proxy_support''"] get[of "''server_dir''"]
    by (simp_all add: apply_policy_json_def)
  then show ?thesis by simp
qed

lemma session_spec_json_get:
  "json_get (session_spec_json s) ''target'' = Some (JStr (px_target s))"
  "json_get (session_spec_json s) ''workspace_id'' = map_option JStr (px_workspace_id s)"
  "json_get (session_spec_json s) ''ssh'' = map_option ssh_target_json (px_ssh s)"
  "json_get (session_spec_json s) ''workspace_paths'' = (if px_workspace_paths s = [] then None else Some (JArr (map JStr (px_workspace_paths s))))"
  "json_get (session_spec_json s) ''local_proxy'' = Some (JStr (px_local_proxy s))"
  "json_get (session_spec_json s) ''remote_bind'' = Some (JStr (ip_display (px_remote_bind s)))"
  "json_get (session_spec_json s) ''connect_mode'' = Some (JStr (route_connect_mode_show (px_connect_mode s)))"
  "json_get (session_spec_json s) ''apply_policy'' = Some (apply_policy_json (px_apply_policy s))"
  by (simp_all add: session_spec_json_def skip_none_def skip_empty_def map_add_def split: option.split)

lemma connect_mode_show_inj: "route_connect_mode_show a = route_connect_mode_show b \<longleftrightarrow> a = b"
  by (cases a; cases b) simp_all

lemma session_spec_json_eq:
  "session_spec_json s = session_spec_json t \<longleftrightarrow>
    px_target s = px_target t \<and> px_workspace_id s = px_workspace_id t \<and> px_ssh s = px_ssh t \<and>
    px_workspace_paths s = px_workspace_paths t \<and> px_local_proxy s = px_local_proxy t \<and>
    ip_display (px_remote_bind s) = ip_display (px_remote_bind t) \<and>
    port_policy_json (px_remote_port_policy s) = port_policy_json (px_remote_port_policy t) \<and>
    px_connect_mode s = px_connect_mode t \<and> px_apply_policy s = px_apply_policy t" (is "?eq \<longleftrightarrow> ?fields")
proof
  assume eq: ?eq
  note get = arg_cong[OF eq, of "\<lambda>j. json_get j _"]
  have "px_workspace_id s = px_workspace_id t" "px_ssh s = px_ssh t" "px_workspace_paths s = px_workspace_paths t"
    using get[of "''workspace_id''"] get[of "''ssh''"] get[of "''workspace_paths''"]
    by (auto simp: session_spec_json_get map_option_case split: option.splits if_splits dest: ssh_target_json_inj)
  moreover have "port_policy_json (px_remote_port_policy s) = port_policy_json (px_remote_port_policy t)"
    using get[of "''remote_port_policy''"]
    by (simp add: session_spec_json_def skip_none_def skip_empty_def map_add_def split: option.splits if_splits)
  ultimately show ?fields
    using get[of "''target''"] get[of "''local_proxy''"] get[of "''remote_bind''"] get[of "''connect_mode''"] get[of "''apply_policy''"]
    by (auto simp: session_spec_json_get connect_mode_show_inj dest: apply_policy_json_inj)
qed (simp add: session_spec_json_def)

section \<open>Properties\<close>

text \<open>
  Two specifications match when the port of the first is the preferred one of the second or lies in the range the second
  leaves open, and everything else agrees but for the list of SSH identities.
\<close>

lemma specs_match_iff:
  "proxy_session_specs_match l r \<longleftrightarrow>
    (let port = unat (rp_preferred (px_remote_port_policy l)); wanted = px_remote_port_policy r; first = unat (rp_preferred wanted) in
     port = first \<or> rp_auto_pick wanted \<and> first \<le> port \<and> port < first + max (unat (rp_range_size wanted)) 1) \<and>
    px_target l = px_target r \<and> px_workspace_id l = px_workspace_id r \<and>
    map_option (\<lambda>t. t\<lparr>sp_identity := []\<rparr>) (px_ssh l) = map_option (\<lambda>t. t\<lparr>sp_identity := []\<rparr>) (px_ssh r) \<and>
    px_workspace_paths l = px_workspace_paths r \<and> px_local_proxy l = px_local_proxy r \<and>
    ip_display (px_remote_bind l) = ip_display (px_remote_bind r) \<and> px_connect_mode l = px_connect_mode r \<and>
    px_apply_policy l = px_apply_policy r"
proof -
  have "specs_match_at_selected_port l r port \<longleftrightarrow>
    px_target l = px_target r \<and> px_workspace_id l = px_workspace_id r \<and>
    map_option (\<lambda>t. t\<lparr>sp_identity := []\<rparr>) (px_ssh l) = map_option (\<lambda>t. t\<lparr>sp_identity := []\<rparr>) (px_ssh r) \<and>
    px_workspace_paths l = px_workspace_paths r \<and> px_local_proxy l = px_local_proxy r \<and>
    ip_display (px_remote_bind l) = ip_display (px_remote_bind r) \<and> px_connect_mode l = px_connect_mode r \<and>
    px_apply_policy l = px_apply_policy r" for port
    by (simp add: specs_match_at_selected_port_def Let_def session_spec_json_eq normalize_for_live_reuse_def with_remote_port_def)
  then show ?thesis
    unfolding proxy_session_specs_match_def Let_def port_candidates_set by (auto simp: word_unat_eq_iff)
qed

text \<open>Different workspaces can share their identifiers, and an IPv6 address is put into a URL without brackets.\<close>

lemma sanitized_keys_collide: "route_id_for_key ''10.0.0.1'' = route_id_for_key ''10-0-0-1''"
  by code_simp

lemma ipv6_url_without_brackets:
  "proxy_url_for_remote ''http://127.0.0.1/'' ''::1'' port = ''http://::1:'' @ show_nat (unat port) @ ''/''"
  by (simp add: proxy_url_for_remote_def starts_with_def)

lemma sanitize_key_form: "sanitize_key key \<noteq> [] \<and> length (sanitize_key key) \<le> 64"
  by (simp add: sanitize_key_def Let_def)

end
