(* ===== verification/Proxy_Session.thy ===== *)
theory Proxy_Session
  imports Session_Spec
begin

text \<open>
  Requests for a proxy session: the session records of the daemon (\<^verbatim>\<open>ssh-proxy-daemon/src/session.rs\<close>,
  \<^verbatim>\<open>node_daemon/state.rs\<close> and \<^verbatim>\<open>node_daemon/state/session_store.rs\<close>), the peer records it consults and the handler that
  reuses a running session or starts one (\<^verbatim>\<open>node_daemon/proxy_session.rs\<close>).  A request is handled against one state: what
  other tasks do between its lock sections is not modelled.  The derived JSON decoders, the encoders of the stores, the
  outcome of saving and the clock are parameters.
\<close>

section \<open>Records\<close>

record RemoteSetupStatus =
  rsu_state :: string
  rsu_last_hash :: "string option"
  rsu_desired_hash :: "string option"
  rsu_applied_hash :: "string option"
  rsu_drift_detected :: bool
  rsu_remote_url :: "string option"
  rsu_verified :: bool
  rsu_next_action :: "string option"
  rsu_last_error :: "string option"
  rsu_updated_at_unix :: u64

definition setup_pending :: "u64 \<Rightarrow> RemoteSetupStatus" where
  "setup_pending now =
    \<lparr>rsu_state = ''pending'', rsu_last_hash = None, rsu_desired_hash = None, rsu_applied_hash = None,
     rsu_drift_detected = False, rsu_remote_url = None, rsu_verified = False,
     rsu_next_action = Some ''wait_for_proxy_session_job'', rsu_last_error = None, rsu_updated_at_unix = now\<rparr>"

definition setup_required :: "u64 \<Rightarrow> RemoteSetupStatus" where
  "setup_required now =
    (setup_pending now)\<lparr>rsu_state := ''required'', rsu_next_action := Some ''apply_remote_settings''\<rparr>"

record ProxySessionRecord =
  psr_session_id :: string
  psr_target :: string
  psr_workspace_id :: "string option"
  psr_ssh :: "json option"
  psr_workspace_paths :: "string list"
  psr_job_id :: string
  psr_route_id :: string
  psr_local_proxy :: string
  psr_remote_bind :: string
  psr_remote_port :: u16
  psr_remote_url :: string
  psr_apply_policy :: "json option"
  psr_state :: string
  psr_phase :: string
  psr_health :: string
  psr_blocker :: "string option"
  psr_next_action :: "string option"
  psr_repair_action :: "RepairAction option"
  psr_last_error :: "string option"
  psr_remote_setup :: RemoteSetupStatus
  psr_handoff_probe :: "json option"
  psr_recovery_attempts :: u32
  psr_route :: "json option"
  psr_created_at_unix :: u64
  psr_updated_at_unix :: u64

definition setup_to_json :: "RemoteSetupStatus \<Rightarrow> json" where
  "setup_to_json s = json_obj
    ([(''state'', JStr (rsu_state s))]
     @ skip_none ''last_hash'' JStr (rsu_last_hash s)
     @ skip_none ''desired_hash'' JStr (rsu_desired_hash s)
     @ skip_none ''applied_hash'' JStr (rsu_applied_hash s)
     @ (if rsu_drift_detected s then [(''drift_detected'', JBool True)] else [])
     @ skip_none ''remote_url'' JStr (rsu_remote_url s)
     @ (if rsu_verified s then [(''verified'', JBool True)] else [])
     @ skip_none ''next_action'' JStr (rsu_next_action s)
     @ skip_none ''last_error'' JStr (rsu_last_error s)
     @ [(''updated_at_unix'', json_u64 (rsu_updated_at_unix s))])"

definition session_to_value :: "ProxySessionRecord \<Rightarrow> json" where
  "session_to_value s = json_obj
    ([(''session_id'', JStr (psr_session_id s)), (''target'', JStr (psr_target s))]
     @ skip_none ''workspace_id'' JStr (psr_workspace_id s)
     @ skip_none ''ssh'' (\<lambda>v. v) (psr_ssh s)
     @ skip_empty ''workspace_paths'' (psr_workspace_paths s)
     @ [(''job_id'', JStr (psr_job_id s)), (''route_id'', JStr (psr_route_id s)),
        (''local_proxy'', JStr (psr_local_proxy s)), (''remote_bind'', JStr (psr_remote_bind s)),
        (''remote_port'', JNum (uint (psr_remote_port s))), (''remote_url'', JStr (psr_remote_url s))]
     @ skip_none ''apply_policy'' (\<lambda>v. v) (psr_apply_policy s)
     @ [(''state'', JStr (psr_state s)), (''phase'', JStr (psr_phase s)), (''health'', JStr (psr_health s))]
     @ skip_none ''blocker'' JStr (psr_blocker s)
     @ skip_none ''next_action'' JStr (psr_next_action s)
     @ skip_none ''repair_action'' repair_action_json (psr_repair_action s)
     @ skip_none ''last_error'' JStr (psr_last_error s)
     @ [(''remote_setup'', setup_to_json (psr_remote_setup s))]
     @ skip_none ''handoff_probe'' (\<lambda>v. v) (psr_handoff_probe s)
     @ (if psr_recovery_attempts s = 0 then []
        else [(''recovery_attempts'', JNum (int (unat (psr_recovery_attempts s))))])
     @ skip_none ''route'' (\<lambda>v. v) (psr_route s)
     @ [(''created_at_unix'', json_u64 (psr_created_at_unix s)), (''updated_at_unix'', json_u64 (psr_updated_at_unix s))])"

record PeerStatusRecord =
  pst_target :: string
  pst_state :: string
  pst_health :: string
  pst_version :: "string option"
  pst_control_endpoint :: "string option"
  pst_transport :: "string option"
  pst_transport_protocols :: "string list"
  pst_service_manager :: "string option"
  pst_descriptor_hash :: "string option"
  pst_install :: "json option"
  pst_dependency_report :: "json option"
  pst_update_required :: bool
  pst_blocker :: "string option"
  pst_repair_action :: "RepairAction option"
  pst_last_error :: "string option"
  pst_retry_after_ms :: "u64 option"
  pst_recovery_attempts :: u32
  pst_updated_at_unix :: u64

record SessionStore =
  ss_version :: u32
  ss_sessions :: "(string, ProxySessionRecord) omap"

record PeerStore =
  pe_version :: u32
  pe_peers :: "(string, PeerStatusRecord) omap"

text \<open>Of a route task only whether it has finished is looked at.\<close>

record NodeState =
  nd_jobs :: JobRegistry
  nd_sessions_path :: fpath
  nd_sessions :: SessionStore
  nd_peers :: PeerStore
  nd_routes :: "string \<Rightarrow> bool option"
  nd_files :: fsys

text \<open>The clock gives its readings in the order of the calls of one request.\<close>

record session_env =
  se_dec_ssh :: "json \<Rightarrow> SshTargetSpec option"
  se_dec_policy :: "json \<Rightarrow> ApplyPolicy option"
  se_enc_jobs :: "JobStore \<Rightarrow> string option"
  se_enc_sessions :: "SessionStore \<Rightarrow> string option"
  se_save :: save_env
  se_clock :: "nat \<Rightarrow> u64"

section \<open>Identifiers of a request\<close>

definition spec_route_id :: "ProxySessionSpec \<Rightarrow> string" where "spec_route_id s = route_id_for_key (spec_key s)"
definition spec_job_id :: "ProxySessionSpec \<Rightarrow> string" where "spec_job_id s = job_id_for_key (spec_key s)"
definition spec_session_id :: "ProxySessionSpec \<Rightarrow> string" where "spec_session_id s = session_id_for_key (spec_key s)"

definition spec_remote_url :: "ProxySessionSpec \<Rightarrow> string" where
  "spec_remote_url s = remote_url_for_port s (rp_preferred (px_remote_port_policy s))"

section \<open>Session records and specifications\<close>

definition decode_optional :: "(json \<Rightarrow> 'a option) \<Rightarrow> json option \<Rightarrow> 'a option option" where
  "decode_optional dec v = (case v of None \<Rightarrow> Some None | Some j \<Rightarrow> map_option Some (dec j))"

definition decode_or_default :: "'a \<Rightarrow> (json \<Rightarrow> 'a option) \<Rightarrow> json option \<Rightarrow> 'a option" where
  "decode_or_default d dec v = map_option (\<lambda>x. unwrap_or x d) (decode_optional dec v)"

definition to_spec :: "session_env \<Rightarrow> ProxySessionRecord \<Rightarrow> ProxySessionSpec option" where
  "to_spec env s =
    (case decode_optional (se_dec_ssh env) (psr_ssh s) of
       None \<Rightarrow> None
     | Some ssh \<Rightarrow>
         (case ip_parse (psr_remote_bind s) of
            None \<Rightarrow> None
          | Some bind \<Rightarrow>
              (case decode_or_default apply_policy_default (se_dec_policy env) (psr_apply_policy s) of
                 None \<Rightarrow> None
               | Some policy \<Rightarrow> Some
                   \<lparr>px_target = psr_target s, px_workspace_id = psr_workspace_id s, px_ssh = ssh,
                    px_workspace_paths = psr_workspace_paths s, px_local_proxy = psr_local_proxy s,
                    px_remote_bind = bind, px_remote_port_policy = port_policy_new (psr_remote_port s),
                    px_connect_mode = RouteConnectMode.ReverseLink, px_apply_policy = policy\<rparr>)))"

definition proxy_session_record_from_spec_and_job ::
  "u64 \<Rightarrow> ProxySessionSpec \<Rightarrow> DaemonJobRecord \<Rightarrow> ProxySessionRecord" where
  "proxy_session_record_from_spec_and_job now spec job =
    \<lparr>psr_session_id = spec_session_id spec, psr_target = px_target spec, psr_workspace_id = px_workspace_id spec,
     psr_ssh = map_option ssh_target_json (px_ssh spec), psr_workspace_paths = px_workspace_paths spec,
     psr_job_id = jr_id job, psr_route_id = spec_route_id spec, psr_local_proxy = px_local_proxy spec,
     psr_remote_bind = ip_display (px_remote_bind spec),
     psr_remote_port = rp_preferred (px_remote_port_policy spec),
     psr_remote_url = unwrap_or (jr_remote_url job) (spec_remote_url spec),
     psr_apply_policy = Some (apply_policy_json (px_apply_policy spec)),
     psr_state = job_state_name (jr_state job), psr_phase = job_phase_name (jr_phase job), psr_health = job_health job,
     psr_blocker = jr_blocker job, psr_next_action = jr_next_action job, psr_repair_action = jr_repair_action job,
     psr_last_error = jr_last_error job, psr_remote_setup = setup_pending now, psr_handoff_probe = None,
     psr_recovery_attempts = jr_recovery_attempts job, psr_route = None,
     psr_created_at_unix = jr_created_at_unix job, psr_updated_at_unix = jr_updated_at_unix job\<rparr>"

definition update_proxy_session_record_from_job ::
  "u64 \<Rightarrow> ProxySessionRecord \<Rightarrow> ProxySessionSpec \<Rightarrow> DaemonJobRecord \<Rightarrow> ProxySessionRecord" where
  "update_proxy_session_record_from_job now s spec job =
    (let s = s\<lparr>psr_target := px_target spec, psr_workspace_id := px_workspace_id spec,
           psr_ssh := map_option ssh_target_json (px_ssh spec), psr_workspace_paths := px_workspace_paths spec,
           psr_route_id := spec_route_id spec, psr_local_proxy := px_local_proxy spec,
           psr_remote_bind := ip_display (px_remote_bind spec),
           psr_remote_port := rp_preferred (px_remote_port_policy spec),
           psr_remote_url := unwrap_or (jr_remote_url job) (spec_remote_url spec),
           psr_apply_policy := Some (apply_policy_json (px_apply_policy spec)),
           psr_state := job_state_name (jr_state job), psr_phase := job_phase_name (jr_phase job),
           psr_health := job_health job, psr_blocker := jr_blocker job, psr_next_action := jr_next_action job,
           psr_repair_action := jr_repair_action job, psr_last_error := jr_last_error job,
           psr_updated_at_unix := jr_updated_at_unix job\<rparr>;
         required = (setup_required now)\<lparr>rsu_updated_at_unix := jr_updated_at_unix job\<rparr>;
         s = (if psr_phase s = ''apply_remote_settings'' then s\<lparr>psr_remote_setup := required\<rparr> else s);
         s = (if psr_phase s = ''healthy'' \<and> rsu_state (psr_remote_setup s) = ''pending''
              then s\<lparr>psr_remote_setup := required\<rparr> else s)
     in s\<lparr>psr_recovery_attempts := jr_recovery_attempts job\<rparr>)"

section \<open>The stores\<close>

datatype session_error = SpecMissing | JobNotSaved job_error | SessionEncodeFailed | SessionNotSaved save_error

definition save_sessions :: "session_env \<Rightarrow> SessionStore \<Rightarrow> NodeState \<Rightarrow> NodeState \<times> (session_error, unit) result" where
  "save_sessions env store st =
    (case se_enc_sessions env store of
       None \<Rightarrow> (st, Inl SessionEncodeFailed)
     | Some body \<Rightarrow>
         (case save_text_file_private (se_save env) (nd_sessions_path st) body (nd_files st) of
            (fs, Inl e) \<Rightarrow> (st\<lparr>nd_files := fs\<rparr>, Inl (SessionNotSaved e))
          | (fs, Inr _) \<Rightarrow> (st\<lparr>nd_files := fs\<rparr>, Inr ())))"

definition upsert_session_from_job ::
  "session_env \<Rightarrow> ProxySessionSpec \<Rightarrow> DaemonJobRecord \<Rightarrow> json option \<Rightarrow> NodeState \<Rightarrow>
    NodeState \<times> (session_error, ProxySessionRecord) result" where
  "upsert_session_from_job env spec job route st =
    (let store = nd_sessions st;
         session_id = spec_session_id spec;
         entry = (case om_get (ss_sessions store) session_id of
             Some s \<Rightarrow> s
           | None \<Rightarrow> proxy_session_record_from_spec_and_job (se_clock env 3) spec job);
         entry = update_proxy_session_record_from_job (se_clock env 4) entry spec job;
         entry = (if route \<noteq> None then entry\<lparr>psr_route := route\<rparr> else entry);
         store = store\<lparr>ss_sessions := om_insert session_id entry (ss_sessions store)\<rparr>
     in case save_sessions env store (st\<lparr>nd_sessions := store\<rparr>) of
          (st, Inl e) \<Rightarrow> (st, Inl e)
        | (st, Inr _) \<Rightarrow> (st, Inr entry))"

definition session_by_job :: "string \<Rightarrow> NodeState \<Rightarrow> ProxySessionRecord option" where
  "session_by_job job_id st = find (\<lambda>s. psr_job_id s = job_id) (map snd (ss_sessions (nd_sessions st)))"

definition peer_status :: "string \<Rightarrow> NodeState \<Rightarrow> PeerStatusRecord option" where
  "peer_status target st = om_get (pe_peers (nd_peers st)) target"

section \<open>The handler\<close>

definition peer_status_allows_proxy_session_reuse :: "PeerStatusRecord \<Rightarrow> bool" where
  "peer_status_allows_proxy_session_reuse peer \<longleftrightarrow> \<not> pst_update_required peer"

definition proxy_session_matches_existing :: "session_env \<Rightarrow> string \<Rightarrow> ProxySessionSpec \<Rightarrow> NodeState \<Rightarrow> bool" where
  "proxy_session_matches_existing env job_id spec st =
    (case session_by_job job_id st of
       None \<Rightarrow> False
     | Some session \<Rightarrow>
         (case to_spec env session of
            Some existing \<Rightarrow> proxy_session_specs_match existing spec
          | None \<Rightarrow> False))"

definition proxy_session_peer_allows_reuse :: "ProxySessionSpec \<Rightarrow> NodeState \<Rightarrow> bool" where
  "proxy_session_peer_allows_reuse spec st =
    (case peer_status (px_target spec) st of
       None \<Rightarrow> True
     | Some peer \<Rightarrow> peer_status_allows_proxy_session_reuse peer)"

definition route_id_is_live :: "string \<Rightarrow> NodeState \<Rightarrow> bool" where
  "route_id_is_live route_id st = (case nd_routes st route_id of None \<Rightarrow> False | Some finished \<Rightarrow> \<not> finished)"

definition accepted_response :: "ProxySessionSpec \<Rightarrow> DaemonJobRecord \<Rightarrow> json \<Rightarrow> bool \<Rightarrow> json" where
  "accepted_response spec job session reused_existing = json_obj
    [(''ok'', JBool True), (''kind'', JStr ''proxy_session''), (''daemon_api'', JStr ''v0.3''), (''accepted'', JBool True),
     (''reused_existing'', JBool reused_existing), (''session_id'', JStr (spec_session_id spec)),
     (''job'', job_to_value job), (''session'', session), (''spec'', session_spec_json spec),
     (''route'', json_obj
       [(''route_id'', JStr (spec_route_id spec)), (''remote_url'', JStr (spec_remote_url spec)),
        (''readiness'', json_obj
          [(''state'', JStr (if reused_existing then ''reused'' else ''accepted'')),
           (''phase'', JStr (if reused_existing then ''existing_job'' else ''queued'')),
           (''next_action'', JStr ''poll_job'')])]),
     (''remote_url'', JStr (spec_remote_url spec)), (''apply_remote_settings_required'', JBool True)]"

text \<open>
  A handled request gives the value of its answer and the job a task was spawned for, if one was.
\<close>

type_synonym session_outcome = "NodeState \<times> (session_error, json \<times> DaemonJobRecord option) result"

definition reuse_session :: "session_env \<Rightarrow> ProxySessionSpec \<Rightarrow> DaemonJobRecord \<Rightarrow> NodeState \<Rightarrow> session_outcome" where
  "reuse_session env spec existing st =
    (case upsert_session_from_job env spec existing None st of
       (st, Inl e) \<Rightarrow> (st, Inl e)
     | (st, Inr session) \<Rightarrow> (st, Inr (accepted_response spec existing (session_to_value session) True, None)))"

definition session_job :: "session_env \<Rightarrow> ProxySessionSpec \<Rightarrow> DaemonJobRecord" where
  "session_job env spec =
    transition (se_clock env 1) Queued PhQueued 0
      (with_remote_url (Some (spec_remote_url spec))
        (with_route (spec_route_id spec)
          (with_workspace (px_workspace_id spec)
            (with_target (px_target spec) (job_new (se_clock env 0) (spec_job_id spec) ''ensure_proxy_session'')))))"

definition start_session :: "session_env \<Rightarrow> ProxySessionSpec \<Rightarrow> NodeState \<Rightarrow> session_outcome" where
  "start_session env spec st =
    (case upsert (se_enc_jobs env) (se_save env) (se_clock env 2) (session_job env spec) ''proxy session accepted''
        (nd_jobs st, nd_files st) of
       ((jobs, fs), Inl e) \<Rightarrow> (st\<lparr>nd_jobs := jobs, nd_files := fs\<rparr>, Inl (JobNotSaved e))
     | ((jobs, fs), Inr job) \<Rightarrow>
         (case upsert_session_from_job env spec job None (st\<lparr>nd_jobs := jobs, nd_files := fs\<rparr>) of
            (st, Inl e) \<Rightarrow> (st, Inl e)
          | (st, Inr session) \<Rightarrow>
              (st, Inr (accepted_response spec job (session_to_value session) False, Some job))))"

definition ensure_proxy_session :: "session_env \<Rightarrow> ProxySessionSpec option \<Rightarrow> NodeState \<Rightarrow> session_outcome" where
  "ensure_proxy_session env request st =
    (case request of
       None \<Rightarrow> (st, Inl SpecMissing)
     | Some spec \<Rightarrow>
         (case registry_get (nd_jobs st) (spec_job_id spec) of
            Some existing \<Rightarrow>
              if reusable_proxy_session_job existing (route_id_is_live (spec_route_id spec) st)
                \<and> proxy_session_matches_existing env (spec_job_id spec) spec st
                \<and> proxy_session_peer_allows_reuse spec st
              then reuse_session env spec existing st
              else start_session env spec st
          | None \<Rightarrow> start_session env spec st))"

section \<open>Sessions and their jobs\<close>

text \<open>Session and job of a request share the sanitized key in their identifiers.\<close>

definition sessions_ok :: "SessionStore \<Rightarrow> bool" where
  "sessions_ok store \<longleftrightarrow> om_inv (ss_sessions store) \<and>
    (\<forall>(i, s)\<in>set (ss_sessions store). \<exists>k. i = ''session:'' @ k \<and> psr_job_id s = ''proxy:'' @ k)"

definition node_ok :: "NodeState \<Rightarrow> bool" where
  "node_ok st \<longleftrightarrow> store_wf (reg_store (nd_jobs st)) \<and> sessions_ok (nd_sessions st)"

lemma session_by_job_eq:
  assumes "sessions_ok (nd_sessions st)"
  shows "session_by_job (spec_job_id spec) st = om_get (ss_sessions (nd_sessions st)) (spec_session_id spec)"
proof -
  let ?m = "ss_sessions (nd_sessions st)"
  have inv: "om_inv ?m" and
    ids: "(i, s) \<in> set ?m \<Longrightarrow> \<exists>k. i = ''session:'' @ k \<and> psr_job_id s = ''proxy:'' @ k" for i s
    using assms by (auto simp: sessions_ok_def)
  have same: "psr_job_id s = spec_job_id spec \<longleftrightarrow> i = spec_session_id spec" if "(i, s) \<in> set ?m" for i s
    using ids [OF that] by (auto simp: spec_job_id_def spec_session_id_def job_id_for_key_def session_id_for_key_def)
  show ?thesis
  proof (cases "session_by_job (spec_job_id spec) st")
    case None
    then have "\<forall>(i, s)\<in>set ?m. i \<noteq> spec_session_id spec"
      using same by (fastforce simp: session_by_job_def find_None_iff)
    then have "om_get ?m (spec_session_id spec) = None"
      by (force simp: om_get_def map_of_eq_None_iff)
    then show ?thesis using None by simp
  next
    case (Some s)
    then obtain i where "(i, s) \<in> set ?m" "psr_job_id s = spec_job_id spec"
      by (auto simp: session_by_job_def find_Some_iff in_set_conv_nth) (metis nth_mem prod.collapse)
    then show ?thesis
      using Some same inv by (metis om_get_Some_iff)
  qed
qed

lemma to_spec_eq:
  "to_spec env s = Some l \<longleftrightarrow> (\<exists>ssh bind policy.
    decode_optional (se_dec_ssh env) (psr_ssh s) = Some ssh \<and> ip_parse (psr_remote_bind s) = Some bind \<and>
    decode_or_default apply_policy_default (se_dec_policy env) (psr_apply_policy s) = Some policy \<and>
    l = \<lparr>px_target = psr_target s, px_workspace_id = psr_workspace_id s, px_ssh = ssh,
      px_workspace_paths = psr_workspace_paths s, px_local_proxy = psr_local_proxy s, px_remote_bind = bind,
      px_remote_port_policy = port_policy_new (psr_remote_port s), px_connect_mode = RouteConnectMode.ReverseLink,
      px_apply_policy = policy\<rparr>)"
  by (auto simp: to_spec_def split: option.splits)

text \<open>What an upsert of a session leaves: the entry follows the specification and the job, the rest is untouched.\<close>

definition session_entry :: "session_env \<Rightarrow> ProxySessionSpec \<Rightarrow> DaemonJobRecord \<Rightarrow> NodeState \<Rightarrow> ProxySessionRecord" where
  "session_entry env spec job st = update_proxy_session_record_from_job (se_clock env 4)
    (case om_get (ss_sessions (nd_sessions st)) (spec_session_id spec) of
       Some s \<Rightarrow> s | None \<Rightarrow> proxy_session_record_from_spec_and_job (se_clock env 3) spec job) spec job"

lemma upsert_session_state:
  assumes "upsert_session_from_job env spec job None st = (st', r)"
  shows "nd_jobs st' = nd_jobs st" "nd_routes st' = nd_routes st" "nd_peers st' = nd_peers st"
    "ss_sessions (nd_sessions st') = om_insert (spec_session_id spec) (session_entry env spec job st) (ss_sessions (nd_sessions st))"
    "r = Inr s \<Longrightarrow> s = session_entry env spec job st"
  using assms
  by (auto simp: upsert_session_from_job_def session_entry_def save_sessions_def Let_def split: option.splits prod.splits sum.splits)

lemma session_entry_fields:
  "psr_target (session_entry env spec job st) = px_target spec"
  "psr_workspace_id (session_entry env spec job st) = px_workspace_id spec"
  "psr_ssh (session_entry env spec job st) = map_option ssh_target_json (px_ssh spec)"
  "psr_workspace_paths (session_entry env spec job st) = px_workspace_paths spec"
  "psr_local_proxy (session_entry env spec job st) = px_local_proxy spec"
  "psr_remote_bind (session_entry env spec job st) = ip_display (px_remote_bind spec)"
  "psr_remote_port (session_entry env spec job st) = rp_preferred (px_remote_port_policy spec)"
  "psr_remote_url (session_entry env spec job st) = unwrap_or (jr_remote_url job) (spec_remote_url spec)"
  "psr_apply_policy (session_entry env spec job st) = Some (apply_policy_json (px_apply_policy spec))"
  by (simp_all add: session_entry_def update_proxy_session_record_from_job_def Let_def)

lemma session_entry_job_id:
  "psr_job_id (session_entry env spec job st) =
    (case om_get (ss_sessions (nd_sessions st)) (spec_session_id spec) of Some s \<Rightarrow> psr_job_id s | None \<Rightarrow> jr_id job)"
  by (simp add: session_entry_def update_proxy_session_record_from_job_def proxy_session_record_from_spec_and_job_def
      Let_def split: option.split)

lemma sessions_ok_upsert:
  assumes "sessions_ok (nd_sessions st)" "jr_id job = spec_job_id spec"
    and "upsert_session_from_job env spec job None st = (st', r)"
  shows "sessions_ok (nd_sessions st')"
proof -
  let ?m = "ss_sessions (nd_sessions st)" and ?e = "session_entry env spec job st"
  have inv: "om_inv ?m" using assms(1) by (simp add: sessions_ok_def)
  have "psr_job_id ?e = spec_job_id spec"
  proof (cases "om_get ?m (spec_session_id spec)")
    case (Some s)
    then have "(spec_session_id spec, s) \<in> set ?m" using inv by (simp add: om_get_Some_iff)
    then show ?thesis
      using assms(1) Some
      by (fastforce simp: sessions_ok_def session_entry_job_id spec_job_id_def spec_session_id_def job_id_for_key_def session_id_for_key_def)
  qed (simp add: session_entry_job_id assms(2))
  then have "\<exists>k. spec_session_id spec = ''session:'' @ k \<and> psr_job_id ?e = ''proxy:'' @ k"
    by (simp add: spec_job_id_def spec_session_id_def job_id_for_key_def session_id_for_key_def)
  then show ?thesis
    using assms(1) inv unfolding sessions_ok_def upsert_session_state(4) [OF assms(3)]
    by (auto simp: om_insert_set om_inv_insert)
qed

lemma upsert_store_get:
  assumes "store_wf store" "\<not> job_is_terminal job"
  shows "om_get (js_jobs (upsert_store now job message store)) (jr_id job) = Some job"
proof -
  let ?s = "push_event now job message (store\<lparr>js_jobs := om_insert (jr_id job) job (js_jobs store)\<rparr>)"
  have "store_wf ?s" "om_get (js_jobs ?s) (jr_id job) = Some job"
    by (simp_all add: store_wf_insert assms(1) om_get_insert)
  then show ?thesis
    using pruned_is_terminal [of ?s "jr_id job" job] assms(2) by (auto simp: upsert_store_def om_get_prune)
qed

lemma session_job_facts [simp]:
  "jr_id (session_job env spec) = spec_job_id spec" "jr_state (session_job env spec) = Queued"
  by (simp_all add: session_job_def transition_def with_remote_url_def with_route_def with_workspace_def with_target_def job_new_def)

section \<open>The decision\<close>

lemma reusable_job_iff:
  "reusable_proxy_session_job job (route_id_is_live i st) \<longleftrightarrow>
    jr_state job = Queued \<or> jr_state job = Running
    \<or> jr_state job = WaitingRetry \<and> jr_blocker job \<noteq> Some ''route_not_running''
    \<or> jr_state job = Healthy \<and> nd_routes st i = Some False"
  by (cases "jr_state job")
    (auto simp: reusable_proxy_session_job_def route_id_is_live_def split: option.splits)

definition record_agrees :: "session_env \<Rightarrow> ProxySessionSpec \<Rightarrow> ProxySessionRecord \<Rightarrow> bool" where
  "record_agrees env spec s \<longleftrightarrow> (\<exists>ssh bind.
    psr_target s = px_target spec \<and> psr_workspace_id s = px_workspace_id spec
    \<and> decode_optional (se_dec_ssh env) (psr_ssh s) = Some ssh
    \<and> map_option (\<lambda>t. t\<lparr>sp_identity := []\<rparr>) ssh = map_option (\<lambda>t. t\<lparr>sp_identity := []\<rparr>) (px_ssh spec)
    \<and> psr_workspace_paths s = px_workspace_paths spec \<and> psr_local_proxy s = px_local_proxy spec
    \<and> ip_parse (psr_remote_bind s) = Some bind \<and> ip_display bind = ip_display (px_remote_bind spec)
    \<and> decode_or_default apply_policy_default (se_dec_policy env) (psr_apply_policy s) = Some (px_apply_policy spec)
    \<and> (let wanted = px_remote_port_policy spec; first = unat (rp_preferred wanted); port = unat (psr_remote_port s) in
       port = first \<or> rp_auto_pick wanted \<and> first \<le> port \<and> port < first + max (unat (rp_range_size wanted)) 1))"

lemma record_matches_iff:
  "(case to_spec env s of Some l \<Rightarrow> proxy_session_specs_match l spec | None \<Rightarrow> False) \<longleftrightarrow>
    record_agrees env spec s \<and> px_connect_mode spec = RouteConnectMode.ReverseLink"
proof -
  have "(case to_spec env s of Some l \<Rightarrow> proxy_session_specs_match l spec | None \<Rightarrow> False) \<longleftrightarrow>
      (\<exists>l. to_spec env s = Some l \<and> proxy_session_specs_match l spec)"
    by (auto split: option.splits)
  then show ?thesis
    unfolding to_spec_eq specs_match_iff record_agrees_def Let_def by (auto simp: port_policy_new_def)
qed

lemma matches_existing_iff:
  "proxy_session_matches_existing env (spec_job_id spec) spec st \<longleftrightarrow>
    (\<exists>s. session_by_job (spec_job_id spec) st = Some s \<and> record_agrees env spec s)
    \<and> px_connect_mode spec = RouteConnectMode.ReverseLink"
  by (auto simp: proxy_session_matches_existing_def record_matches_iff split: option.split)

lemma peer_allows_iff:
  "proxy_session_peer_allows_reuse spec st \<longleftrightarrow>
    (case om_get (pe_peers (nd_peers st)) (px_target spec) of None \<Rightarrow> True | Some p \<Rightarrow> pst_update_required p = False)"
  by (simp add: proxy_session_peer_allows_reuse_def peer_status_def peer_status_allows_proxy_session_reuse_def split: option.split)

text \<open>A record that was written for a request agrees with it.\<close>

lemma entry_agrees:
  assumes "\<forall>t\<in>set_option (px_ssh spec). se_dec_ssh env' (ssh_target_json t) = Some t"
    and "se_dec_policy env' (apply_policy_json (px_apply_policy spec)) = Some (px_apply_policy spec)"
    and "ip_parse (ip_display (px_remote_bind spec)) = Some (px_remote_bind spec)"
  shows "record_agrees env' spec (session_entry env spec job st)"
  using assms unfolding record_agrees_def session_entry_fields
  by (cases "px_ssh spec") (auto simp: decode_optional_def decode_or_default_def unwrap_or_def Let_def)

text \<open>Every answered request ends with an upsert of its session for a job that can serve it.\<close>

lemma answer_remote_url: "json_get (accepted_response spec job session reused) ''remote_url'' = Some (JStr (spec_remote_url spec))"
  by (simp add: accepted_response_def)

lemma reuse_session_ok:
  assumes "reuse_session env spec job st = (st1, Inr (answer, started))"
  obtains session where "upsert_session_from_job env spec job None st = (st1, Inr session)"
    "answer = accepted_response spec job (session_to_value session) True"
  using assms by (auto simp: reuse_session_def split: prod.splits sum.splits)

lemma start_session_ok:
  assumes "node_ok st" "start_session env spec st = (st1, Inr (answer, started))"
  obtains sti session where "upsert_session_from_job env spec (session_job env spec) None sti = (st1, Inr session)"
    "answer = accepted_response spec (session_job env spec) (session_to_value session) False"
    "node_ok sti" "registry_get (nd_jobs sti) (spec_job_id spec) = Some (session_job env spec)" "nd_peers sti = nd_peers st"
proof -
  let ?job = "session_job env spec"
  obtain jobs fs r where up: "upsert (se_enc_jobs env) (se_save env) (se_clock env 2) ?job ''proxy session accepted''
      (nd_jobs st, nd_files st) = ((jobs, fs), r)"
    by (metis prod.exhaust)
  note res = upsert_result [OF up]
  let ?sti = "st\<lparr>nd_jobs := jobs, nd_files := fs\<rparr>"
  obtain job where "r = Inr job"
    using assms(2) up by (cases r) (auto simp: start_session_def)
  then have job: "r = Inr ?job"
    using res(4) by auto
  have wf: "store_wf (reg_store (nd_jobs st))"
    using assms(1) by (simp add: node_ok_def)
  have "node_ok ?sti"
    using assms(1) upsert_store_bounded [OF wf] by (simp add: node_ok_def res(2) store_bounded_def)
  moreover have "registry_get jobs (spec_job_id spec) = Some ?job"
    using upsert_store_get [OF wf, of ?job] by (simp add: registry_get_def res(2) job_is_terminal_def)
  moreover obtain session where "upsert_session_from_job env spec ?job None ?sti = (st1, Inr session)"
    "answer = accepted_response spec ?job (session_to_value session) False"
    using assms(2) up job by (auto simp: start_session_def split: prod.splits sum.splits)
  ultimately show ?thesis using that [of ?sti session] by simp
qed

lemma ensure_session_ok:
  assumes "node_ok st" "ensure_proxy_session env (Some spec) st = (st1, Inr (answer, started))"
  obtains job sti session where "upsert_session_from_job env spec job None sti = (st1, Inr session)"
    "node_ok sti" "registry_get (nd_jobs sti) (spec_job_id spec) = Some job"
    "reusable_proxy_session_job job (route_id_is_live (spec_route_id spec) sti)" "nd_peers sti = nd_peers st"
    "json_get answer ''remote_url'' = Some (JStr (spec_remote_url spec))"
proof -
  consider (reuse) job where "registry_get (nd_jobs st) (spec_job_id spec) = Some job"
      "reusable_proxy_session_job job (route_id_is_live (spec_route_id spec) st)"
      "reuse_session env spec job st = (st1, Inr (answer, started))"
    | (start) "start_session env spec st = (st1, Inr (answer, started))"
    using assms(2) by (auto simp: ensure_proxy_session_def split: option.splits if_splits)
  then show ?thesis
  proof cases
    case reuse
    then show ?thesis
      using that [OF _ assms(1)] by (metis answer_remote_url reuse_session_ok)
  next
    case start
    then obtain sti session where "upsert_session_from_job env spec (session_job env spec) None sti = (st1, Inr session)"
      "answer = accepted_response spec (session_job env spec) (session_to_value session) False"
      "node_ok sti" "registry_get (nd_jobs sti) (spec_job_id spec) = Some (session_job env spec)" "nd_peers sti = nd_peers st"
      using start_session_ok [OF assms(1)] by metis
    then show ?thesis
      using that answer_remote_url by (simp add: reusable_proxy_session_job_def)
  qed
qed

section \<open>Properties\<close>

text \<open>
  C20. When a request is served by a running session.  It is, exactly if the job under the request's key is queued or
  running, waits for a retry that is not due to a stopped route, or is healthy with a live route; the saved record
  of that job can be read and agrees with the request in target, workspace, paths, local proxy, remote address, what is
  applied at the remote side and the SSH parameters but for the list of identities; the saved port is the one asked for or
  lies in the range the request leaves open; the request asks for the connect mode reverse-link, the only mode a
  saved record is read back with; and the peer is not known to need an update.  Otherwise a new job is started.
\<close>

theorem session_reuse_exact:
  "ensure_proxy_session env (Some spec) st =
    (case registry_get (nd_jobs st) (spec_job_id spec) of
       None \<Rightarrow> start_session env spec st
     | Some job \<Rightarrow>
         if (jr_state job = Queued \<or> jr_state job = Running
             \<or> jr_state job = WaitingRetry \<and> jr_blocker job \<noteq> Some ''route_not_running''
             \<or> jr_state job = Healthy \<and> nd_routes st (spec_route_id spec) = Some False)
           \<and> (\<exists>s ssh bind.
             find (\<lambda>s. psr_job_id s = spec_job_id spec) (map snd (ss_sessions (nd_sessions st))) = Some s
             \<and> psr_target s = px_target spec \<and> psr_workspace_id s = px_workspace_id spec
             \<and> decode_optional (se_dec_ssh env) (psr_ssh s) = Some ssh
             \<and> map_option (\<lambda>t. t\<lparr>sp_identity := []\<rparr>) ssh = map_option (\<lambda>t. t\<lparr>sp_identity := []\<rparr>) (px_ssh spec)
             \<and> psr_workspace_paths s = px_workspace_paths spec \<and> psr_local_proxy s = px_local_proxy spec
             \<and> ip_parse (psr_remote_bind s) = Some bind \<and> ip_display bind = ip_display (px_remote_bind spec)
             \<and> decode_or_default apply_policy_default (se_dec_policy env) (psr_apply_policy s) = Some (px_apply_policy spec)
             \<and> (let wanted = px_remote_port_policy spec; first = unat (rp_preferred wanted); port = unat (psr_remote_port s) in
                port = first \<or> rp_auto_pick wanted \<and> first \<le> port \<and> port < first + max (unat (rp_range_size wanted)) 1))
           \<and> px_connect_mode spec = RouteConnectMode.ReverseLink
           \<and> (case om_get (pe_peers (nd_peers st)) (px_target spec) of None \<Rightarrow> True | Some p \<Rightarrow> pst_update_required p = False)
         then reuse_session env spec job st
         else start_session env spec st)"
proof -
  have "(\<exists>s ssh bind.
      find (\<lambda>s. psr_job_id s = spec_job_id spec) (map snd (ss_sessions (nd_sessions st))) = Some s
      \<and> psr_target s = px_target spec \<and> psr_workspace_id s = px_workspace_id spec
      \<and> decode_optional (se_dec_ssh env) (psr_ssh s) = Some ssh
      \<and> map_option (\<lambda>t. t\<lparr>sp_identity := []\<rparr>) ssh = map_option (\<lambda>t. t\<lparr>sp_identity := []\<rparr>) (px_ssh spec)
      \<and> psr_workspace_paths s = px_workspace_paths spec \<and> psr_local_proxy s = px_local_proxy spec
      \<and> ip_parse (psr_remote_bind s) = Some bind \<and> ip_display bind = ip_display (px_remote_bind spec)
      \<and> decode_or_default apply_policy_default (se_dec_policy env) (psr_apply_policy s) = Some (px_apply_policy spec)
      \<and> (let wanted = px_remote_port_policy spec; first = unat (rp_preferred wanted); port = unat (psr_remote_port s) in
         port = first \<or> rp_auto_pick wanted \<and> first \<le> port \<and> port < first + max (unat (rp_range_size wanted)) 1)) \<longleftrightarrow>
    (\<exists>s. session_by_job (spec_job_id spec) st = Some s \<and> record_agrees env spec s)"
    unfolding session_by_job_def record_agrees_def by blast
  then show ?thesis
    unfolding ensure_proxy_session_def
    by (simp only: option.case reusable_job_iff matches_existing_iff peer_allows_iff conj_assoc)
qed

text \<open>
  C28. Repeating a request.  After a request was answered, with success, the daemon holds a job for it, its saved session
  has the preferred port of the request, and the answer names the URL at that port, also when a session at another port
  of the range was reused.  The same request again is served by the running job, with no new one, if it asks for the
  connect mode reverse-link and the peer is not known to need an update; with any other mode it starts anew every time.
\<close>

theorem session_request_repeats:
  assumes "node_ok st" "ensure_proxy_session env (Some spec) st = (st1, Inr (answer, started))"
    and "\<forall>t\<in>set_option (px_ssh spec). se_dec_ssh env' (ssh_target_json t) = Some t"
    and "se_dec_policy env' (apply_policy_json (px_apply_policy spec)) = Some (px_apply_policy spec)"
    and "ip_parse (ip_display (px_remote_bind spec)) = Some (px_remote_bind spec)"
  shows "node_ok st1 \<and> json_get answer ''remote_url'' = Some (JStr (spec_remote_url spec)) \<and>
    (\<exists>job s. registry_get (nd_jobs st1) (spec_job_id spec) = Some job \<and>
      om_get (ss_sessions (nd_sessions st1)) (spec_session_id spec) = Some s \<and>
      psr_remote_port s = rp_preferred (px_remote_port_policy spec) \<and>
      ensure_proxy_session env' (Some spec) st1 =
        (if px_connect_mode spec = RouteConnectMode.ReverseLink \<and>
            (case om_get (pe_peers (nd_peers st)) (px_target spec) of None \<Rightarrow> True | Some p \<Rightarrow> pst_update_required p = False)
         then reuse_session env' spec job st1 else start_session env' spec st1))"
proof -
  obtain job sti session where up: "upsert_session_from_job env spec job None sti = (st1, Inr session)"
    and sti: "node_ok sti" "registry_get (nd_jobs sti) (spec_job_id spec) = Some job"
      "reusable_proxy_session_job job (route_id_is_live (spec_route_id spec) sti)" "nd_peers sti = nd_peers st"
    and url: "json_get answer ''remote_url'' = Some (JStr (spec_remote_url spec))"
    using ensure_session_ok [OF assms(1,2)] by metis
  note st1 = upsert_session_state [OF up]
  let ?e = "session_entry env spec job sti"
  have "jr_id job = spec_job_id spec"
    using sti(1,2) store_wf_get by (auto simp: node_ok_def registry_get_def)
  then have ok: "node_ok st1"
    using sti(1) sessions_ok_upsert [OF _ _ up] st1(1) by (simp add: node_ok_def)
  have saved: "om_get (ss_sessions (nd_sessions st1)) (spec_session_id spec) = Some ?e"
    by (simp add: st1(4) om_get_insert)
  then have "session_by_job (spec_job_id spec) st1 = Some ?e"
    using ok session_by_job_eq by (simp add: node_ok_def)
  then have "proxy_session_matches_existing env' (spec_job_id spec) spec st1 \<longleftrightarrow> px_connect_mode spec = RouteConnectMode.ReverseLink"
    using entry_agrees [OF assms(3-5)] by (simp add: matches_existing_iff)
  moreover have "registry_get (nd_jobs st1) (spec_job_id spec) = Some job"
    "reusable_proxy_session_job job (route_id_is_live (spec_route_id spec) st1)"
    using sti(2,3) st1(1,2) by (simp_all add: route_id_is_live_def)
  moreover have "proxy_session_peer_allows_reuse spec st1 \<longleftrightarrow>
      (case om_get (pe_peers (nd_peers st)) (px_target spec) of None \<Rightarrow> True | Some p \<Rightarrow> pst_update_required p = False)"
    by (simp add: peer_allows_iff st1(3) sti(4))
  ultimately show ?thesis
    using ok url saved session_entry_fields(7) [of env spec job sti] by (auto simp: ensure_proxy_session_def)
qed

definition sample_request :: ProxySessionSpec where
  "sample_request =
    \<lparr>px_target = ''h'', px_workspace_id = None, px_ssh = None, px_workspace_paths = [],
     px_local_proxy = ''http://127.0.0.1:10808/'', px_remote_bind = V4 [127, 0, 0, 1],
     px_remote_port_policy = port_policy_new 17890, px_connect_mode = RouteConnectMode.ReverseLink,
     px_apply_policy = apply_policy_default\<rparr>"

definition sample_senv :: session_env where
  "sample_senv =
    \<lparr>se_dec_ssh = (\<lambda>_. None), se_dec_policy = (\<lambda>_. Some apply_policy_default), se_enc_jobs = (\<lambda>_. Some []),
     se_enc_sessions = (\<lambda>_. Some []), se_save = sample_env, se_clock = (\<lambda>_. 5)\<rparr>"

text \<open>A daemon with a session for the request's key at the sixth port of its range.\<close>

definition sample_node :: NodeState where
  "sample_node =
    (let job = session_job sample_senv sample_request in
     \<lparr>nd_jobs = \<lparr>reg_path = sample_path, reg_store = job_store_default\<lparr>js_jobs := [(''proxy:h'', job)]\<rparr>\<rparr>,
      nd_sessions_path = sample_path,
      nd_sessions = \<lparr>ss_version = 1, ss_sessions =
        [(''session:h'', proxy_session_record_from_spec_and_job 5 (with_remote_port 17895 sample_request) job)]\<rparr>,
      nd_peers = \<lparr>pe_version = 1, pe_peers = []\<rparr>, nd_routes = Map.empty, nd_files = Map.empty\<rparr>)"

lemma sample_request_ids:
  "spec_job_id sample_request = ''proxy:h''" "spec_session_id sample_request = ''session:h''"
  "ip_parse (ip_display (px_remote_bind sample_request)) = Some (px_remote_bind sample_request)"
  by code_simp+

lemma sample_node_ok: "node_ok sample_node"
  by (simp add: sample_node_def node_ok_def sessions_ok_def store_wf_def om_inv_def job_store_default_def Let_def
      sample_request_ids proxy_session_record_from_spec_and_job_def)

lemma sample_node_job: "registry_get (nd_jobs sample_node) ''proxy:h'' = Some (session_job sample_senv sample_request)"
  by (simp add: sample_node_def registry_get_def om_get_def Let_def)

lemma sample_node_session:
  "om_get (ss_sessions (nd_sessions sample_node)) ''session:h'' =
    Some (proxy_session_record_from_spec_and_job 5 (with_remote_port 17895 sample_request) (session_job sample_senv sample_request))"
  by (simp add: sample_node_def om_get_def Let_def)

lemma sample_reused:
  "ensure_proxy_session sample_senv (Some sample_request) sample_node =
    reuse_session sample_senv sample_request (session_job sample_senv sample_request) sample_node"
proof -
  have "record_agrees sample_senv sample_request (proxy_session_record_from_spec_and_job 5
      (with_remote_port 17895 sample_request) (session_job sample_senv sample_request))"
    using sample_request_ids(3)
    by (simp add: record_agrees_def proxy_session_record_from_spec_and_job_def with_remote_port_def decode_optional_def
        decode_or_default_def unwrap_or_def sample_senv_def Let_def)
      (simp add: sample_request_def port_policy_new_def)
  moreover have "session_by_job ''proxy:h'' sample_node = om_get (ss_sessions (nd_sessions sample_node)) ''session:h''"
    using session_by_job_eq [of sample_node sample_request] sample_node_ok by (simp add: node_ok_def sample_request_ids)
  moreover have "px_connect_mode sample_request = RouteConnectMode.ReverseLink"
    by (simp add: sample_request_def)
  moreover have "proxy_session_peer_allows_reuse sample_request sample_node"
    by (simp add: peer_allows_iff sample_node_def om_get_def Let_def)
  ultimately show ?thesis
    using matches_existing_iff [of sample_senv sample_request sample_node] sample_node_session
    by (simp add: ensure_proxy_session_def sample_node_job sample_request_ids reusable_proxy_session_job_def)
qed

lemma sample_reuse_saved:
  "\<exists>st1 answer. ensure_proxy_session sample_senv (Some sample_request) sample_node = (st1, Inr (answer, None))"
proof -
  have "snd (save_text_file_private sample_env sample_path [] Map.empty) = Inr ()"
    using temp_save_path_neq [of sample_env sample_path] by (simp add: save_defs Let_def sample_env_def)
  then have "\<exists>fs. save_text_file_private sample_env sample_path [] Map.empty = (fs, Inr ())"
    by (metis prod.collapse)
  then show ?thesis
    unfolding sample_reused
    by (auto simp: reuse_session_def upsert_session_from_job_def save_sessions_def sample_senv_def sample_node_def Let_def)
qed

theorem session_request_repeats_witness:
  "\<exists>st1 answer job.
    ensure_proxy_session sample_senv (Some sample_request) sample_node = (st1, Inr (answer, None)) \<and>
    map_option psr_remote_port (om_get (ss_sessions (nd_sessions sample_node)) ''session:h'') = Some 17895 \<and>
    map_option psr_remote_port (om_get (ss_sessions (nd_sessions st1)) ''session:h'') = Some 17890 \<and>
    ensure_proxy_session sample_senv (Some sample_request) st1 = reuse_session sample_senv sample_request job st1"
proof -
  obtain st1 answer where first: "ensure_proxy_session sample_senv (Some sample_request) sample_node = (st1, Inr (answer, None))"
    using sample_reuse_saved by blast
  have "\<forall>t\<in>set_option (px_ssh sample_request). se_dec_ssh sample_senv (ssh_target_json t) = Some t"
    "se_dec_policy sample_senv (apply_policy_json (px_apply_policy sample_request)) = Some (px_apply_policy sample_request)"
    by (simp_all add: sample_senv_def sample_request_def)
  from session_request_repeats [OF sample_node_ok first this sample_request_ids(3)]
  obtain job s where "om_get (ss_sessions (nd_sessions st1)) ''session:h'' = Some s"
    "psr_remote_port s = rp_preferred (px_remote_port_policy sample_request)"
    "ensure_proxy_session sample_senv (Some sample_request) st1 = reuse_session sample_senv sample_request job st1"
    by (auto simp: sample_request_ids sample_node_def om_get_def Let_def) (simp add: sample_request_def)
  moreover have "map_option psr_remote_port (om_get (ss_sessions (nd_sessions sample_node)) ''session:h'') = Some 17895"
    by (simp add: sample_node_session proxy_session_record_from_spec_and_job_def with_remote_port_def)
  ultimately show ?thesis
    using first by (intro exI [of _ st1] exI [of _ answer] exI [of _ job]) (simp add: sample_request_def port_policy_new_def)
qed

end
