(* ===== verification/Spec2Isabelle.thy ===== *)
theory Spec2Isabelle
  imports Frame_Stream Tunnel Socks5 Http_Relay Stream_Header Redaction Core_Model Repair Jobs Version_Compat
    Control_Commands Route_Plan Route_Table Remote_Service Peer_Handshake Session_Pool Proxy_Session
begin

text \<open>
  A verification library for \<^verbatim>\<open>ssh_proxy\<close>, a proxy daemon whose nodes carry SOCKS5, HTTP and fixed TCP routes over
  SSH, QUIC, TLS or plain TCP.  Paths below are relative to \<^verbatim>\<open>src/crates\<close>.

  \<^bold>\<open>The program.\<close>  A listener reads a proxy request (SOCKS5 or HTTP) and asks a data plane for a stream to its target.
  The SPX data plane multiplexes streams as frames over one transport between a controller (the bridge) and a
  remote helper; the SSH data plane takes channels from a pool of SSH sessions; the QUIC data plane opens a QUIC
  stream per flow and starts it with a header.  A node daemon keeps the routes in a table, starts each under a
  supervisor, chooses its transport by policy and preflight probes, records its jobs, and answers control
  commands.  Peers are installed by lifecycle plans whose steps run commands on the local or remote host.

  \<^bold>\<open>Foundations.\<close>
  \<^item> \<^verbatim>\<open>SPX_Prelude\<close>: machine integers as words, results as sums, big-endian fields (locale \<^verbatim>\<open>fixed_field\<close>, one
    interpretation per width).
  \<^item> \<^verbatim>\<open>Rust_Strings\<close>, \<^verbatim>\<open>Ip_Addr\<close>, \<^verbatim>\<open>Json\<close>, \<^verbatim>\<open>Ordered_Map\<close>: the parts of the standard library and of serde_json the
    sources use.  Locale \<^verbatim>\<open>textual\<close> (printing and parsing agree) is interpreted on the enumerations of \<^verbatim>\<open>Core_Model\<close>,
    locale \<^verbatim>\<open>keyed_store\<close> on ordered maps.
  \<^item> \<^verbatim>\<open>Byte_IO\<close>: readers that deliver bytes in chunks of any size and end or fault anywhere, writers that take any
    part of what they are offered.
  \<^item> \<^verbatim>\<open>Wire_Cursor\<close>: the contract of a payload cursor, interpreted on the cursors of both decoders.

  \<^bold>\<open>Wire formats.\<close>
  \<^item> \<^verbatim>\<open>Frame_Codec\<close>, \<^verbatim>\<open>Frame_Stream\<close> (\<^verbatim>\<open>ssh-proxy-protocol/src/protocol.rs\<close>, \<^verbatim>\<open>protocol_core/codec.rs\<close>): frames, the
    incremental reader and the batch writer.  The reader refines a parser of the whole stream, batches round
    trip over any transport, a failing batch leaves whole frames and at most the beginning of one more, and a
    transport that makes progress completes a batch.
  \<^item> \<^verbatim>\<open>Stream_Header\<close> (\<^verbatim>\<open>ssh-proxy/src/quic_native/stream_header.rs\<close>, \<^verbatim>\<open>flow.rs\<close>): the QUIC flow header round trips
    exactly when its body is not 65536 bytes long; a header of that size is written without an error and cannot be read.
  \<^item> \<^verbatim>\<open>Socks5\<close>, \<^verbatim>\<open>Http_Proxy\<close>, \<^verbatim>\<open>Http_Relay\<close> (\<^verbatim>\<open>ssh-proxy-transport/src/proxy\<close>, \<^verbatim>\<open>ssh-proxy/src/socks/relay.rs\<close>):
    requests are read exactly, the HTTP reader is bounded, forwarded heads are exact, and so is what a client receives
    of a forwarded response for every sequence of chunks, silences and a close.
  \<^item> \<^verbatim>\<open>Peer_Handshake\<close> (\<^verbatim>\<open>protocol_core/peer.rs\<close>, \<^verbatim>\<open>ssh-proxy-transport/src/peer_transport.rs\<close>): a client whose
    handshake succeeds holds the answer of the server to its own hello, and over a working transport both ends
    finish with the same verdict.

  \<^bold>\<open>Data planes.\<close>
  \<^item> \<^verbatim>\<open>Bridge\<close>, \<^verbatim>\<open>Remote_Helper\<close>, \<^verbatim>\<open>Tunnel\<close> (\<^verbatim>\<open>ssh-proxy/src/bridge.rs\<close>, \<^verbatim>\<open>remote.rs\<close>): the tasks of both ends as steps
    that interleave, each a lock-protected section or a send.  Applications receive prefixes of what was sent and failed
    opens are forgotten; an open that times out can leave a stream behind at the helper.
  \<^item> \<^verbatim>\<open>Session_Pool\<close> (\<^verbatim>\<open>ssh-proxy/src/ssh_native.rs\<close> with \<^verbatim>\<open>scheduler.rs\<close> and \<^verbatim>\<open>metrics_guard.rs\<close>): calls to the pool as
    steps between their suspension points.  Channel counters are exact under every interleaving, failure and
    dropped call, the pool stays within its size and grows only under load, and reported percentiles are right.

  \<^bold>\<open>Routes.\<close>
  \<^item> \<^verbatim>\<open>Route_Decision\<close>, \<^verbatim>\<open>Route_Plan\<close>, \<^verbatim>\<open>Route_Status\<close> (\<^verbatim>\<open>ssh-proxy-route/src\<close>): transport selection never falls to plain
    TCP without consent, edits of printed plans refine edits of reports, fallbacks respect explicit choices, and
    the sleeps, counters and readiness of a supervised route follow its attempts.
  \<^item> \<^verbatim>\<open>Route_Table\<close> (\<^verbatim>\<open>ssh-proxy/src/node_daemon/routes.rs\<close> and its submodules): listeners are exclusive under every
    interleaving of starts, stops, failing saves and reboots, and persistent routes survive a restart.

  \<^bold>\<open>Daemon and lifecycle.\<close>
  \<^item> \<^verbatim>\<open>Jobs\<close>, \<^verbatim>\<open>Control_Commands\<close>, \<^verbatim>\<open>Version_Compat\<close>, \<^verbatim>\<open>Private_Files\<close>, \<^verbatim>\<open>Redaction\<close>, \<^verbatim>\<open>Repair\<close>, \<^verbatim>\<open>Core_Model\<close>: the job
    registry is bounded and survives restarts, command tables agree, compatibility reports agree with the
    classification, saves are atomic, and redaction reveals exactly the public part of a report, which is described
    without the functions of the code (paths as on Unix).
  \<^item> \<^verbatim>\<open>Session_Spec\<close>, \<^verbatim>\<open>Proxy_Session\<close> (\<^verbatim>\<open>ssh-proxy-daemon/src/session_spec.rs\<close>, \<^verbatim>\<open>session.rs\<close>,
    \<^verbatim>\<open>ssh-proxy/src/node_daemon/proxy_session.rs\<close>, \<^verbatim>\<open>state.rs\<close>): the ports a session may use, the handler of session
    requests with the session store, exactly when a running session is reused, and what a repeated request does.  A
    request is handled against one state: other tasks between its lock-protected sections are not modelled.
  \<^item> \<^verbatim>\<open>Lifecycle\<close>, \<^verbatim>\<open>Remote_Service\<close> (\<^verbatim>\<open>ssh-proxy-lifecycle/src\<close>, \<^verbatim>\<open>ssh-proxy/src/peer_lifecycle\<close>): runs stop at the first
    failing step, and every shell that follows the POSIX rules of locale \<^verbatim>\<open>posix_shell\<close> starts the daemon with exactly
    the intended arguments; the locale is interpreted on a reader that follows these rules.

  \<^bold>\<open>Correspondence.\<close>  Definitions keep the names of the source where they can; record fields carry a prefix for their
  structure.  Errors are constructors of a sum, counters have the width of their atomics and wrap.  A lock-protected
  section, or the code between two suspension points, is one step; finer interleavings of single atomic loads
  inside such a step are not distinguished.

  \<^bold>\<open>Parameters.\<close>  Code outside the repository is an argument of the definitions: serde_json printing and parsing of
  messages and stores, host name resolution, connecting and opening channels, clocks and expired timers, the file
  system calls, the executor of lifecycle steps, the shell of a remote host.  What is relied on appears as hypotheses, each discharged for a
  concrete instance by a witness.

  \<^bold>\<open>Bounds.\<close>  Loops over streams recurse on the remaining chunks or on the bytes left to write and are total, so no
  fuel is involved.  Counters of the session pool are exact below \<open>2 ^ 32\<close> channels and percentiles
  below \<open>2 ^ 64 / 100\<close> samples, the points at which the words would wrap; the properties of the tunnel hold while fewer
  than \<open>2 ^ 32\<close> stream ids were taken from its counter.

  \<^bold>\<open>Not modelled.\<close>  The SSH client and the QUIC runtime drive russh and quinn, whose behaviour is not in the
  repository.  The command line and the configuration are structures from which clap and serde derive the code.
  Deployment, local services and platforms call the operating system and classify its output.  The node daemon
  outside the parts above, the legacy daemon and controller, egress, reverse routes, the control socket and the
  diagnostics are accept loops, task spawning and report printing around the modelled parts.  The runner of
  proxy session jobs and the peer reconciliation alternate remote calls and saved state throughout and are left
  out, as is the pool of QUIC workers, which repeats the pattern of the SSH session pool with other counters.  TLS and QUIC configuration and the loading of certificates only call rustls and quinn.
\<close>

end
